theory Spec2Isabelle
  imports Main "HOL-Library.Word"
begin

section \<open>The QEMU object model (qom/object.c)\<close>

text \<open>
  A shallow embedding of \<^verbatim>\<open>qom/object.c\<close>: the type registry, the lazy class
  builder, the instance lifecycle and the dynamic casts. The C code works on one global
  state (the hash table of types, the heap, a static counter); here that state is a record
  that every function takes and returns. There is one heap for each kind of object (type
  descriptors, class objects, instances); a heap is the list of the objects allocated so
  far, a pointer is an index into it, an allocation appends, and \<^verbatim>\<open>NULL\<close> is \<open>None\<close>.
  Descriptors and class objects are never freed; a freed instance leaves \<open>None\<close> behind.
\<close>

subsection \<open>Outcomes\<close>

text \<open>
  Every way the C code can stop without returning is a value of \<open>error\<close>:
  \<^item> \<open>Assert_failed\<close>: a \<^verbatim>\<open>g_assert\<close> fails, or \<^verbatim>\<open>abort()\<close> is called;
  \<^item> \<open>Null_deref\<close>: a \<^verbatim>\<open>NULL\<close> pointer is dereferenced;
  \<^item> \<open>Invalid_pointer\<close>: a pointer to freed or never allocated memory is dereferenced;
  \<^item> \<open>Out_of_bounds\<close>: an access outside the object pointed to (undefined behaviour in C,
    the code has no check there);
  \<^item> \<open>Out_of_fuel\<close>: the recursion is deeper than the fuel given (the C recursion and
    loops over the parent chain do not end on a cyclic chain).
\<close>

datatype error = Assert_failed | Null_deref | Invalid_pointer | Out_of_bounds | Out_of_fuel

definition bind_err :: "error + 'a \<Rightarrow> ('a \<Rightarrow> error + 'b) \<Rightarrow> error + 'b" where
  "bind_err m f = (case m of Inl e \<Rightarrow> Inl e | Inr x \<Rightarrow> f x)"

text \<open>A loop over a list that threads the state and stops at the first error.\<close>

fun for_each :: "('s \<Rightarrow> 'a \<Rightarrow> error + 's) \<Rightarrow> 's \<Rightarrow> 'a list \<Rightarrow> error + 's" where
  "for_each f s [] = Inr s"
| "for_each f s (x # xs) = (case f s x of Inl e \<Rightarrow> Inl e | Inr s' \<Rightarrow> for_each f s' xs)"

subsection \<open>Sizes of the header structures\<close>

text \<open>
  Modelled from the spec: the declarations of \<^verbatim>\<open>Object\<close>, \<^verbatim>\<open>ObjectClass\<close> and
  \<^verbatim>\<open>InterfaceClass\<close> are in \<^verbatim>\<open>qemu/object.h\<close>, which is not among the sources. The
  spec gives the class header as \<^verbatim>\<open>{ type: descriptor-ref }\<close> and the instance header as
  \<^verbatim>\<open>{ class: class-ref, interfaces: list }\<close>; \<^verbatim>\<open>struct Interface\<close> (object.c, line 57)
  is an \<^verbatim>\<open>Object\<close> followed by one pointer; an \<^verbatim>\<open>InterfaceClass\<close> is an
  \<^verbatim>\<open>ObjectClass\<close> and nothing else. Pointers are 8 bytes.
\<close>

definition sizeof_ptr :: nat where
  "sizeof_ptr = 8"

definition sizeof_ObjectClass :: nat where
  "sizeof_ObjectClass = sizeof_ptr"

definition sizeof_Object :: nat where
  "sizeof_Object = 2 * sizeof_ptr"

definition sizeof_Interface :: nat where
  "sizeof_Interface = sizeof_Object + sizeof_ptr"

definition sizeof_InterfaceClass :: nat where
  "sizeof_InterfaceClass = sizeof_ObjectClass"

text \<open>Line 16: \<^verbatim>\<open>#define MAX_INTERFACES 32\<close>.\<close>

definition MAX_INTERFACES :: nat where
  "MAX_INTERFACES = 32"

text \<open>
  Modelled from the spec: \<^verbatim>\<open>TYPE_INTERFACE\<close> is a macro of \<^verbatim>\<open>qemu/object.h\<close>; the
  spec calls it the universal interface type, registered under the name \<^verbatim>\<open>interface\<close>.
\<close>

definition TYPE_INTERFACE :: string where
  "TYPE_INTERFACE = ''interface''"

subsection \<open>The data model\<close>

type_synonym byte = "8 word"
type_synonym addr = nat

text \<open>
  The hooks are C function pointers. A class hook (\<^verbatim>\<open>base_init\<close>, \<^verbatim>\<open>class_init\<close>,
  \<^verbatim>\<open>interface_initfn\<close>) is handed a class object and may read and rewrite its bytes
  after the header: it is a function on these bytes (\<^verbatim>\<open>class_init\<close> also takes the
  \<^verbatim>\<open>class_data\<close> word). An instance hook is an opaque function pointer: the model
  records that it was called, with which object, and nothing else.
\<close>

type_synonym base_hook = "byte list \<Rightarrow> byte list"
type_synonym class_hook = "nat \<Rightarrow> byte list \<Rightarrow> byte list"
type_synonym instance_hook = nat

text \<open>\<^verbatim>\<open>InterfaceInfo\<close> and \<^verbatim>\<open>TypeInfo\<close>: what the caller hands to the registration.\<close>

record InterfaceInfo =
  ii_type :: string
  ii_interface_initfn :: "class_hook option"

record TypeInfo =
  info_name :: "string option"
  info_parent :: "string option"
  info_class_size :: nat
  info_instance_size :: nat
  info_base_init :: "base_hook option"
  info_base_finalize :: "base_hook option"
  info_class_init :: "class_hook option"
  info_class_finalize :: "class_hook option"
  info_class_data :: nat
  info_instance_init :: "instance_hook option"
  info_instance_finalize :: "instance_hook option"
  info_abstract :: bool
  info_interfaces :: "InterfaceInfo list option"

text \<open>
  \<^verbatim>\<open>struct InterfaceImpl\<close> and \<^verbatim>\<open>struct TypeImpl\<close>. The array
  \<^verbatim>\<open>interfaces[MAX_INTERFACES]\<close> with its count \<^verbatim>\<open>num_interfaces\<close> is the list of
  the entries written so far.
\<close>

record InterfaceImpl =
  if_parent :: string
  if_interface_initfn :: "class_hook option"
  if_type :: "addr option"

record TypeImpl =
  ti_name :: string
  ti_class_size :: nat
  ti_instance_size :: nat
  ti_base_init :: "base_hook option"
  ti_base_finalize :: "base_hook option"
  ti_class_init :: "class_hook option"
  ti_class_finalize :: "class_hook option"
  ti_class_data :: nat
  ti_instance_init :: "instance_hook option"
  ti_instance_finalize :: "instance_hook option"
  ti_abstract :: bool
  ti_parent :: "string option"
  ti_class :: "addr option"
  ti_interfaces :: "InterfaceImpl list"

definition num_interfaces :: "TypeImpl \<Rightarrow> nat" where
  "num_interfaces ti = length (ti_interfaces ti)"

text \<open>
  A class object: the header field \<^verbatim>\<open>type\<close> and the bytes after the header, at the
  offsets \<open>sizeof_ObjectClass\<close> up to the class size.
\<close>

record ObjectClass =
  oc_type :: addr
  oc_tail :: "byte list"

text \<open>
  An instance: the size of its allocation, the header fields \<^verbatim>\<open>class\<close> and
  \<^verbatim>\<open>interfaces\<close>, and the field \<^verbatim>\<open>obj\<close> of \<^verbatim>\<open>struct Interface\<close>, which lies right
  after the header.
\<close>

record Object =
  ob_size :: nat
  ob_class :: "addr option"
  ob_interfaces :: "addr list"
  ob_obj :: "addr option"

text \<open>The calls of hooks, in the order in which they happen.\<close>

datatype event =
    Ev_base_init string addr
  | Ev_class_init string addr nat
  | Ev_instance_init string addr
  | Ev_instance_finalize string addr

text \<open>
  The global state: the hash table of \<^verbatim>\<open>type_table_get\<close>, the three heaps, the static
  counter of \<^verbatim>\<open>type_register_anonymous\<close>, and the calls of hooks so far.
\<close>

record qom =
  type_table :: "string \<rightharpoonup> addr"
  type_heap :: "TypeImpl list"
  class_heap :: "ObjectClass list"
  object_heap :: "Object option list"
  anon_count :: nat
  trace :: "event list"

definition qom_empty :: qom where
  "qom_empty = \<lparr>type_table = Map.empty, type_heap = [], class_heap = [],
     object_heap = [], anon_count = 0, trace = []\<rparr>"

subsection \<open>The type registry\<close>

text \<open>\<^verbatim>\<open>g_hash_table_insert\<close> replaces the value of a key that is already present.\<close>

definition type_table_add :: "qom \<Rightarrow> addr \<Rightarrow> TypeImpl \<Rightarrow> qom" where
  "type_table_add s a ti = s\<lparr>type_table := (type_table s)(ti_name ti \<mapsto> a)\<rparr>"

definition type_table_lookup :: "qom \<Rightarrow> string \<Rightarrow> addr option" where
  "type_table_lookup s name = type_table s name"

definition type_get_by_name :: "qom \<Rightarrow> string option \<Rightarrow> addr option" where
  "type_get_by_name s name = (case name of None \<Rightarrow> None | Some n \<Rightarrow> type_table_lookup s n)"

text \<open>
  The loop that copies the interface entries, lines 110 to 118 and 150 to 158. Entry
  \<open>i\<close> is written to \<^verbatim>\<open>ti->interfaces[i]\<close> with no check of \<open>i\<close>: the write of entry
  number \<open>MAX_INTERFACES\<close> is past the end of the array.
\<close>

fun copy_interfaces :: "InterfaceImpl list \<Rightarrow> InterfaceInfo list \<Rightarrow> error + InterfaceImpl list" where
  "copy_interfaces acc [] = Inr acc"
| "copy_interfaces acc (x # xs) =
     (if length acc < MAX_INTERFACES
      then copy_interfaces
             (acc @ [\<lparr>if_parent = ii_type x, if_interface_initfn = ii_interface_initfn x,
                      if_type = None\<rparr>]) xs
      else Inl Out_of_bounds)"

definition g_malloc0_type :: "qom \<Rightarrow> TypeImpl \<Rightarrow> qom \<times> addr" where
  "g_malloc0_type s ti = (s\<lparr>type_heap := type_heap s @ [ti]\<rparr>, length (type_heap s))"

definition type_register_static :: "qom \<Rightarrow> TypeInfo \<Rightarrow> error + (qom \<times> addr)" where
  "type_register_static s info =
     (case info_name info of
        None \<Rightarrow> Inl Assert_failed
      | Some name \<Rightarrow>
          (case copy_interfaces [] (case info_interfaces info of None \<Rightarrow> [] | Some l \<Rightarrow> l) of
             Inl e \<Rightarrow> Inl e
           | Inr ifs \<Rightarrow>
               (let ti = \<lparr>ti_name = name,
                          ti_class_size = info_class_size info,
                          ti_instance_size = info_instance_size info,
                          ti_base_init = info_base_init info,
                          ti_base_finalize = info_base_finalize info,
                          ti_class_init = info_class_init info,
                          ti_class_finalize = info_class_finalize info,
                          ti_class_data = info_class_data info,
                          ti_instance_init = info_instance_init info,
                          ti_instance_finalize = info_instance_finalize info,
                          ti_abstract = info_abstract info,
                          ti_parent = info_parent info,
                          ti_class = None,
                          ti_interfaces = ifs\<rparr>;
                    (s1, a) = g_malloc0_type s ti
                in Inr (type_table_add s1 a ti, a))))"

text \<open>
  A \<^verbatim>\<open>TypeInfo\<close> with every field zero, as a C initializer leaves the fields that it
  does not name.
\<close>

definition TypeInfo_zero :: TypeInfo where
  "TypeInfo_zero =
     \<lparr>info_name = None, info_parent = None, info_class_size = 0, info_instance_size = 0,
      info_base_init = None, info_base_finalize = None, info_class_init = None,
      info_class_finalize = None, info_class_data = 0, info_instance_init = None,
      info_instance_finalize = None, info_abstract = False, info_interfaces = None\<rparr>"

text \<open>Lines 409 to 418: the type \<^verbatim>\<open>interface\<close>, registered at startup.\<close>

definition interface_info :: TypeInfo where
  "interface_info =
     TypeInfo_zero\<lparr>info_name := Some TYPE_INTERFACE, info_instance_size := sizeof_Interface,
       info_abstract := True\<rparr>"

definition register_interface :: "qom \<Rightarrow> error + (qom \<times> addr)" where
  "register_interface s = type_register_static s interface_info"

text \<open>\<^verbatim>\<open>snprintf(buffer, sizeof(buffer), "<anonymous-%d>", count++)\<close>\<close>

fun digits_of :: "nat \<Rightarrow> nat \<Rightarrow> string" where
  "digits_of 0 n = []"
| "digits_of (Suc k) n =
     (if n < 10 then [char_of (48 + n)]
      else digits_of k (n div 10) @ [char_of (48 + n mod 10)])"

definition string_of_nat :: "nat \<Rightarrow> string" where
  "string_of_nat n = digits_of (Suc n) n"

definition anonymous_name :: "nat \<Rightarrow> string" where
  "anonymous_name n = ''<anonymous-'' @ string_of_nat n @ ''>''"

text \<open>
  \<^verbatim>\<open>type_register_anonymous\<close> copies every field that \<^verbatim>\<open>type_register_static\<close>
  copies, but \<^verbatim>\<open>abstract\<close>: the field keeps the zero of \<^verbatim>\<open>g_malloc0\<close>.
\<close>

definition type_register_anonymous :: "qom \<Rightarrow> TypeInfo \<Rightarrow> error + (qom \<times> addr)" where
  "type_register_anonymous s info =
     (let name = anonymous_name (anon_count s);
          s0 = s\<lparr>anon_count := Suc (anon_count s)\<rparr>
      in case copy_interfaces [] (case info_interfaces info of None \<Rightarrow> [] | Some l \<Rightarrow> l) of
           Inl e \<Rightarrow> Inl e
         | Inr ifs \<Rightarrow>
             (let ti = \<lparr>ti_name = name,
                        ti_class_size = info_class_size info,
                        ti_instance_size = info_instance_size info,
                        ti_base_init = info_base_init info,
                        ti_base_finalize = info_base_finalize info,
                        ti_class_init = info_class_init info,
                        ti_class_finalize = info_class_finalize info,
                        ti_class_data = info_class_data info,
                        ti_instance_init = info_instance_init info,
                        ti_instance_finalize = info_instance_finalize info,
                        ti_abstract = False,
                        ti_parent = info_parent info,
                        ti_class = None,
                        ti_interfaces = ifs\<rparr>;
                  (s1, a) = g_malloc0_type s0 ti
              in Inr (type_table_add s1 a ti, a)))"

text \<open>Reading through a \<^verbatim>\<open>TypeImpl *\<close>, an \<^verbatim>\<open>ObjectClass *\<close> and an \<^verbatim>\<open>Object *\<close>.\<close>

definition deref_type :: "qom \<Rightarrow> addr option \<Rightarrow> error + TypeImpl" where
  "deref_type s p =
     (case p of None \<Rightarrow> Inl Null_deref
      | Some a \<Rightarrow> if a < length (type_heap s) then Inr (type_heap s ! a) else Inl Invalid_pointer)"

definition deref_class :: "qom \<Rightarrow> addr option \<Rightarrow> error + ObjectClass" where
  "deref_class s p =
     (case p of None \<Rightarrow> Inl Null_deref
      | Some c \<Rightarrow> if c < length (class_heap s) then Inr (class_heap s ! c) else Inl Invalid_pointer)"

definition deref_object :: "qom \<Rightarrow> addr option \<Rightarrow> error + Object" where
  "deref_object s p =
     (case p of None \<Rightarrow> Inl Null_deref
      | Some a \<Rightarrow>
          if a < length (object_heap s)
          then (case object_heap s ! a of None \<Rightarrow> Inl Invalid_pointer | Some ob \<Rightarrow> Inr ob)
          else Inl Invalid_pointer)"

definition update_type :: "qom \<Rightarrow> addr \<Rightarrow> (TypeImpl \<Rightarrow> TypeImpl) \<Rightarrow> error + qom" where
  "update_type s a f =
     bind_err (deref_type s (Some a)) (\<lambda>ti. Inr (s\<lparr>type_heap := (type_heap s)[a := f ti]\<rparr>))"

subsection \<open>The class builder\<close>

text \<open>
  The call of a class hook on the class object \<open>c\<close>. A C hook cannot change the size of
  the object it is handed: a hook function that returns another number of bytes would
  write outside the object.
\<close>

definition update_class_tail :: "qom \<Rightarrow> addr option \<Rightarrow> byte list \<Rightarrow> error + qom" where
  "update_class_tail s p bs =
     (case p of None \<Rightarrow> Inl Null_deref
      | Some c \<Rightarrow>
          if c < length (class_heap s)
          then Inr (s\<lparr>class_heap := (class_heap s)[c := (class_heap s ! c)\<lparr>oc_tail := bs\<rparr>]\<rparr>)
          else Inl Invalid_pointer)"

definition run_class_hook :: "qom \<Rightarrow> addr option \<Rightarrow> (byte list \<Rightarrow> byte list) \<Rightarrow> error + qom" where
  "run_class_hook s p f =
     bind_err (deref_class s p) (\<lambda>oc.
       if length (f (oc_tail oc)) = length (oc_tail oc)
       then update_class_tail s p (f (oc_tail oc))
       else Inl Out_of_bounds)"

definition log_event :: "event \<Rightarrow> qom \<Rightarrow> qom" where
  "log_event e s = s\<lparr>trace := trace s @ [e]\<rparr>"

text \<open>
  \<^verbatim>\<open>type_class_base_init(base_ti, typename)\<close>: first the parent of \<open>typename\<close>, then
  the \<^verbatim>\<open>base_init\<close> of \<open>typename\<close> itself, on the class of \<open>base_ti\<close>.
\<close>

fun type_class_base_init :: "nat \<Rightarrow> qom \<Rightarrow> addr \<Rightarrow> string option \<Rightarrow> error + qom" where
  "type_class_base_init 0 s base_ti typename = Inl Out_of_fuel"
| "type_class_base_init (Suc n) s base_ti typename =
     (case typename of
        None \<Rightarrow> Inr s
      | Some tn \<Rightarrow>
          bind_err (deref_type s (type_get_by_name s typename)) (\<lambda>ti.
          bind_err (type_class_base_init n s base_ti (ti_parent ti)) (\<lambda>s1.
            case ti_base_init ti of
              None \<Rightarrow> Inr s1
            | Some f \<Rightarrow>
                bind_err (deref_type s1 (Some base_ti)) (\<lambda>bti.
                bind_err (run_class_hook s1 (ti_class bti) f) (\<lambda>s2.
                  case ti_class bti of
                    None \<Rightarrow> Inl Null_deref
                  | Some c \<Rightarrow> Inr (log_event (Ev_base_init (ti_name ti) c) s2))))))"

fun type_class_get_size :: "nat \<Rightarrow> qom \<Rightarrow> addr option \<Rightarrow> error + nat" where
  "type_class_get_size 0 s p = Inl Out_of_fuel"
| "type_class_get_size (Suc n) s p =
     (case deref_type s p of
        Inl e \<Rightarrow> Inl e
      | Inr ti \<Rightarrow>
          (if ti_class_size ti \<noteq> 0 then Inr (ti_class_size ti)
           else if ti_parent ti \<noteq> None
           then type_class_get_size n s (type_get_by_name s (ti_parent ti))
           else Inr sizeof_ObjectClass))"

text \<open>
  \<^verbatim>\<open>type_class_interface_init(ti, &ti->interfaces[i])\<close>: the entry is named by the
  address of its type and its index. The \<^verbatim>\<open>TypeInfo\<close> of lines 206 to 212 comes first.
\<close>

definition interface_type_info :: "InterfaceImpl \<Rightarrow> TypeInfo" where
  "interface_type_info iface =
     TypeInfo_zero\<lparr>info_instance_size := sizeof_Interface,
       info_parent := Some (if_parent iface),
       info_class_size := sizeof_InterfaceClass,
       info_class_init := if_interface_initfn iface,
       info_abstract := True\<rparr>"

definition type_class_interface_init :: "qom \<Rightarrow> addr \<Rightarrow> nat \<Rightarrow> error + qom" where
  "type_class_interface_init s a i =
     bind_err (deref_type s (Some a)) (\<lambda>ti.
       if i < num_interfaces ti then
         bind_err (type_register_anonymous s (interface_type_info (ti_interfaces ti ! i)))
           (\<lambda>(s1, t).
              update_type s1 a (\<lambda>ti1. ti1\<lparr>ti_interfaces :=
                (ti_interfaces ti1)[i := (ti_interfaces ti1 ! i)\<lparr>if_type := Some t\<rparr>]\<rparr>))
       else Inl Out_of_bounds)"

text \<open>The two block operations of \<^verbatim>\<open>type_class_init\<close>, on the bytes after the header.\<close>

definition memcpy_tail :: "byte list \<Rightarrow> byte list \<Rightarrow> nat \<Rightarrow> error + byte list" where
  "memcpy_tail dst src cnt =
     (if cnt \<le> length src \<and> cnt \<le> length dst then Inr (take cnt src @ drop cnt dst)
      else Inl Out_of_bounds)"

definition memset_tail :: "byte list \<Rightarrow> nat \<Rightarrow> nat \<Rightarrow> error + byte list" where
  "memset_tail dst off cnt =
     (if off + cnt \<le> length dst then Inr (take off dst @ replicate cnt 0 @ drop (off + cnt) dst)
      else Inl Out_of_bounds)"

definition g_malloc0_class :: "qom \<Rightarrow> addr \<Rightarrow> nat \<Rightarrow> qom \<times> addr" where
  "g_malloc0_class s t sz =
     (s\<lparr>class_heap := class_heap s @
          [\<lparr>oc_type = t, oc_tail = replicate (sz - sizeof_ObjectClass) 0\<rparr>]\<rparr>,
      length (class_heap s))"

text \<open>
  Lines 226 to 229: the class size is resolved and stored, the class object is allocated
  zeroed and its header is set. The header does not fit in an allocation of fewer than
  \<open>sizeof_ObjectClass\<close> bytes.
\<close>

definition class_alloc :: "qom \<Rightarrow> addr \<Rightarrow> nat \<Rightarrow> error + qom" where
  "class_alloc s a sz =
     (if sz < sizeof_ObjectClass then Inl Out_of_bounds
      else
        bind_err (update_type s a (\<lambda>ti. ti\<lparr>ti_class_size := sz\<rparr>)) (\<lambda>s1.
          case g_malloc0_class s1 a sz of
            (s2, c) \<Rightarrow> update_type s2 a (\<lambda>ti. ti\<lparr>ti_class := Some c\<rparr>)))"

text \<open>
  Lines 238 to 243, after the class of the parent has been built: the assertion on the
  two sizes and the copy of the parent's bytes after the header. The result is the new
  state and the value of the local \<^verbatim>\<open>class_size\<close>.
\<close>

definition class_inherit :: "qom \<Rightarrow> addr \<Rightarrow> addr option \<Rightarrow> error + (qom \<times> nat)" where
  "class_inherit s a pa =
     bind_err (deref_type s pa) (\<lambda>pti.
     bind_err (deref_type s (Some a)) (\<lambda>ti.
       if \<not> ti_class_size pti \<le> ti_class_size ti then Inl Assert_failed
       else
         bind_err (deref_class s (ti_class ti)) (\<lambda>oc.
         bind_err (deref_class s (ti_class pti)) (\<lambda>poc.
           if ti_class_size pti < sizeof_ObjectClass then Inl Out_of_bounds
           else
             bind_err (memcpy_tail (oc_tail oc) (oc_tail poc)
                         (ti_class_size pti - sizeof_ObjectClass)) (\<lambda>bs.
             bind_err (update_class_tail s (ti_class ti) bs) (\<lambda>s1.
               Inr (s1, ti_class_size pti)))))))"

text \<open>Line 246: the bytes from the local \<^verbatim>\<open>class_size\<close> to the end are cleared.\<close>

definition class_clear :: "qom \<Rightarrow> addr \<Rightarrow> nat \<Rightarrow> error + qom" where
  "class_clear s a class_size =
     bind_err (deref_type s (Some a)) (\<lambda>ti.
     bind_err (deref_class s (ti_class ti)) (\<lambda>oc.
       if class_size < sizeof_ObjectClass \<or> ti_class_size ti < class_size then Inl Out_of_bounds
       else
         bind_err (memset_tail (oc_tail oc) (class_size - sizeof_ObjectClass)
                     (ti_class_size ti - class_size)) (\<lambda>bs.
           update_class_tail s (ti_class ti) bs)))"

text \<open>Lines 250 to 252: one anonymous type for each interface entry, in order.\<close>

definition class_interfaces :: "qom \<Rightarrow> addr \<Rightarrow> error + qom" where
  "class_interfaces s a =
     bind_err (deref_type s (Some a)) (\<lambda>ti.
       for_each (\<lambda>s' i. type_class_interface_init s' a i) s [0..<num_interfaces ti])"

text \<open>Lines 254 to 256: the type's own \<^verbatim>\<open>class_init\<close>, when it has one.\<close>

definition class_call_init :: "qom \<Rightarrow> addr \<Rightarrow> error + qom" where
  "class_call_init s a =
     bind_err (deref_type s (Some a)) (\<lambda>ti.
       case ti_class_init ti of
         None \<Rightarrow> Inr s
       | Some f \<Rightarrow>
           bind_err (run_class_hook s (ti_class ti) (f (ti_class_data ti))) (\<lambda>s1.
             case ti_class ti of
               None \<Rightarrow> Inl Null_deref
             | Some c \<Rightarrow> Inr (log_event (Ev_class_init (ti_name ti) c (ti_class_data ti)) s1)))"

fun type_class_init :: "nat \<Rightarrow> qom \<Rightarrow> addr option \<Rightarrow> error + qom" where
  "type_class_init 0 s p = Inl Out_of_fuel"
| "type_class_init (Suc n) s p =
     (case p of
        None \<Rightarrow> Inl Null_deref
      | Some a \<Rightarrow>
          bind_err (deref_type s p) (\<lambda>ti.
            if ti_class ti \<noteq> None then Inr s
            else
              bind_err (type_class_get_size n s p) (\<lambda>sz.
              bind_err (class_alloc s a sz) (\<lambda>s1.
              bind_err (if ti_parent ti \<noteq> None
                        then bind_err (type_class_init n s1 (type_get_by_name s1 (ti_parent ti)))
                               (\<lambda>s2. class_inherit s2 a (type_get_by_name s1 (ti_parent ti)))
                        else Inr (s1, sizeof_ObjectClass)) (\<lambda>(s3, class_size).
              bind_err (class_clear s3 a class_size) (\<lambda>s4.
              bind_err (type_class_base_init n s4 a (ti_parent ti)) (\<lambda>s5.
              bind_err (class_interfaces s5 a) (\<lambda>s6.
                class_call_init s6 a))))))))"

subsection \<open>Dynamic type identification\<close>

text \<open>
  The loop of lines 357 to 363 (and 442 to 448): \<open>ty\<close> walks up the parent chain, by
  name, until it is the target or \<^verbatim>\<open>NULL\<close>.
\<close>

fun is_ancestor_loop :: "nat \<Rightarrow> qom \<Rightarrow> addr option \<Rightarrow> addr option \<Rightarrow> error + bool" where
  "is_ancestor_loop 0 s ty target_type = Inl Out_of_fuel"
| "is_ancestor_loop (Suc n) s ty target_type =
     (case ty of
        None \<Rightarrow> Inr False
      | Some a \<Rightarrow>
          (if ty = target_type then Inr True
           else case deref_type s ty of
                  Inl e \<Rightarrow> Inl e
                | Inr ti \<Rightarrow> is_ancestor_loop n s (type_get_by_name s (ti_parent ti)) target_type))"

text \<open>
  \<^verbatim>\<open>object_is_type\<close>: the ancestors first, then every interface object of the list
  \<^verbatim>\<open>obj->interfaces\<close>. The list is inside the allocation only when the allocation holds
  a whole \<^verbatim>\<open>Object\<close>.
\<close>

fun object_is_type :: "nat \<Rightarrow> qom \<Rightarrow> addr option \<Rightarrow> string option \<Rightarrow> error + bool"
  and object_is_type_ifaces :: "nat \<Rightarrow> qom \<Rightarrow> addr list \<Rightarrow> string option \<Rightarrow> error + bool" where
  "object_is_type 0 s obj typename = Inl Out_of_fuel"
| "object_is_type (Suc n) s obj typename =
     (case deref_object s obj of
        Inl e \<Rightarrow> Inl e
      | Inr ob \<Rightarrow>
          (case deref_class s (ob_class ob) of
             Inl e \<Rightarrow> Inl e
           | Inr oc \<Rightarrow>
               (case is_ancestor_loop n s (Some (oc_type oc)) (type_get_by_name s typename) of
                  Inl e \<Rightarrow> Inl e
                | Inr True \<Rightarrow> Inr True
                | Inr False \<Rightarrow>
                    (if ob_size ob < sizeof_Object then Inl Out_of_bounds
                     else object_is_type_ifaces n s (ob_interfaces ob) typename))))"
| "object_is_type_ifaces n s [] typename = Inr False"
| "object_is_type_ifaces n s (i # ifs) typename =
     (case object_is_type n s (Some i) typename of
        Inl e \<Rightarrow> Inl e
      | Inr True \<Rightarrow> Inr True
      | Inr False \<Rightarrow> object_is_type_ifaces n s ifs typename)"

text \<open>The loop of lines 387 to 393: the first interface object that is of the type.\<close>

fun dynamic_cast_ifaces :: "nat \<Rightarrow> qom \<Rightarrow> addr list \<Rightarrow> string option \<Rightarrow> error + addr option" where
  "dynamic_cast_ifaces n s [] typename = Inr None"
| "dynamic_cast_ifaces n s (i # ifs) typename =
     (case object_is_type n s (Some i) typename of
        Inl e \<Rightarrow> Inl e
      | Inr True \<Rightarrow> Inr (Some i)
      | Inr False \<Rightarrow> dynamic_cast_ifaces n s ifs typename)"

text \<open>The read of \<^verbatim>\<open>iface->obj\<close>, a field of \<^verbatim>\<open>struct Interface\<close>.\<close>

definition read_iface_obj :: "qom \<Rightarrow> addr option \<Rightarrow> error + addr option" where
  "read_iface_obj s p =
     (case deref_object s p of
        Inl e \<Rightarrow> Inl e
      | Inr ob \<Rightarrow> if ob_size ob < sizeof_Interface then Inl Out_of_bounds else Inr (ob_obj ob))"

text \<open>
  \<^verbatim>\<open>object_dynamic_cast\<close> and \<^verbatim>\<open>object_dynamic_cast_assert\<close> call each other: line 398
  is \<^verbatim>\<open>INTERFACE(obj)\<close>, that is \<^verbatim>\<open>OBJECT_CHECK(Interface, obj, TYPE_INTERFACE)\<close>.

  Modelled from the spec: \<^verbatim>\<open>OBJECT_CHECK\<close> is a macro of \<^verbatim>\<open>qemu/object.h\<close>, which is
  not among the sources; it is the asserting cast of the spec, section 4.6, here
  \<^verbatim>\<open>object_dynamic_cast_assert\<close>.
\<close>

fun object_dynamic_cast :: "nat \<Rightarrow> qom \<Rightarrow> addr option \<Rightarrow> string option \<Rightarrow> error + addr option"
  and object_dynamic_cast_assert :: "nat \<Rightarrow> qom \<Rightarrow> addr option \<Rightarrow> string option \<Rightarrow> error + addr option" where
  "object_dynamic_cast 0 s obj typename = Inl Out_of_fuel"
| "object_dynamic_cast (Suc n) s obj typename =
     (case object_is_type n s obj typename of
        Inl e \<Rightarrow> Inl e
      | Inr True \<Rightarrow> Inr obj
      | Inr False \<Rightarrow>
          (case deref_object s obj of
             Inl e \<Rightarrow> Inl e
           | Inr ob \<Rightarrow>
               (case dynamic_cast_ifaces n s (ob_interfaces ob) typename of
                  Inl e \<Rightarrow> Inl e
                | Inr (Some i) \<Rightarrow> Inr (Some i)
                | Inr None \<Rightarrow>
                    (case object_is_type n s obj (Some TYPE_INTERFACE) of
                       Inl e \<Rightarrow> Inl e
                     | Inr False \<Rightarrow> Inr None
                     | Inr True \<Rightarrow>
                         (case object_dynamic_cast_assert n s obj (Some TYPE_INTERFACE) of
                            Inl e \<Rightarrow> Inl e
                          | Inr iface \<Rightarrow>
                              (case read_iface_obj s iface of
                                 Inl e \<Rightarrow> Inl e
                               | Inr owner \<Rightarrow>
                                   (case object_is_type n s owner typename of
                                      Inl e \<Rightarrow> Inl e
                                    | Inr True \<Rightarrow> Inr owner
                                    | Inr False \<Rightarrow> Inr None)))))))"
| "object_dynamic_cast_assert 0 s obj typename = Inl Out_of_fuel"
| "object_dynamic_cast_assert (Suc n) s obj typename =
     (case object_dynamic_cast n s obj typename of
        Inl e \<Rightarrow> Inl e
      | Inr None \<Rightarrow> Inl Assert_failed
      | Inr (Some inst) \<Rightarrow> Inr (Some inst))"

subsection \<open>The instance lifecycle\<close>

definition INTERFACE :: "nat \<Rightarrow> qom \<Rightarrow> addr option \<Rightarrow> error + addr option" where
  "INTERFACE n s obj = object_dynamic_cast_assert n s obj (Some TYPE_INTERFACE)"

definition update_object :: "qom \<Rightarrow> addr \<Rightarrow> (Object \<Rightarrow> Object) \<Rightarrow> error + qom" where
  "update_object s a f =
     bind_err (deref_object s (Some a)) (\<lambda>ob.
       Inr (s\<lparr>object_heap := (object_heap s)[a := Some (f ob)]\<rparr>))"

text \<open>
  \<^verbatim>\<open>g_malloc(size)\<close>: a fresh allocation, with nothing in it yet. (With a size of 0
  \<^verbatim>\<open>g_malloc\<close> returns \<^verbatim>\<open>NULL\<close>; the only caller then fails its first assertion
  before it touches the object.)
\<close>

definition g_malloc_object :: "qom \<Rightarrow> nat \<Rightarrow> qom \<times> addr" where
  "g_malloc_object s sz =
     (s\<lparr>object_heap := object_heap s @
          [Some \<lparr>ob_size = sz, ob_class = None, ob_interfaces = [], ob_obj = None\<rparr>]\<rparr>,
      length (object_heap s))"

definition g_free_object :: "qom \<Rightarrow> addr \<Rightarrow> qom" where
  "g_free_object s a = s\<lparr>object_heap := (object_heap s)[a := None]\<rparr>"

text \<open>
  Lines 265 and 267: the back-pointer of the new interface object is set, and the
  interface object is put at the head of the list of \<open>obj\<close>.
\<close>

definition interface_install :: "qom \<Rightarrow> addr \<Rightarrow> addr option \<Rightarrow> error + qom" where
  "interface_install s obj iface_obj =
     (case iface_obj of
        None \<Rightarrow> Inl Null_deref
      | Some x \<Rightarrow>
          bind_err (deref_object s (Some x)) (\<lambda>iob.
            if ob_size iob < sizeof_Interface then Inl Out_of_bounds
            else
              bind_err (update_object s x (\<lambda>ob. ob\<lparr>ob_obj := Some obj\<rparr>)) (\<lambda>s1.
              bind_err (deref_object s1 (Some obj)) (\<lambda>ob.
                if ob_size ob < sizeof_Object then Inl Out_of_bounds
                else update_object s1 obj (\<lambda>ob. ob\<lparr>ob_interfaces := x # ob_interfaces ob\<rparr>)))))"

text \<open>
  Lines 299 and 301: \<^verbatim>\<open>memset(obj, 0, ti->instance_size)\<close> clears the fields that lie
  inside the first \<open>instance_size\<close> bytes; then the class pointer is set.
\<close>

definition object_clear :: "qom \<Rightarrow> addr \<Rightarrow> nat \<Rightarrow> addr option \<Rightarrow> error + qom" where
  "object_clear s obj instance_size cls =
     bind_err (deref_object s (Some obj)) (\<lambda>ob.
       if ob_size ob < instance_size \<or> ob_size ob < sizeof_ptr then Inl Out_of_bounds
       else
         update_object s obj (\<lambda>ob.
           ob\<lparr>ob_class := cls,
              ob_interfaces := (if sizeof_Object \<le> instance_size then [] else ob_interfaces ob),
              ob_obj := (if sizeof_Interface \<le> instance_size then None else ob_obj ob)\<rparr>))"

definition call_instance_init :: "qom \<Rightarrow> TypeImpl \<Rightarrow> addr \<Rightarrow> qom" where
  "call_instance_init s ti obj =
     (case ti_instance_init ti of
        None \<Rightarrow> s
      | Some f \<Rightarrow> log_event (Ev_instance_init (ti_name ti) obj) s)"

definition call_instance_finalize :: "qom \<Rightarrow> TypeImpl \<Rightarrow> addr \<Rightarrow> qom" where
  "call_instance_finalize s ti obj =
     (case ti_instance_finalize ti of
        None \<Rightarrow> s
      | Some f \<Rightarrow> log_event (Ev_instance_finalize (ti_name ti) obj) s)"

text \<open>The name of the type of entry \<open>i\<close> of the type at \<open>a\<close>: \<^verbatim>\<open>iface->type->name\<close>.\<close>

definition interface_type_name :: "qom \<Rightarrow> addr \<Rightarrow> nat \<Rightarrow> error + string" where
  "interface_type_name s a i =
     bind_err (deref_type s (Some a)) (\<lambda>ti.
       if i < num_interfaces ti
       then bind_err (deref_type s (if_type (ti_interfaces ti ! i))) (\<lambda>t. Inr (ti_name t))
       else Inl Out_of_bounds)"

text \<open>
  \<^verbatim>\<open>object_interface_init\<close>, \<^verbatim>\<open>object_init\<close>, \<^verbatim>\<open>object_initialize\<close> and
  \<^verbatim>\<open>object_new\<close> call each other: an interface object is itself made by
  \<^verbatim>\<open>object_new\<close>. The interface entry \<^verbatim>\<open>&ti->interfaces[i]\<close> is named by the address
  of its type and its index.
\<close>

function (sequential)
  object_interface_init :: "nat \<Rightarrow> qom \<Rightarrow> addr \<Rightarrow> addr \<Rightarrow> nat \<Rightarrow> error + qom"
  and object_init :: "nat \<Rightarrow> qom \<Rightarrow> addr \<Rightarrow> string option \<Rightarrow> error + qom"
  and object_initialize :: "nat \<Rightarrow> qom \<Rightarrow> addr \<Rightarrow> string option \<Rightarrow> error + qom"
  and object_new :: "nat \<Rightarrow> qom \<Rightarrow> string option \<Rightarrow> error + (qom \<times> addr)" where
  "object_interface_init 0 s obj a i = Inl Out_of_fuel"
| "object_interface_init (Suc n) s obj a i =
     bind_err (interface_type_name s a i) (\<lambda>name.
     bind_err (object_new n s (Some name)) (\<lambda>(s1, x).
     bind_err (INTERFACE n s1 (Some x)) (\<lambda>iface_obj.
       interface_install s1 obj iface_obj)))"
| "object_init 0 s obj typename = Inl Out_of_fuel"
| "object_init (Suc n) s obj typename =
     (case type_get_by_name s typename of
        None \<Rightarrow> Inl Null_deref
      | Some a \<Rightarrow>
          bind_err (deref_type s (Some a)) (\<lambda>ti.
          bind_err (if ti_parent ti \<noteq> None then object_init n s obj (ti_parent ti)
                    else Inr s) (\<lambda>s1.
          bind_err (for_each (\<lambda>s' i. object_interface_init n s' obj a i)
                      s1 [0..<num_interfaces ti]) (\<lambda>s2.
            Inr (call_instance_init s2 ti obj)))))"
| "object_initialize 0 s obj typename = Inl Out_of_fuel"
| "object_initialize (Suc n) s obj typename =
     bind_err (deref_type s (type_get_by_name s typename)) (\<lambda>ti.
       if \<not> sizeof_ObjectClass \<le> ti_instance_size ti then Inl Assert_failed
       else
         bind_err (type_class_init n s (type_get_by_name s typename)) (\<lambda>s1.
         bind_err (deref_type s1 (type_get_by_name s typename)) (\<lambda>ti1.
           if ti_abstract ti1 then Inl Assert_failed
           else
             bind_err (object_clear s1 obj (ti_instance_size ti1) (ti_class ti1)) (\<lambda>s2.
               object_init n s2 obj typename))))"
| "object_new 0 s typename = Inl Out_of_fuel"
| "object_new (Suc n) s typename =
     bind_err (deref_type s (type_get_by_name s typename)) (\<lambda>ti.
       case g_malloc_object s (ti_instance_size ti) of
         (s1, obj) \<Rightarrow> bind_err (object_initialize n s1 obj typename) (\<lambda>s2. Inr (s2, obj)))"
  by pat_completeness auto
termination
  by (relation "measure (\<lambda>x. case x of
        Inl (Inl p) \<Rightarrow> fst p | Inl (Inr p) \<Rightarrow> fst p
      | Inr (Inl p) \<Rightarrow> fst p | Inr (Inr p) \<Rightarrow> fst p)") auto

text \<open>
  \<^verbatim>\<open>object_deinit\<close>, with its loop over the interface list (lines 314 to 318),
  \<^verbatim>\<open>object_finalize\<close> and \<^verbatim>\<open>object_delete\<close>. Line 321 calls \<^verbatim>\<open>object_init\<close> on the
  parent.
\<close>

function (sequential)
  object_deinit :: "nat \<Rightarrow> qom \<Rightarrow> addr \<Rightarrow> string option \<Rightarrow> error + qom"
  and object_deinit_loop :: "nat \<Rightarrow> qom \<Rightarrow> addr \<Rightarrow> error + qom"
  and object_finalize :: "nat \<Rightarrow> qom \<Rightarrow> addr \<Rightarrow> error + qom"
  and object_delete :: "nat \<Rightarrow> qom \<Rightarrow> addr \<Rightarrow> error + qom" where
  "object_deinit 0 s obj typename = Inl Out_of_fuel"
| "object_deinit (Suc n) s obj typename =
     bind_err (deref_type s (type_get_by_name s typename)) (\<lambda>ti.
     bind_err (object_deinit_loop n (call_instance_finalize s ti obj) obj) (\<lambda>s1.
       if ti_parent ti \<noteq> None then object_init n s1 obj (ti_parent ti) else Inr s1))"
| "object_deinit_loop 0 s obj = Inl Out_of_fuel"
| "object_deinit_loop (Suc n) s obj =
     bind_err (deref_object s (Some obj)) (\<lambda>ob.
       if ob_size ob < sizeof_Object then Inl Out_of_bounds
       else
         (case ob_interfaces ob of
            [] \<Rightarrow> Inr s
          | iface_obj # rest \<Rightarrow>
              bind_err (update_object s obj (\<lambda>ob. ob\<lparr>ob_interfaces := rest\<rparr>)) (\<lambda>s1.
              bind_err (object_delete n s1 iface_obj) (\<lambda>s2.
                object_deinit_loop n s2 obj))))"
| "object_finalize 0 s obj = Inl Out_of_fuel"
| "object_finalize (Suc n) s obj =
     bind_err (deref_object s (Some obj)) (\<lambda>ob.
     bind_err (deref_class s (ob_class ob)) (\<lambda>oc.
     bind_err (deref_type s (Some (oc_type oc))) (\<lambda>ti.
       object_deinit n s obj (Some (ti_name ti)))))"
| "object_delete 0 s obj = Inl Out_of_fuel"
| "object_delete (Suc n) s obj =
     bind_err (object_finalize n s obj) (\<lambda>s1. Inr (g_free_object s1 obj))"
  by pat_completeness auto
termination
  by (relation "measure (\<lambda>x. case x of
        Inl (Inl p) \<Rightarrow> fst p | Inl (Inr p) \<Rightarrow> fst p
      | Inr (Inl p) \<Rightarrow> fst p | Inr (Inr p) \<Rightarrow> fst p)") auto

definition object_get_type :: "qom \<Rightarrow> addr \<Rightarrow> error + string" where
  "object_get_type s obj =
     bind_err (deref_object s (Some obj)) (\<lambda>ob.
     bind_err (deref_class s (ob_class ob)) (\<lambda>oc.
     bind_err (deref_type s (Some (oc_type oc))) (\<lambda>ti. Inr (ti_name ti))))"

definition object_get_class :: "qom \<Rightarrow> addr \<Rightarrow> error + addr option" where
  "object_get_class s obj = bind_err (deref_object s (Some obj)) (\<lambda>ob. Inr (ob_class ob))"

section \<open>Scenarios and frame conditions\<close>

text \<open>
  The registries and type descriptions of the scenarios, and the predicates that say what
  an operation keeps of the state in which it starts.
\<close>

definition impl_of_info :: "InterfaceInfo \<Rightarrow> InterfaceImpl" where
  "impl_of_info x = \<lparr>if_parent = ii_type x, if_interface_initfn = ii_interface_initfn x, if_type = None\<rparr>"

definition info_interface_list :: "TypeInfo \<Rightarrow> InterfaceInfo list" where
  "info_interface_list info = (case info_interfaces info of None \<Rightarrow> [] | Some l \<Rightarrow> l)"

definition too_many_info :: TypeInfo where
  "too_many_info = TypeInfo_zero\<lparr>info_name := Some ''wide'',
     info_interfaces := Some (replicate 33 \<lparr>ii_type = ''iface_a'', ii_interface_initfn = None\<rparr>)\<rparr>"

fun ev_class :: "event \<Rightarrow> addr option" where
  "ev_class (Ev_base_init nm c) = Some c"
| "ev_class (Ev_class_init nm c d) = Some c"
| "ev_class (Ev_instance_init nm obj) = None"
| "ev_class (Ev_instance_finalize nm obj) = None"

definition same_static :: "TypeImpl \<Rightarrow> TypeImpl \<Rightarrow> bool" where
  "same_static t t' \<longleftrightarrow>
     ti_name t' = ti_name t \<and> ti_instance_size t' = ti_instance_size t \<and>
     ti_base_init t' = ti_base_init t \<and> ti_base_finalize t' = ti_base_finalize t \<and>
     ti_class_init t' = ti_class_init t \<and> ti_class_finalize t' = ti_class_finalize t \<and>
     ti_class_data t' = ti_class_data t \<and> ti_instance_init t' = ti_instance_init t \<and>
     ti_instance_finalize t' = ti_instance_finalize t \<and> ti_abstract t' = ti_abstract t \<and>
     ti_parent t' = ti_parent t \<and>
     map if_parent (ti_interfaces t') = map if_parent (ti_interfaces t) \<and>
     map if_interface_initfn (ti_interfaces t') = map if_interface_initfn (ti_interfaces t)"

definition types_grow :: "nat \<Rightarrow> addr set \<Rightarrow> qom \<Rightarrow> qom \<Rightarrow> bool" where
  "types_grow k U s s' \<longleftrightarrow>
     length (type_heap s) \<le> length (type_heap s') \<and>
     (\<forall>b < length (type_heap s).
        same_static (type_heap s ! b) (type_heap s' ! b) \<and>
        (b \<notin> U \<longrightarrow> ti_class (type_heap s ! b) \<noteq> None \<longrightarrow> type_heap s' ! b = type_heap s ! b)) \<and>
     length (class_heap s) \<le> length (class_heap s') \<and>
     (\<forall>c < length (class_heap s).
        oc_type (class_heap s' ! c) = oc_type (class_heap s ! c) \<and>
        length (oc_tail (class_heap s' ! c)) = length (oc_tail (class_heap s ! c)) \<and>
        (c < k \<longrightarrow> class_heap s' ! c = class_heap s ! c)) \<and>
     anon_count s \<le> anon_count s' \<and>
     (\<forall>nm. (\<forall>j. anon_count s \<le> j \<longrightarrow> nm \<noteq> anonymous_name j) \<longrightarrow> type_table s' nm = type_table s nm)"

definition class_events :: "nat \<Rightarrow> qom \<Rightarrow> qom \<Rightarrow> bool" where
  "class_events k s s' \<longleftrightarrow>
     (\<exists>evs. trace s' = trace s @ evs \<and> (\<forall>e \<in> set evs. \<exists>c. ev_class e = Some c \<and> k \<le> c))"

definition grows :: "nat \<Rightarrow> addr set \<Rightarrow> qom \<Rightarrow> qom \<Rightarrow> bool" where
  "grows k U s s' \<longleftrightarrow> types_grow k U s s' \<and> object_heap s' = object_heap s \<and> class_events k s s'"

definition anonymous_type :: "nat \<Rightarrow> InterfaceImpl \<Rightarrow> TypeImpl" where
  "anonymous_type k e =
     \<lparr>ti_name = anonymous_name k, ti_class_size = sizeof_InterfaceClass,
      ti_instance_size = sizeof_Interface, ti_base_init = None, ti_base_finalize = None,
      ti_class_init = if_interface_initfn e, ti_class_finalize = None, ti_class_data = 0,
      ti_instance_init = None, ti_instance_finalize = None, ti_abstract = False,
      ti_parent = Some (if_parent e), ti_class = None, ti_interfaces = []\<rparr>"

text \<open>
  The startup code registers its types one after the other; \<open>register_all\<close> does the same
  with a list of \<^verbatim>\<open>TypeInfo\<close>, and \<open>registered\<close> is the registry after it (the empty
  registry if a registration fails).
\<close>

definition register_all :: "qom \<Rightarrow> TypeInfo list \<Rightarrow> error + qom" where
  "register_all s infos =
     for_each (\<lambda>s' info. bind_err (type_register_static s' info) (\<lambda>(s'', a). Inr s'')) s infos"

definition registered :: "TypeInfo list \<Rightarrow> qom" where
  "registered infos = (case register_all qom_empty infos of Inl e \<Rightarrow> qom_empty | Inr s \<Rightarrow> s)"

text \<open>
  The chain of three types of the spec's scenario 4. Every hook is present; each class hook
  writes its own byte, so that the class objects show which hooks ran on them.
\<close>

definition Root_info :: TypeInfo where
  "Root_info =
     TypeInfo_zero\<lparr>info_name := Some ''Root'', info_class_size := 16, info_instance_size := 16,
       info_base_init := Some (\<lambda>bs. bs[0 := 1]), info_class_init := Some (\<lambda>d bs. bs[1 := 2]),
       info_instance_init := Some 1, info_instance_finalize := Some 2\<rparr>"

definition Mid_info :: TypeInfo where
  "Mid_info =
     TypeInfo_zero\<lparr>info_name := Some ''Mid'', info_parent := Some ''Root'',
       info_instance_size := 16,
       info_base_init := Some (\<lambda>bs. bs[2 := 3]), info_class_init := Some (\<lambda>d bs. bs[3 := 4]),
       info_instance_init := Some 3, info_instance_finalize := Some 4\<rparr>"

definition Leaf_info :: TypeInfo where
  "Leaf_info =
     TypeInfo_zero\<lparr>info_name := Some ''Leaf'', info_parent := Some ''Mid'',
       info_class_size := 24, info_instance_size := 16,
       info_base_init := Some (\<lambda>bs. bs[4 := 5]), info_class_init := Some (\<lambda>d bs. bs[5 := 6]),
       info_class_data := 77,
       info_instance_init := Some 5, info_instance_finalize := Some 6\<rparr>"

definition chain_state :: qom where
  "chain_state = registered [interface_info, Root_info, Mid_info, Leaf_info]"

definition new_then_delete :: "nat \<Rightarrow> qom \<Rightarrow> string \<Rightarrow> error + qom" where
  "new_then_delete n s tn =
     bind_err (object_new n s (Some tn)) (\<lambda>(s1, obj). object_delete n s1 obj)"

text \<open>Two registrations under one name.\<close>

definition dup_info :: TypeInfo where
  "dup_info = TypeInfo_zero\<lparr>info_name := Some ''dup'', info_instance_size := 16\<rparr>"

definition dup_info2 :: TypeInfo where
  "dup_info2 = TypeInfo_zero\<lparr>info_name := Some ''dup'', info_instance_size := 24\<rparr>"

text \<open>A type whose instances are as large as a class header, and no larger.\<close>

definition small_info :: TypeInfo where
  "small_info = TypeInfo_zero\<lparr>info_name := Some ''small'', info_instance_size := 8\<rparr>"

text \<open>
  The spec's scenario 3: an interface type \<^verbatim>\<open>iface_a\<close>, and a type \<^verbatim>\<open>impl\<close> that
  declares it.
\<close>

definition iface_a_info :: TypeInfo where
  "iface_a_info =
     TypeInfo_zero\<lparr>info_name := Some ''iface_a'', info_parent := Some TYPE_INTERFACE,
       info_abstract := True\<rparr>"

definition impl_info :: TypeInfo where
  "impl_info =
     TypeInfo_zero\<lparr>info_name := Some ''impl'', info_instance_size := 16,
       info_instance_init := Some 1,
       info_interfaces := Some [\<lparr>ii_type = ''iface_a'', ii_interface_initfn = None\<rparr>]\<rparr>"

definition iface_state :: qom where
  "iface_state = registered [interface_info, iface_a_info, impl_info]"

text \<open>
  The parent chain of the glossary: the sequence of types obtained by following the parent
  names from a given type name to the root.
\<close>

fun parent_chain :: "nat \<Rightarrow> qom \<Rightarrow> string option \<Rightarrow> error + TypeImpl list" where
  "parent_chain 0 s typename = Inl Out_of_fuel"
| "parent_chain (Suc n) s typename =
     (case typename of
        None \<Rightarrow> Inr []
      | Some tn \<Rightarrow>
          bind_err (deref_type s (type_get_by_name s typename)) (\<lambda>ti.
          bind_err (parent_chain n s (ti_parent ti)) (\<lambda>ts. Inr (ti # ts))))"

definition base_init_event :: "TypeImpl \<Rightarrow> addr \<Rightarrow> event list" where
  "base_init_event ti c =
     (case ti_base_init ti of None \<Rightarrow> [] | Some f \<Rightarrow> [Ev_base_init (ti_name ti) c])"

definition class_init_event :: "TypeImpl \<Rightarrow> addr \<Rightarrow> event list" where
  "class_init_event ti c =
     (case ti_class_init ti of None \<Rightarrow> []
      | Some f \<Rightarrow> [Ev_class_init (ti_name ti) c (ti_class_data ti)])"





text \<open>
  What a call of the instance lifecycle on the object \<open>obj\<close> keeps, from the state \<open>s\<close> to
  the state \<open>s'\<close>. \<open>others_kept\<close>: the heap of instances has only grown, and every object
  of \<open>s\<close> but \<open>obj\<close> is as it was. \<open>installed\<close>: the objects of the list \<open>new\<close> are distinct,
  were allocated after \<open>s\<close>, and have the back-pointer \<open>obj\<close> in \<open>s'\<close>. \<open>types_kept\<close>: the
  registry has only grown, with every descriptor that had its class and every class
  object of \<open>s\<close> as it was.
\<close>

definition others_kept :: "addr \<Rightarrow> qom \<Rightarrow> qom \<Rightarrow> bool" where
  "others_kept obj s s' \<longleftrightarrow>
     length (object_heap s) \<le> length (object_heap s') \<and>
     (\<forall>x < length (object_heap s). x \<noteq> obj \<longrightarrow> object_heap s' ! x = object_heap s ! x)"

definition installed :: "addr \<Rightarrow> qom \<Rightarrow> qom \<Rightarrow> addr list \<Rightarrow> bool" where
  "installed obj s s' new \<longleftrightarrow>
     distinct new \<and>
     (\<forall>x \<in> set new. length (object_heap s) \<le> x \<and> x < length (object_heap s') \<and>
        (\<exists>X. object_heap s' ! x = Some X \<and> ob_obj X = Some obj))"

definition types_kept :: "qom \<Rightarrow> qom \<Rightarrow> bool" where
  "types_kept s s' \<longleftrightarrow> types_grow (length (class_heap s)) {} s s'"

text \<open>What the four functions of the instance lifecycle keep, for a given fuel.\<close>

definition interface_init_ok :: "nat \<Rightarrow> bool" where
  "interface_init_ok n \<longleftrightarrow>
     (\<forall>s obj a i s'. object_interface_init n s obj a i = Inr s' \<and> obj < length (object_heap s) \<longrightarrow>
        others_kept obj s s' \<and> types_kept s s' \<and>
        (\<exists>ob X name t c. object_heap s ! obj = Some ob \<and>
           object_heap s' ! obj = Some (ob\<lparr>ob_interfaces := length (object_heap s) # ob_interfaces ob\<rparr>) \<and>
           length (object_heap s) < length (object_heap s') \<and>
           object_heap s' ! length (object_heap s) = Some X \<and> ob_obj X = Some obj \<and>
           interface_type_name s a i = Inr name \<and> type_get_by_name s (Some name) = Some t \<and>
           t < length (type_heap s) \<and>
           ob_class X = Some c \<and> ti_class (type_heap s' ! t) = Some c))"

definition init_ok :: "nat \<Rightarrow> bool" where
  "init_ok n \<longleftrightarrow>
     (\<forall>s obj tn s' ob. object_init n s obj tn = Inr s' \<and>
          obj < length (object_heap s) \<and> object_heap s ! obj = Some ob \<longrightarrow>
        others_kept obj s s' \<and> types_kept s s' \<and>
        (\<exists>new. object_heap s' ! obj = Some (ob\<lparr>ob_interfaces := new @ ob_interfaces ob\<rparr>) \<and>
               installed obj s s' new))"

definition initialize_ok :: "nat \<Rightarrow> bool" where
  "initialize_ok n \<longleftrightarrow>
     (\<forall>s obj tn s'. object_initialize n s obj tn = Inr s' \<longrightarrow>
        others_kept obj s s' \<and> types_kept s s' \<and>
        (\<exists>ob ob' t c new. obj < length (object_heap s) \<and> object_heap s ! obj = Some ob \<and>
           object_heap s' ! obj = Some ob' \<and> ob_size ob' = ob_size ob \<and>
           type_get_by_name s tn = Some t \<and> t < length (type_heap s) \<and>
           ti_instance_size (type_heap s ! t) \<le> ob_size ob \<and>
           ob_class ob' = Some c \<and> ti_class (type_heap s' ! t) = Some c \<and>
           ob_interfaces ob' =
             new @ (if sizeof_Object \<le> ti_instance_size (type_heap s ! t) then []
                    else ob_interfaces ob) \<and>
           installed obj s s' new))"

definition new_ok :: "nat \<Rightarrow> bool" where
  "new_ok n \<longleftrightarrow>
     (\<forall>s tn s' x. object_new n s tn = Inr (s', x) \<longrightarrow>
        x = length (object_heap s) \<and> others_kept x s s' \<and> types_kept s s' \<and>
        (\<exists>X t c. x < length (object_heap s') \<and> object_heap s' ! x = Some X \<and>
           type_get_by_name s tn = Some t \<and> t < length (type_heap s) \<and>
           ob_size X = ti_instance_size (type_heap s ! t) \<and>
           ob_class X = Some c \<and> ti_class (type_heap s' ! t) = Some c \<and>
           distinct (ob_interfaces X) \<and>
           (\<forall>y \<in> set (ob_interfaces X). x < y \<and> y < length (object_heap s') \<and>
              (\<exists>Y. object_heap s' ! y = Some Y \<and> ob_obj Y = Some x))))"





text \<open>
  \<open>hooks_kept s s'\<close>: from \<open>s\<close> to \<open>s'\<close> the class heap has only grown, calls of hooks
  were only added to the trace, and every class hook among them ran on a class object
  that \<open>s\<close> did not have.
\<close>

definition hooks_kept :: "qom \<Rightarrow> qom \<Rightarrow> bool" where
  "hooks_kept s s' \<longleftrightarrow>
     length (class_heap s) \<le> length (class_heap s') \<and>
     (\<exists>evs. trace s' = trace s @ evs \<and>
        (\<forall>e \<in> set evs. \<forall>c. ev_class e = Some c \<longrightarrow> length (class_heap s) \<le> c))"

definition interface_init_hooks :: "nat \<Rightarrow> bool" where
  "interface_init_hooks n \<longleftrightarrow>
     (\<forall>s obj a i s'. object_interface_init n s obj a i = Inr s' \<longrightarrow> hooks_kept s s')"

definition init_hooks :: "nat \<Rightarrow> bool" where
  "init_hooks n \<longleftrightarrow> (\<forall>s obj tn s'. object_init n s obj tn = Inr s' \<longrightarrow> hooks_kept s s')"

definition initialize_hooks :: "nat \<Rightarrow> bool" where
  "initialize_hooks n \<longleftrightarrow>
     (\<forall>s obj tn s'. object_initialize n s obj tn = Inr s' \<longrightarrow> hooks_kept s s')"

definition new_hooks :: "nat \<Rightarrow> bool" where
  "new_hooks n \<longleftrightarrow> (\<forall>s tn s' x. object_new n s tn = Inr (s', x) \<longrightarrow> hooks_kept s s')"
text \<open>
  The chain Root, Mid, Leaf again, with a Leaf that declares the interface
  \<^verbatim>\<open>iface_a\<close>.
\<close>

definition Leaf_iface_info :: TypeInfo where
  "Leaf_iface_info =
     Leaf_info\<lparr>info_interfaces := Some [\<lparr>ii_type = ''iface_a'', ii_interface_initfn = None\<rparr>]\<rparr>"

definition chain_iface_state :: qom where
  "chain_iface_state =
     registered [interface_info, iface_a_info, Root_info, Mid_info, Leaf_iface_info]"



text \<open>
  The operations that force the class build of a type: \<^verbatim>\<open>type_class_init\<close> itself,
  \<^verbatim>\<open>object_initialize\<close>, which calls it, and \<^verbatim>\<open>object_new\<close>, which calls
  \<^verbatim>\<open>object_initialize\<close>. The result of \<open>force\<close> is the new state and the instance that
  the operation has initialised, if any; \<open>forced_type\<close> is the descriptor whose class the
  operation asks for; \<open>force_all\<close> runs operations one after the other, each with its fuel.
\<close>

datatype forcing = Class_build "addr option" | Initialize addr "string option" | New "string option"

fun force :: "nat \<Rightarrow> qom \<Rightarrow> forcing \<Rightarrow> error + (qom \<times> addr option)" where
  "force n s (Class_build p) = bind_err (type_class_init n s p) (\<lambda>s'. Inr (s', None))"
| "force n s (Initialize obj typename) =
     bind_err (object_initialize n s obj typename) (\<lambda>s'. Inr (s', Some obj))"
| "force n s (New typename) =
     bind_err (object_new n s typename) (\<lambda>(s', obj). Inr (s', Some obj))"

fun forced_type :: "qom \<Rightarrow> forcing \<Rightarrow> addr option" where
  "forced_type s (Class_build p) = p"
| "forced_type s (Initialize obj typename) = type_get_by_name s typename"
| "forced_type s (New typename) = type_get_by_name s typename"

definition force_all :: "qom \<Rightarrow> (nat \<times> forcing) list \<Rightarrow> error + qom" where
  "force_all s gs =
     for_each (\<lambda>s' (m, g). bind_err (force m s' g) (\<lambda>(s'', x). Inr s'')) s gs"

text \<open>The calls of the \<^verbatim>\<open>base_init\<close> of the type of a given name, and the calls of a
  \<^verbatim>\<open>class_init\<close> on a given class object.\<close>

fun base_init_of :: "string \<Rightarrow> event \<Rightarrow> bool" where
  "base_init_of nm (Ev_base_init nm' c) = (nm' = nm)"
| "base_init_of nm (Ev_class_init nm' c d) = False"
| "base_init_of nm (Ev_instance_init nm' obj) = False"
| "base_init_of nm (Ev_instance_finalize nm' obj) = False"

fun class_init_on :: "addr \<Rightarrow> event \<Rightarrow> bool" where
  "class_init_on c (Ev_base_init nm c') = False"
| "class_init_on c (Ev_class_init nm c' d) = (c' = c)"
| "class_init_on c (Ev_instance_init nm obj) = False"
| "class_init_on c (Ev_instance_finalize nm obj) = False"

section \<open>Properties of the operations\<close>

lemma bind_err_simps [simp]:
  "bind_err (Inl e) f = Inl e"
  "bind_err (Inr x) f = f x"
  by (simp_all add: bind_err_def)

lemma bind_err_Inr_iff: "bind_err m f = Inr y \<longleftrightarrow> (\<exists>x. m = Inr x \<and> f x = Inr y)"
  by (cases m) simp_all

lemma copy_interfaces_eq:
  "copy_interfaces acc l =
     (if l = [] \<or> length acc + length l \<le> MAX_INTERFACES then Inr (acc @ map impl_of_info l)
      else Inl Out_of_bounds)"
  by (induction l arbitrary: acc) (auto simp: impl_of_info_def)

lemma type_register_static_Assert:
  "type_register_static s info = Inl Assert_failed \<longleftrightarrow> info_name info = None"
  by (auto simp: type_register_static_def copy_interfaces_eq g_malloc0_type_def Let_def
      split: option.splits sum.splits if_splits)

lemma same_static_refl [simp]: "same_static t t"
  by (simp add: same_static_def)

lemma same_static_trans: "same_static t t' \<Longrightarrow> same_static t' t'' \<Longrightarrow> same_static t t''"
  by (simp add: same_static_def)

lemma types_grow_refl [simp]: "types_grow k U s s"
  by (simp add: types_grow_def)

lemma class_events_refl [simp]: "class_events k s s"
  by (simp add: class_events_def)

lemma grows_refl [simp]: "grows k U s s"
  by (simp add: grows_def)

lemma class_events_trans:
  assumes "class_events k s s1" and "class_events k s1 s2"
  shows "class_events k s s2"
proof -
  from assms obtain e1 e2 where
    e1: "trace s1 = trace s @ e1" "\<forall>e \<in> set e1. \<exists>c. ev_class e = Some c \<and> k \<le> c" and
    e2: "trace s2 = trace s1 @ e2" "\<forall>e \<in> set e2. \<exists>c. ev_class e = Some c \<and> k \<le> c"
    unfolding class_events_def by blast
  show ?thesis
    unfolding class_events_def using e1 e2 by (intro exI [of _ "e1 @ e2"]) auto
qed

lemma types_grow_trans:
  assumes "types_grow k U s s1" and "types_grow k U s1 s2"
  shows "types_grow k U s s2"
proof -
  have ty: "\<forall>b < length (type_heap s).
        same_static (type_heap s ! b) (type_heap s2 ! b) \<and>
        (b \<notin> U \<longrightarrow> ti_class (type_heap s ! b) \<noteq> None \<longrightarrow> type_heap s2 ! b = type_heap s ! b)"
  proof (intro allI impI)
    fix b assume b: "b < length (type_heap s)"
    with assms have 1: "same_static (type_heap s ! b) (type_heap s1 ! b)"
      and 2: "b \<notin> U \<longrightarrow> ti_class (type_heap s ! b) \<noteq> None \<longrightarrow> type_heap s1 ! b = type_heap s ! b"
      and b1: "b < length (type_heap s1)"
      unfolding types_grow_def by auto
    from assms b1 have 3: "same_static (type_heap s1 ! b) (type_heap s2 ! b)"
      and 4: "b \<notin> U \<longrightarrow> ti_class (type_heap s1 ! b) \<noteq> None \<longrightarrow> type_heap s2 ! b = type_heap s1 ! b"
      unfolding types_grow_def by auto
    show "same_static (type_heap s ! b) (type_heap s2 ! b) \<and>
        (b \<notin> U \<longrightarrow> ti_class (type_heap s ! b) \<noteq> None \<longrightarrow> type_heap s2 ! b = type_heap s ! b)"
      using 1 2 3 4 by (auto intro: same_static_trans)
  qed
  have cl: "\<forall>c < length (class_heap s).
        oc_type (class_heap s2 ! c) = oc_type (class_heap s ! c) \<and>
        length (oc_tail (class_heap s2 ! c)) = length (oc_tail (class_heap s ! c)) \<and>
        (c < k \<longrightarrow> class_heap s2 ! c = class_heap s ! c)"
  proof (intro allI impI)
    fix c assume c: "c < length (class_heap s)"
    with assms have c1: "c < length (class_heap s1)" unfolding types_grow_def by auto
    show "oc_type (class_heap s2 ! c) = oc_type (class_heap s ! c) \<and>
        length (oc_tail (class_heap s2 ! c)) = length (oc_tail (class_heap s ! c)) \<and>
        (c < k \<longrightarrow> class_heap s2 ! c = class_heap s ! c)"
      using assms c c1 unfolding types_grow_def by auto
  qed
  have tb: "\<forall>nm. (\<forall>j. anon_count s \<le> j \<longrightarrow> nm \<noteq> anonymous_name j) \<longrightarrow> type_table s2 nm = type_table s nm"
  proof (intro allI impI)
    fix nm assume nm: "\<forall>j. anon_count s \<le> j \<longrightarrow> nm \<noteq> anonymous_name j"
    from assms have le: "anon_count s \<le> anon_count s1" unfolding types_grow_def by auto
    from nm le have nm1: "\<forall>j. anon_count s1 \<le> j \<longrightarrow> nm \<noteq> anonymous_name j" by auto
    from assms nm nm1 show "type_table s2 nm = type_table s nm" unfolding types_grow_def by auto
  qed
  show ?thesis
    unfolding types_grow_def
    using ty cl tb assms unfolding types_grow_def by auto
qed

lemma grows_trans:
  assumes "grows k U s s1" and "grows k U s1 s2"
  shows "grows k U s s2"
  using assms unfolding grows_def
  by (auto intro: types_grow_trans class_events_trans)

lemma types_grow_mono: "types_grow k' U' s s' \<Longrightarrow> k \<le> k' \<Longrightarrow> U' \<subseteq> U \<Longrightarrow> types_grow k U s s'"
  unfolding types_grow_def by (auto; force)

lemma class_events_mono: "class_events k' s s' \<Longrightarrow> k \<le> k' \<Longrightarrow> class_events k s s'"
  unfolding class_events_def by (auto; force)

lemma grows_mono: "grows k' U' s s' \<Longrightarrow> k \<le> k' \<Longrightarrow> U' \<subseteq> U \<Longrightarrow> grows k U s s'"
  unfolding grows_def by (auto intro: types_grow_mono class_events_mono)

lemma grows_unbuilt:
  "grows k (insert a U) s s' \<Longrightarrow> ti_class (type_heap s ! a) = None \<Longrightarrow> grows k U s s'"
  unfolding grows_def types_grow_def by auto

lemma deref_type_Inr_iff:
  "deref_type s p = Inr ti \<longleftrightarrow> (\<exists>a. p = Some a \<and> a < length (type_heap s) \<and> ti = type_heap s ! a)"
  by (auto simp: deref_type_def split: option.splits)

lemma deref_class_Inr_iff:
  "deref_class s p = Inr oc \<longleftrightarrow> (\<exists>c. p = Some c \<and> c < length (class_heap s) \<and> oc = class_heap s ! c)"
  by (auto simp: deref_class_def split: option.splits)

lemma deref_object_Inr_iff:
  "deref_object s p = Inr ob \<longleftrightarrow>
     (\<exists>a. p = Some a \<and> a < length (object_heap s) \<and> object_heap s ! a = Some ob)"
  by (auto simp: deref_object_def split: option.splits)

lemma update_class_tail_Inr_iff:
  "update_class_tail s p bs = Inr s' \<longleftrightarrow>
     (\<exists>c. p = Some c \<and> c < length (class_heap s) \<and>
          s' = s\<lparr>class_heap := (class_heap s)[c := (class_heap s ! c)\<lparr>oc_tail := bs\<rparr>]\<rparr>)"
  by (auto simp: update_class_tail_def split: option.splits)

lemma update_class_tail_grows:
  assumes "update_class_tail s p bs = Inr s'" and "p = Some c" and "k \<le> c"
    and "length bs = length (oc_tail (class_heap s ! c))"
  shows "grows k U s s'"
  using assms by (auto simp: update_class_tail_Inr_iff grows_def types_grow_def class_events_def nth_list_update)

lemma log_event_grows:
  "ev_class e = Some c \<Longrightarrow> k \<le> c \<Longrightarrow> grows k U s (log_event e s)"
  by (auto simp: grows_def types_grow_def class_events_def log_event_def)

lemma run_class_hook_grows:
  assumes "run_class_hook s p f = Inr s'" and "p = Some c" and "k \<le> c"
  shows "grows k U s s'"
  using assms
  by (auto simp: run_class_hook_def bind_err_Inr_iff deref_class_Inr_iff split: if_splits
      intro: update_class_tail_grows)

lemma grows_type_heap_class:
  "grows k U s s' \<Longrightarrow> a \<notin> U \<Longrightarrow> a < length (type_heap s) \<Longrightarrow> ti_class (type_heap s ! a) = Some c \<Longrightarrow>
     ti_class (type_heap s' ! a) = Some c"
  by (auto simp: grows_def types_grow_def class_events_def)

lemma type_class_base_init_grows:
  "type_class_base_init n s a tn = Inr s' \<Longrightarrow> a < length (type_heap s) \<Longrightarrow>
     ti_class (type_heap s ! a) = Some c \<Longrightarrow> k \<le> c \<Longrightarrow> grows k U s s'"
proof (induction n arbitrary: s tn s' U)
  case 0
  then show ?case by simp
next
  case (Suc n)
  show ?case
  proof (cases tn)
    case None
    with Suc.prems show ?thesis by simp
  next
    case (Some nm)
    from Suc.prems(1) Some obtain ti s1 where
      ti: "deref_type s (type_get_by_name s tn) = Inr ti" and
      rec: "type_class_base_init n s a (ti_parent ti) = Inr s1" and
      rest: "(case ti_base_init ti of None \<Rightarrow> Inr s1
             | Some f \<Rightarrow>
                bind_err (deref_type s1 (Some a)) (\<lambda>bti.
                bind_err (run_class_hook s1 (ti_class bti) f) (\<lambda>s2.
                  case ti_class bti of
                    None \<Rightarrow> Inl Null_deref
                  | Some c \<Rightarrow> Inr (log_event (Ev_base_init (ti_name ti) c) s2)))) = Inr s'"
      by (auto simp: bind_err_Inr_iff)
    have g1: "\<And>U. grows k U s s1"
      using Suc.IH [OF rec Suc.prems(2,3,4)] .
    have c1: "ti_class (type_heap s1 ! a) = Some c" and a1: "a < length (type_heap s1)"
      using g1 [of "{}"] Suc.prems(2,3) by (auto simp: grows_def types_grow_def class_events_def)
    show ?thesis
    proof (cases "ti_base_init ti")
      case None
      with rest g1 show ?thesis by simp
    next
      case (Some f)
      with rest a1 c1 obtain s2 where
        h: "run_class_hook s1 (Some c) f = Inr s2" and
        s': "s' = log_event (Ev_base_init (ti_name ti) c) s2"
        by (auto simp: bind_err_Inr_iff deref_type_Inr_iff)
      have "grows k U s1 s2" using run_class_hook_grows [OF h refl Suc.prems(4)] .
      moreover have "grows k U s2 s'" unfolding s' by (rule log_event_grows [OF _ Suc.prems(4)]) simp
      ultimately show ?thesis using g1 by (blast intro: grows_trans)
    qed
  qed
qed

lemma class_alloc_Inr:
  assumes "class_alloc s a sz = Inr s'"
  shows "a < length (type_heap s) \<and> sizeof_ObjectClass \<le> sz \<and>
         s' = s\<lparr>type_heap := (type_heap s)[a := (type_heap s ! a)
                   \<lparr>ti_class_size := sz, ti_class := Some (length (class_heap s))\<rparr>],
                class_heap := class_heap s @
                   [\<lparr>oc_type = a, oc_tail = replicate (sz - sizeof_ObjectClass) 0\<rparr>]\<rparr>"
  using assms
  by (auto simp: class_alloc_def update_type_def g_malloc0_class_def bind_err_Inr_iff
      deref_type_Inr_iff split: if_splits)

lemma class_alloc_grows:
  assumes "class_alloc s a sz = Inr s'" and "a \<in> U"
    and "k \<le> length (class_heap s)"
  shows "grows k U s s'"
  using class_alloc_Inr [OF assms(1)] assms(2,3)
  by (auto simp: grows_def types_grow_def class_events_def nth_list_update nth_append same_static_def)

lemma class_inherit_grows:
  assumes "class_inherit s a pa = Inr (s', z)" and "ti_class (type_heap s ! a) = Some c" and "k \<le> c"
  shows "grows k U s s'"
  using assms
  by (auto simp: class_inherit_def bind_err_Inr_iff deref_type_Inr_iff deref_class_Inr_iff
      memcpy_tail_def split: if_splits intro!: update_class_tail_grows)

lemma class_clear_grows:
  assumes "class_clear s a z = Inr s'" and "ti_class (type_heap s ! a) = Some c" and "k \<le> c"
  shows "grows k U s s'"
  using assms
  by (auto simp: class_clear_def bind_err_Inr_iff deref_type_Inr_iff deref_class_Inr_iff
      memset_tail_def split: if_splits intro!: update_class_tail_grows)

lemma class_call_init_grows:
  assumes "class_call_init s a = Inr s'" and "ti_class (type_heap s ! a) = Some c" and "k \<le> c"
  shows "grows k U s s'"
  using assms
  by (auto simp: class_call_init_def bind_err_Inr_iff deref_type_Inr_iff
      split: if_splits option.splits
      intro!: grows_trans [OF run_class_hook_grows log_event_grows])

lemma map_update_same: "i < length xs \<Longrightarrow> (map f xs)[i := f (xs ! i)] = map f xs"
  by (simp add: list_update_same_conv)

lemma type_register_anonymous_interface:
  "type_register_anonymous s (interface_type_info e) =
     Inr (s\<lparr>anon_count := Suc (anon_count s),
            type_heap := type_heap s @ [anonymous_type (anon_count s) e],
            type_table := (type_table s)(anonymous_name (anon_count s) \<mapsto> length (type_heap s))\<rparr>,
          length (type_heap s))"
  by (simp add: type_register_anonymous_def interface_type_info_def TypeInfo_zero_def
      g_malloc0_type_def type_table_add_def anonymous_type_def Let_def)

lemma type_class_interface_init_Inr:
  assumes "type_class_interface_init s a i = Inr s'"
  shows "a < length (type_heap s) \<and> i < length (ti_interfaces (type_heap s ! a)) \<and>
         s' = s\<lparr>anon_count := Suc (anon_count s),
                type_heap := (type_heap s @
                   [anonymous_type (anon_count s) (ti_interfaces (type_heap s ! a) ! i)])
                   [a := (type_heap s ! a)\<lparr>ti_interfaces := (ti_interfaces (type_heap s ! a))
                      [i := (ti_interfaces (type_heap s ! a) ! i)
                         \<lparr>if_type := Some (length (type_heap s))\<rparr>]\<rparr>],
                type_table := (type_table s)(anonymous_name (anon_count s) \<mapsto> length (type_heap s))\<rparr>"
  using assms
  by (auto simp: type_class_interface_init_def bind_err_Inr_iff deref_type_Inr_iff
      type_register_anonymous_interface update_type_def num_interfaces_def nth_append
      split: if_splits)

lemma type_class_interface_init_grows:
  assumes "type_class_interface_init s a i = Inr s'" and "a \<in> U"
  shows "grows k U s s'"
proof -
  define X where "X = (type_heap s ! a)\<lparr>ti_interfaces := (ti_interfaces (type_heap s ! a))
                      [i := (ti_interfaces (type_heap s ! a) ! i)
                         \<lparr>if_type := Some (length (type_heap s))\<rparr>]\<rparr>"
  define T where "T = (type_heap s @
                   [anonymous_type (anon_count s) (ti_interfaces (type_heap s ! a) ! i)])[a := X]"
  note h = type_class_interface_init_Inr [OF assms(1)]
  have s': "s' = s\<lparr>anon_count := Suc (anon_count s), type_heap := T,
                type_table := (type_table s)(anonymous_name (anon_count s) \<mapsto> length (type_heap s))\<rparr>"
    using h by (simp add: T_def X_def)
  have st: "same_static (type_heap s ! a) X"
    using h by (simp add: same_static_def map_update map_update_same X_def)
  have len: "length T = Suc (length (type_heap s))"
    by (simp add: T_def)
  have Ta: "T ! a = X"
    using h by (simp add: T_def)
  have Tb: "\<And>b. b < length (type_heap s) \<Longrightarrow> b \<noteq> a \<Longrightarrow> T ! b = type_heap s ! b"
    by (simp add: T_def nth_append)
  have ty: "\<forall>b<length (type_heap s).
        same_static (type_heap s ! b) (T ! b) \<and>
        (b \<notin> U \<longrightarrow> ti_class (type_heap s ! b) \<noteq> None \<longrightarrow> T ! b = type_heap s ! b)"
  proof (intro allI impI)
    fix b assume "b < length (type_heap s)"
    then show "same_static (type_heap s ! b) (T ! b) \<and>
        (b \<notin> U \<longrightarrow> ti_class (type_heap s ! b) \<noteq> None \<longrightarrow> T ! b = type_heap s ! b)"
      using st Ta Tb [of b] assms(2) by (cases "b = a") auto
  qed
  show ?thesis
    unfolding grows_def types_grow_def class_events_def s' using ty len by simp
qed

lemma for_each_grows:
  assumes "\<And>s s' x. f s x = Inr s' \<Longrightarrow> grows k U s s'"
  shows "for_each f s xs = Inr s' \<Longrightarrow> grows k U s s'"
proof (induction xs arbitrary: s)
  case Nil
  then show ?case by simp
next
  case (Cons x xs)
  then show ?case
    by (auto split: sum.splits intro: grows_trans assms)
qed

lemma class_interfaces_grows:
  assumes "class_interfaces s a = Inr s'" and "a \<in> U"
  shows "grows k U s s'"
  using assms
  by (auto simp: class_interfaces_def bind_err_Inr_iff
      intro: for_each_grows [where f = "\<lambda>s' i. type_class_interface_init s' a i"]
             type_class_interface_init_grows)

lemma grows_built_same:
  "grows k {} s s' \<Longrightarrow> a < length (type_heap s) \<Longrightarrow> ti_class (type_heap s ! a) = Some c \<Longrightarrow>
     a < length (type_heap s') \<and> type_heap s' ! a = type_heap s ! a"
  by (auto simp: grows_def types_grow_def class_events_def)

lemma type_class_interface_init_class:
  assumes "type_class_interface_init s a i = Inr s'" and "b < length (type_heap s)"
  shows "b < length (type_heap s') \<and> ti_class (type_heap s' ! b) = ti_class (type_heap s ! b) \<and>
         ti_class_size (type_heap s' ! b) = ti_class_size (type_heap s ! b)"
  using type_class_interface_init_Inr [OF assms(1)] assms(2)
  by (auto simp: nth_list_update nth_append)

lemma for_each_interface_init_class:
  "for_each (\<lambda>s' i. type_class_interface_init s' a i) s xs = Inr s' \<Longrightarrow> b < length (type_heap s) \<Longrightarrow>
     b < length (type_heap s') \<and> ti_class (type_heap s' ! b) = ti_class (type_heap s ! b) \<and>
         ti_class_size (type_heap s' ! b) = ti_class_size (type_heap s ! b)"
proof (induction xs arbitrary: s)
  case Nil
  then show ?case by simp
next
  case (Cons x xs)
  from Cons.prems(1) obtain s1 where 1: "type_class_interface_init s a x = Inr s1"
    and 2: "for_each (\<lambda>s' i. type_class_interface_init s' a i) s1 xs = Inr s'"
    by (auto split: sum.splits)
  from type_class_interface_init_class [OF 1 Cons.prems(2)] Cons.IH [OF 2] show ?case by simp
qed

lemma class_interfaces_class:
  assumes "class_interfaces s a = Inr s'" and "b < length (type_heap s)"
  shows "b < length (type_heap s') \<and> ti_class (type_heap s' ! b) = ti_class (type_heap s ! b) \<and>
         ti_class_size (type_heap s' ! b) = ti_class_size (type_heap s ! b)"
  using assms for_each_interface_init_class [of a s _ s' b]
  by (auto simp: class_interfaces_def bind_err_Inr_iff)

lemma type_class_init_grows_built:
  "type_class_init n s p = Inr s' \<Longrightarrow>
     grows (length (class_heap s)) U s s' \<and>
     (\<exists>a c. p = Some a \<and> a < length (type_heap s') \<and> ti_class (type_heap s' ! a) = Some c)"
proof (induction n arbitrary: s p s' U)
  case 0
  then show ?case by simp
next
  case (Suc n)
  from Suc.prems obtain a where p: "p = Some a"
    by (cases p) auto
  from Suc.prems p obtain ti where ti: "deref_type s (Some a) = Inr ti"
    by (auto simp: bind_err_Inr_iff)
  then have a: "a < length (type_heap s)" and ti_eq: "ti = type_heap s ! a"
    by (auto simp: deref_type_Inr_iff)
  show ?case
  proof (cases "ti_class ti")
    case (Some c)
    with Suc.prems p ti a ti_eq show ?thesis by simp
  next
    case None
    let ?k = "length (class_heap s)"
    let ?U = "insert a U"
    from Suc.prems p ti None obtain sz s1 s3 z s4 s5 s6 where
      sz: "type_class_get_size n s (Some a) = Inr sz" and
      s1: "class_alloc s a sz = Inr s1" and
      s3: "(if ti_parent ti \<noteq> None
            then bind_err (type_class_init n s1 (type_get_by_name s1 (ti_parent ti)))
                   (\<lambda>s2. class_inherit s2 a (type_get_by_name s1 (ti_parent ti)))
            else Inr (s1, sizeof_ObjectClass)) = Inr (s3, z)" and
      s4: "class_clear s3 a z = Inr s4" and
      s5: "type_class_base_init n s4 a (ti_parent ti) = Inr s5" and
      s6: "class_interfaces s5 a = Inr s6" and
      s': "class_call_init s6 a = Inr s'"
      by (auto simp: bind_err_Inr_iff)
    have g1: "grows ?k ?U s s1"
      by (rule class_alloc_grows [OF s1]) simp_all
    have c1: "a < length (type_heap s1)" "ti_class (type_heap s1 ! a) = Some ?k"
      "length (class_heap s1) = Suc ?k"
      using class_alloc_Inr [OF s1] by auto
    have g3: "grows ?k ?U s1 s3 \<and> a < length (type_heap s3) \<and> ti_class (type_heap s3 ! a) = Some ?k"
    proof (cases "ti_parent ti")
      case None
      with s3 c1 show ?thesis by simp
    next
      case (Some pn)
      with s3 obtain s2 where
        s2: "type_class_init n s1 (type_get_by_name s1 (ti_parent ti)) = Inr s2" and
        inh: "class_inherit s2 a (type_get_by_name s1 (ti_parent ti)) = Inr (s3, z)"
        by (auto simp: bind_err_Inr_iff)
      have g2: "grows (Suc ?k) {} s1 s2"
        using Suc.IH [OF s2, of "{}"] c1 by simp
      have c2: "a < length (type_heap s2)" "ti_class (type_heap s2 ! a) = Some ?k"
        using grows_built_same [OF g2 c1(1,2)] c1 by auto
      have g23: "grows ?k {} s2 s3"
        by (rule class_inherit_grows [OF inh c2(2)]) simp
      have "grows ?k ?U s1 s2" using grows_mono [OF g2, of ?k ?U] by simp
      moreover have "grows ?k ?U s2 s3" using grows_mono [OF g23, of ?k ?U] by simp
      ultimately have "grows ?k ?U s1 s3" by (rule grows_trans)
      then show ?thesis
        using grows_built_same [OF g23 c2] c2 by simp
    qed
    then have c3: "a < length (type_heap s3)" "ti_class (type_heap s3 ! a) = Some ?k" by auto
    have g4: "grows ?k {} s3 s4"
      by (rule class_clear_grows [OF s4 c3(2)]) simp
    have c4: "a < length (type_heap s4)" "ti_class (type_heap s4 ! a) = Some ?k"
      using grows_built_same [OF g4 c3] c3 by auto
    have g5: "grows ?k {} s4 s5"
      by (rule type_class_base_init_grows [OF s5 c4]) simp
    have c5: "a < length (type_heap s5)" "ti_class (type_heap s5 ! a) = Some ?k"
      using grows_built_same [OF g5 c4] c4 by auto
    have g6: "grows ?k ?U s5 s6"
      by (rule class_interfaces_grows [OF s6]) simp
    have c6: "a < length (type_heap s6)" "ti_class (type_heap s6 ! a) = Some ?k"
      using class_interfaces_class [OF s6 c5(1)] c5 by auto
    have g7: "grows ?k {} s6 s'"
      by (rule class_call_init_grows [OF s' c6(2)]) simp
    have g13: "grows ?k ?U s s3"
      using g1 g3 by (blast intro: grows_trans)
    have g34: "grows ?k ?U s3 s4" using grows_mono [OF g4, of ?k ?U] by simp
    have g45: "grows ?k ?U s4 s5" using grows_mono [OF g5, of ?k ?U] by simp
    have g67: "grows ?k ?U s6 s'" using grows_mono [OF g7, of ?k ?U] by simp
    have "grows ?k ?U s s'"
      by (rule grows_trans [OF grows_trans [OF grows_trans [OF grows_trans [OF g13 g34] g45] g6] g67])
    then have "grows ?k U s s'"
      using None ti_eq by (auto intro: grows_unbuilt)
    moreover have "a < length (type_heap s') \<and> ti_class (type_heap s' ! a) = Some ?k"
      using grows_built_same [OF g7 c6] c6 by simp
    ultimately show ?thesis using p by simp
  qed
qed

lemma type_class_init_grows:
  "type_class_init n s p = Inr s' \<Longrightarrow> grows (length (class_heap s)) U s s'"
  using type_class_init_grows_built by blast

lemma type_class_init_built:
  "type_class_init n s p = Inr s' \<Longrightarrow>
     \<exists>a c. p = Some a \<and> a < length (type_heap s') \<and> ti_class (type_heap s' ! a) = Some c"
  using type_class_init_grows_built [of n s p s' "{}"] by blast

lemma for_each_append:
  "for_each f s (xs @ ys) = bind_err (for_each f s xs) (\<lambda>s'. for_each f s' ys)"
  by (induction xs arbitrary: s) (auto split: sum.splits)

lemma type_class_interface_init_eq:
  assumes "a < length (type_heap s)" and "i < length (ti_interfaces (type_heap s ! a))"
  shows "type_class_interface_init s a i =
     Inr (s\<lparr>anon_count := Suc (anon_count s),
            type_heap := (type_heap s @
                   [anonymous_type (anon_count s) (ti_interfaces (type_heap s ! a) ! i)])
                   [a := (type_heap s ! a)\<lparr>ti_interfaces := (ti_interfaces (type_heap s ! a))
                      [i := (ti_interfaces (type_heap s ! a) ! i)
                         \<lparr>if_type := Some (length (type_heap s))\<rparr>]\<rparr>],
            type_table := (type_table s)(anonymous_name (anon_count s) \<mapsto> length (type_heap s))\<rparr>)"
  using assms
  by (simp add: type_class_interface_init_def deref_type_def
      type_register_anonymous_interface update_type_def num_interfaces_def nth_append)

text \<open>The state of the loop of lines 250 to 252 after \<open>j\<close> rounds.\<close>

lemma class_interfaces_loop:
  assumes "a < length (type_heap s)" and "j \<le> length (ti_interfaces (type_heap s ! a))"
  shows "\<exists>s'. for_each (\<lambda>s' i. type_class_interface_init s' a i) s [0..<j] = Inr s' \<and>
           length (type_heap s') = length (type_heap s) + j \<and>
           anon_count s' = anon_count s + j \<and>
           class_heap s' = class_heap s \<and> object_heap s' = object_heap s \<and> trace s' = trace s \<and>
           (\<forall>b < length (type_heap s). b \<noteq> a \<longrightarrow> type_heap s' ! b = type_heap s ! b) \<and>
           (\<forall>i < j. type_heap s' ! (length (type_heap s) + i) =
                      anonymous_type (anon_count s + i) (ti_interfaces (type_heap s ! a) ! i)) \<and>
           (\<exists>ifs. type_heap s' ! a = (type_heap s ! a)\<lparr>ti_interfaces := ifs\<rparr> \<and>
                  length ifs = length (ti_interfaces (type_heap s ! a)) \<and>
                  (\<forall>i < length ifs. ifs ! i =
                     (if i < j
                      then (ti_interfaces (type_heap s ! a) ! i)\<lparr>if_type := Some (length (type_heap s) + i)\<rparr>
                      else ti_interfaces (type_heap s ! a) ! i)))"
  using assms(2)
proof (induction j)
  case 0
  show ?case
    by (simp add: exI [of _ "ti_interfaces (type_heap s ! a)"])
next
  case (Suc j)
  then obtain s1 ifs where
    l: "for_each (\<lambda>s' i. type_class_interface_init s' a i) s [0..<j] = Inr s1" and
    len: "length (type_heap s1) = length (type_heap s) + j" and
    cnt: "anon_count s1 = anon_count s + j" and
    same: "class_heap s1 = class_heap s" "object_heap s1 = object_heap s" "trace s1 = trace s" and
    oth: "\<forall>b < length (type_heap s). b \<noteq> a \<longrightarrow> type_heap s1 ! b = type_heap s ! b" and
    new: "\<forall>i < j. type_heap s1 ! (length (type_heap s) + i) =
                      anonymous_type (anon_count s + i) (ti_interfaces (type_heap s ! a) ! i)" and
    ta: "type_heap s1 ! a = (type_heap s ! a)\<lparr>ti_interfaces := ifs\<rparr>" and
    li: "length ifs = length (ti_interfaces (type_heap s ! a))" and
    ifs: "\<forall>i < length ifs. ifs ! i =
                     (if i < j
                      then (ti_interfaces (type_heap s ! a) ! i)\<lparr>if_type := Some (length (type_heap s) + i)\<rparr>
                      else ti_interfaces (type_heap s ! a) ! i)"
    by auto
  have a1: "a < length (type_heap s1)" using assms(1) len by simp
  have j1: "j < length (ti_interfaces (type_heap s1 ! a))" using Suc.prems ta li by simp
  define s2 where "s2 = s1\<lparr>anon_count := Suc (anon_count s1),
            type_heap := (type_heap s1 @
                   [anonymous_type (anon_count s1) (ti_interfaces (type_heap s1 ! a) ! j)])
                   [a := (type_heap s1 ! a)\<lparr>ti_interfaces := (ti_interfaces (type_heap s1 ! a))
                      [j := (ti_interfaces (type_heap s1 ! a) ! j)
                         \<lparr>if_type := Some (length (type_heap s1))\<rparr>]\<rparr>],
            type_table := (type_table s1)(anonymous_name (anon_count s1) \<mapsto> length (type_heap s1))\<rparr>"
  have step: "type_class_interface_init s1 a j = Inr s2"
    unfolding s2_def by (rule type_class_interface_init_eq [OF a1 j1])
  have run: "for_each (\<lambda>s' i. type_class_interface_init s' a i) s [0..<Suc j] = Inr s2"
    by (simp add: for_each_append l step)
  have ej: "ti_interfaces (type_heap s1 ! a) ! j = ti_interfaces (type_heap s ! a) ! j"
    using ta ifs li Suc.prems by simp
  let ?ifs = "ifs[j := (ti_interfaces (type_heap s ! a) ! j)\<lparr>if_type := Some (length (type_heap s) + j)\<rparr>]"
  have "length (type_heap s2) = length (type_heap s) + Suc j"
    by (simp add: s2_def len)
  moreover have "anon_count s2 = anon_count s + Suc j"
    by (simp add: s2_def cnt)
  moreover have "class_heap s2 = class_heap s \<and> object_heap s2 = object_heap s \<and> trace s2 = trace s"
    by (simp add: s2_def same)
  moreover have "\<forall>b < length (type_heap s). b \<noteq> a \<longrightarrow> type_heap s2 ! b = type_heap s ! b"
    using oth len by (simp add: s2_def nth_append)
  moreover have "\<forall>i < Suc j. type_heap s2 ! (length (type_heap s) + i) =
                      anonymous_type (anon_count s + i) (ti_interfaces (type_heap s ! a) ! i)"
    using new len assms(1) cnt ej by (auto simp: s2_def nth_append nth_list_update less_Suc_eq)
  moreover have "type_heap s2 ! a = (type_heap s ! a)\<lparr>ti_interfaces := ?ifs\<rparr>"
    using a1 ta ej len by (simp add: s2_def)
  moreover have "length ?ifs = length (ti_interfaces (type_heap s ! a))"
    using li by simp
  moreover have "\<forall>i < length ?ifs. ?ifs ! i =
                     (if i < Suc j
                      then (ti_interfaces (type_heap s ! a) ! i)\<lparr>if_type := Some (length (type_heap s) + i)\<rparr>
                      else ti_interfaces (type_heap s ! a) ! i)"
    using ifs by (auto simp: nth_list_update less_Suc_eq)
  ultimately show ?case
    using run by blast
qed

lemma base_init_event_static:
  "same_static t t' \<Longrightarrow> base_init_event t' c = base_init_event t c"
  by (auto simp: same_static_def base_init_event_def split: option.splits)

lemma class_init_event_static:
  "same_static t t' \<Longrightarrow> class_init_event t' c = class_init_event t c"
  by (auto simp: same_static_def class_init_event_def split: option.splits)

lemma run_class_hook_frame:
  assumes "run_class_hook s p f = Inr s'"
  shows "type_heap s' = type_heap s \<and> type_table s' = type_table s \<and> trace s' = trace s \<and>
         anon_count s' = anon_count s \<and> object_heap s' = object_heap s \<and>
         length (class_heap s') = length (class_heap s)"
  using assms
  by (auto simp: run_class_hook_def bind_err_Inr_iff update_class_tail_Inr_iff split: if_splits)

lemma class_inherit_frame:
  assumes "class_inherit s a pa = Inr (s', z)"
  shows "type_heap s' = type_heap s \<and> type_table s' = type_table s \<and> trace s' = trace s \<and>
         anon_count s' = anon_count s \<and> object_heap s' = object_heap s \<and>
         length (class_heap s') = length (class_heap s)"
  using assms
  by (auto simp: class_inherit_def bind_err_Inr_iff update_class_tail_Inr_iff split: if_splits)

lemma class_clear_frame:
  assumes "class_clear s a z = Inr s'"
  shows "type_heap s' = type_heap s \<and> type_table s' = type_table s \<and> trace s' = trace s \<and>
         anon_count s' = anon_count s \<and> object_heap s' = object_heap s \<and>
         length (class_heap s') = length (class_heap s)"
  using assms
  by (auto simp: class_clear_def bind_err_Inr_iff update_class_tail_Inr_iff split: if_splits)

lemma class_call_init_trace:
  assumes "class_call_init s a = Inr s'" and "ti_class (type_heap s ! a) = Some c"
  shows "trace s' = trace s @ class_init_event (type_heap s ! a) c \<and>
         type_heap s' = type_heap s \<and> type_table s' = type_table s \<and>
         anon_count s' = anon_count s \<and> object_heap s' = object_heap s"
  using assms run_class_hook_frame
  by (auto simp: class_call_init_def bind_err_Inr_iff deref_type_Inr_iff class_init_event_def
      log_event_def split: option.splits; blast)

lemma type_class_base_init_trace:
  "type_class_base_init n s a tn = Inr s' \<Longrightarrow> a < length (type_heap s) \<Longrightarrow>
     ti_class (type_heap s ! a) = Some c \<Longrightarrow>
     \<exists>ts. parent_chain n s tn = Inr ts \<and>
          trace s' = trace s @ concat (map (\<lambda>t. base_init_event t c) (rev ts)) \<and>
          type_heap s' = type_heap s \<and> type_table s' = type_table s \<and>
          anon_count s' = anon_count s \<and> object_heap s' = object_heap s"
proof (induction n arbitrary: s tn s')
  case 0
  then show ?case by simp
next
  case (Suc n)
  show ?case
  proof (cases tn)
    case None
    with Suc.prems show ?thesis by simp
  next
    case (Some nm)
    from Suc.prems(1) Some obtain ti s1 where
      ti: "deref_type s (type_get_by_name s tn) = Inr ti" and
      rec: "type_class_base_init n s a (ti_parent ti) = Inr s1" and
      rest: "(case ti_base_init ti of None \<Rightarrow> Inr s1
             | Some f \<Rightarrow>
                bind_err (deref_type s1 (Some a)) (\<lambda>bti.
                bind_err (run_class_hook s1 (ti_class bti) f) (\<lambda>s2.
                  case ti_class bti of
                    None \<Rightarrow> Inl Null_deref
                  | Some c \<Rightarrow> Inr (log_event (Ev_base_init (ti_name ti) c) s2)))) = Inr s'"
      by (auto simp: bind_err_Inr_iff)
    from Suc.IH [OF rec Suc.prems(2,3)] obtain ts where
      ts: "parent_chain n s (ti_parent ti) = Inr ts" and
      tr: "trace s1 = trace s @ concat (map (\<lambda>t. base_init_event t c) (rev ts))" and
      fr: "type_heap s1 = type_heap s" "type_table s1 = type_table s"
          "anon_count s1 = anon_count s" "object_heap s1 = object_heap s"
      by blast
    have pc: "parent_chain (Suc n) s tn = Inr (ti # ts)"
      using Some ti ts by simp
    show ?thesis
    proof (cases "ti_base_init ti")
      case None
      with rest pc tr fr show ?thesis by (simp add: base_init_event_def)
    next
      case (Some f)
      with rest fr Suc.prems(2,3) obtain s2 where
        h: "run_class_hook s1 (Some c) f = Inr s2" and
        s': "s' = log_event (Ev_base_init (ti_name ti) c) s2"
        by (auto simp: bind_err_Inr_iff deref_type_Inr_iff)
      from run_class_hook_frame [OF h] s' pc tr fr Some show ?thesis
        by (simp add: base_init_event_def log_event_def)
    qed
  qed
qed

lemma parent_chain_two:
  assumes "parent_chain n s (Some M) = Inr ts"
    and "type_table s M = Some am" "am < length (type_heap s)"
    and "ti_parent (type_heap s ! am) = Some R"
    and "type_table s R = Some ar" "ar < length (type_heap s)"
    and "ti_parent (type_heap s ! ar) = None"
  shows "ts = [type_heap s ! am, type_heap s ! ar]"
proof -
  from assms(1) obtain n1 where n: "n = Suc n1" by (cases n) auto
  from assms(1-4) n obtain ts1 where
    1: "parent_chain n1 s (Some R) = Inr ts1" and ts: "ts = type_heap s ! am # ts1"
    by (auto simp: bind_err_Inr_iff deref_type_Inr_iff type_get_by_name_def type_table_lookup_def)
  from 1 obtain n2 where n1: "n1 = Suc n2" by (cases n1) auto
  from 1 assms(5-7) n1 obtain ts2 where
    2: "parent_chain n2 s None = Inr ts2" and ts1: "ts1 = type_heap s ! ar # ts2"
    by (auto simp: bind_err_Inr_iff deref_type_Inr_iff type_get_by_name_def type_table_lookup_def)
  from 2 have "ts2 = []" by (cases n2) auto
  with ts ts1 show ?thesis by simp
qed

lemma class_interfaces_frame:
  assumes "class_interfaces s a = Inr s'"
  shows "trace s' = trace s \<and> class_heap s' = class_heap s \<and> object_heap s' = object_heap s \<and>
         a < length (type_heap s') \<and>
         (\<exists>ifs. type_heap s' ! a = (type_heap s ! a)\<lparr>ti_interfaces := ifs\<rparr>)"
proof -
  from assms have a: "a < length (type_heap s)"
    and run: "for_each (\<lambda>s' i. type_class_interface_init s' a i) s
               [0..<length (ti_interfaces (type_heap s ! a))] = Inr s'"
    by (auto simp: class_interfaces_def bind_err_Inr_iff deref_type_Inr_iff num_interfaces_def)
  from class_interfaces_loop [OF a order_refl] run obtain ifs where
    "length (type_heap s') = length (type_heap s) + length (ti_interfaces (type_heap s ! a))"
    "class_heap s' = class_heap s" "object_heap s' = object_heap s" "trace s' = trace s"
    "type_heap s' ! a = (type_heap s ! a)\<lparr>ti_interfaces := ifs\<rparr>"
    by auto
  with a show ?thesis by auto
qed

lemma types_grow_table:
  "types_grow k U s s' \<Longrightarrow> \<forall>j. nm \<noteq> anonymous_name j \<Longrightarrow> type_table s' nm = type_table s nm"
  by (simp add: types_grow_def)

lemma types_grow_static:
  "types_grow k U s s' \<Longrightarrow> b < length (type_heap s) \<Longrightarrow>
     b < length (type_heap s') \<and> same_static (type_heap s ! b) (type_heap s' ! b)"
  by (auto simp: types_grow_def)

text \<open>
  The steps of a class build that succeeds on a type without class, with what each state
  keeps of the state before the build: the class object of the type is the new object
  \<open>c\<close>; up to the state \<open>s4\<close> (after the copy from the parent and the clearing), only
  class builds of ancestors have run hooks, on class objects above \<open>c\<close>.
\<close>

lemma type_class_init_steps:
  assumes run: "type_class_init n s (Some a) = Inr s'"
    and a: "a < length (type_heap s)" and unbuilt: "ti_class (type_heap s ! a) = None"
  shows "\<exists>m s4 s5 s6 evs.
           n = Suc m \<and>
           types_grow (length (class_heap s)) {a} s s4 \<and>
           trace s4 = trace s @ evs \<and>
           (\<forall>e\<in>set evs. \<exists>c'. ev_class e = Some c' \<and> length (class_heap s) < c') \<and>
           ti_class (type_heap s4 ! a) = Some (length (class_heap s)) \<and>
           length (class_heap s) < length (class_heap s4) \<and>
           oc_type (class_heap s4 ! length (class_heap s)) = a \<and>
           type_class_base_init m s4 a (ti_parent (type_heap s ! a)) = Inr s5 \<and>
           class_interfaces s5 a = Inr s6 \<and>
           class_call_init s6 a = Inr s'"
proof -
  let ?k = "length (class_heap s)"
  let ?ti = "type_heap s ! a"
  from run obtain m where n: "n = Suc m" by (cases n) auto
  from run n a unbuilt obtain sz s1 s3 z s4 s5 s6 where
    s1: "class_alloc s a sz = Inr s1" and
    s3: "(if ti_parent ?ti \<noteq> None
          then bind_err (type_class_init m s1 (type_get_by_name s1 (ti_parent ?ti)))
                 (\<lambda>s2. class_inherit s2 a (type_get_by_name s1 (ti_parent ?ti)))
          else Inr (s1, sizeof_ObjectClass)) = Inr (s3, z)" and
    s4: "class_clear s3 a z = Inr s4" and
    s5: "type_class_base_init m s4 a (ti_parent ?ti) = Inr s5" and
    s6: "class_interfaces s5 a = Inr s6" and
    s': "class_call_init s6 a = Inr s'"
    by (auto simp: bind_err_Inr_iff deref_type_def)
  have g1: "grows ?k {a} s s1"
    by (rule class_alloc_grows [OF s1]) simp_all
  have c1: "a < length (type_heap s1)" "ti_class (type_heap s1 ! a) = Some ?k"
    "length (class_heap s1) = Suc ?k" "trace s1 = trace s"
    "oc_type (class_heap s1 ! ?k) = a"
    using class_alloc_Inr [OF s1] by auto
  have g3: "types_grow ?k {a} s1 s3 \<and> a < length (type_heap s3) \<and>
            ti_class (type_heap s3 ! a) = Some ?k \<and>
            (\<exists>evs. trace s3 = trace s1 @ evs \<and>
                   (\<forall>e\<in>set evs. \<exists>c'. ev_class e = Some c' \<and> ?k < c'))"
  proof (cases "ti_parent ?ti")
    case None
    with s3 c1 show ?thesis by simp
  next
    case (Some pn)
    with s3 obtain s2 where
      s2: "type_class_init m s1 (type_get_by_name s1 (ti_parent ?ti)) = Inr s2" and
      inh: "class_inherit s2 a (type_get_by_name s1 (ti_parent ?ti)) = Inr (s3, z)"
      by (auto simp: bind_err_Inr_iff)
    have g2: "grows (Suc ?k) {} s1 s2"
      using type_class_init_grows [OF s2, of "{}"] c1 by simp
    have c2: "a < length (type_heap s2)" "ti_class (type_heap s2 ! a) = Some ?k"
      using grows_built_same [OF g2 c1(1,2)] c1 by auto
    note f = class_inherit_frame [OF inh]
    have g23: "grows ?k {} s2 s3"
      by (rule class_inherit_grows [OF inh c2(2)]) simp
    have "types_grow ?k {a} s1 s2" using grows_mono [OF g2, of ?k "{a}"] by (simp add: grows_def)
    moreover have "types_grow ?k {a} s2 s3" using grows_mono [OF g23, of ?k "{a}"] by (simp add: grows_def)
    ultimately have "types_grow ?k {a} s1 s3" by (rule types_grow_trans)
    moreover from g2 obtain evs where "trace s2 = trace s1 @ evs"
      "\<forall>e\<in>set evs. \<exists>c. ev_class e = Some c \<and> Suc ?k \<le> c"
      unfolding grows_def class_events_def by blast
    then have "\<exists>evs. trace s3 = trace s1 @ evs \<and>
                   (\<forall>e\<in>set evs. \<exists>c'. ev_class e = Some c' \<and> ?k < c')"
      using f by (intro exI [of _ evs]) (auto simp: Suc_le_eq)
    ultimately show ?thesis
      using c2 f by simp
  qed
  then obtain evs where c3: "a < length (type_heap s3)" "ti_class (type_heap s3 ! a) = Some ?k"
    and tg3: "types_grow ?k {a} s1 s3"
    and ev3: "trace s3 = trace s1 @ evs" "\<forall>e\<in>set evs. \<exists>c'. ev_class e = Some c' \<and> ?k < c'"
    by auto
  note f4 = class_clear_frame [OF s4]
  have g4: "grows ?k {} s3 s4"
    by (rule class_clear_grows [OF s4 c3(2)]) simp
  have tg34: "types_grow ?k {a} s3 s4"
    using grows_mono [OF g4, of ?k "{a}"] by (simp add: grows_def)
  have "types_grow ?k {a} s s1" using g1 by (simp add: grows_def)
  then have tg: "types_grow ?k {a} s s4"
    using tg3 tg34 by (blast intro: types_grow_trans)
  have l3: "?k < length (class_heap s3)" "oc_type (class_heap s3 ! ?k) = a"
    using tg3 c1(3,5) by (simp_all add: types_grow_def)
  have l4: "?k < length (class_heap s4)" "oc_type (class_heap s4 ! ?k) = a"
    using tg34 l3 by (simp_all add: types_grow_def)
  have tr: "trace s4 = trace s @ evs" using f4 ev3 c1 by simp
  have c4: "ti_class (type_heap s4 ! a) = Some ?k" using f4 c3 by simp
  show ?thesis
    using n tg tr ev3(2) c4 l4 s5 s6 s' by blast
qed

lemma not_anonymous_name:
  "hd nm \<noteq> CHR ''<'' \<Longrightarrow> nm \<noteq> anonymous_name j"
  by (auto simp: anonymous_name_def)








lemma class_interfaces_others:
  assumes "class_interfaces s a = Inr s'" and "b < length (type_heap s)" and "b \<noteq> a"
  shows "type_heap s' ! b = type_heap s ! b"
proof -
  from assms have a: "a < length (type_heap s)"
    and run: "for_each (\<lambda>s' i. type_class_interface_init s' a i) s
               [0..<length (ti_interfaces (type_heap s ! a))] = Inr s'"
    by (auto simp: class_interfaces_def bind_err_Inr_iff deref_type_Inr_iff num_interfaces_def)
  from class_interfaces_loop [OF a order_refl] run assms(2,3) show ?thesis
    by auto
qed




lemma is_ancestor_loop_Suc:
  "is_ancestor_loop n s ty tg = Inr b \<Longrightarrow> is_ancestor_loop (Suc n) s ty tg = Inr b"
proof (induction n arbitrary: ty)
  case 0
  then show ?case by simp
next
  case (Suc n)
  show ?case
  proof (cases ty)
    case None
    with Suc.prems show ?thesis by simp
  next
    case (Some a)
    show ?thesis
    proof (cases "ty = tg")
      case True
      with Suc.prems Some show ?thesis by simp
    next
      case False
      with Suc.prems Some obtain ti where ti: "deref_type s ty = Inr ti"
        and r: "is_ancestor_loop n s (type_get_by_name s (ti_parent ti)) tg = Inr b"
        by (auto split: sum.splits)
      from Suc.IH [OF r] ti False Some show ?thesis by simp
    qed
  qed
qed

lemma object_is_type_Suc:
  "(object_is_type n s obj tn = Inr b \<longrightarrow> object_is_type (Suc n) s obj tn = Inr b) \<and>
   (object_is_type_ifaces n s ifs tn = Inr b \<longrightarrow> object_is_type_ifaces (Suc n) s ifs tn = Inr b)"
proof (induction n arbitrary: obj ifs b)
  case 0
  show ?case
  proof (intro conjI impI)
    assume "object_is_type_ifaces 0 s ifs tn = Inr b"
    then show "object_is_type_ifaces (Suc 0) s ifs tn = Inr b"
      by (cases ifs) auto
  qed simp
next
  case (Suc n)
  have ty: "\<And>obj b. object_is_type (Suc n) s obj tn = Inr b \<Longrightarrow>
              object_is_type (Suc (Suc n)) s obj tn = Inr b"
  proof -
    fix obj b
    assume a: "object_is_type (Suc n) s obj tn = Inr b"
    then obtain ob oc r where ob: "deref_object s obj = Inr ob"
      and oc: "deref_class s (ob_class ob) = Inr oc"
      and r: "is_ancestor_loop n s (Some (oc_type oc)) (type_get_by_name s tn) = Inr r"
      by (auto split: sum.splits)
    note r' = is_ancestor_loop_Suc [OF r]
    show "object_is_type (Suc (Suc n)) s obj tn = Inr b"
    proof (cases r)
      case True
      with a ob oc r r' show ?thesis by simp
    next
      case False
      with a ob oc r have sz: "\<not> ob_size ob < sizeof_Object"
        and i: "object_is_type_ifaces n s (ob_interfaces ob) tn = Inr b"
        by (auto split: if_splits)
      from Suc.IH [where ifs = "ob_interfaces ob" and b = b] i
      have "object_is_type_ifaces (Suc n) s (ob_interfaces ob) tn = Inr b" by blast
      with ob oc r' False sz show ?thesis by simp
    qed
  qed
  have "\<And>b. object_is_type_ifaces (Suc n) s ifs tn = Inr b \<Longrightarrow>
          object_is_type_ifaces (Suc (Suc n)) s ifs tn = Inr b"
  proof (induction ifs)
    case Nil
    then show ?case by simp
  next
    case (Cons i ifs)
    from Cons.prems obtain r where r: "object_is_type (Suc n) s (Some i) tn = Inr r"
      by (auto split: sum.splits)
    note r' = ty [OF r]
    show ?case
    proof (cases r)
      case True
      with Cons.prems r r' show ?thesis by simp
    next
      case False
      with Cons.prems r have "object_is_type_ifaces (Suc n) s ifs tn = Inr b" by simp
      from Cons.IH [OF this] r' False show ?thesis by simp
    qed
  qed
  with ty show ?case by blast
qed

lemma dynamic_cast_ifaces_None:
  "object_is_type_ifaces n s ifs tn = Inr False \<Longrightarrow> dynamic_cast_ifaces (Suc n) s ifs tn = Inr None"
proof (induction ifs)
  case Nil
  then show ?case by simp
next
  case (Cons i ifs)
  from Cons.prems have 1: "object_is_type n s (Some i) tn = Inr False"
    and 2: "object_is_type_ifaces n s ifs tn = Inr False"
    by (auto split: sum.splits bool.splits)
  from object_is_type_Suc [of n s "Some i" tn False] 1
  have "object_is_type (Suc n) s (Some i) tn = Inr False" by blast
  with Cons.IH [OF 2] show ?case by simp
qed

text \<open>
  The loop of lines 387 to 393 never finds an interface object: it is reached only when
  \<^verbatim>\<open>object_is_type\<close> has failed, which has looked through the same list.
\<close>

lemma object_dynamic_cast_no_interface:
  assumes "object_is_type n s obj tn = Inr False" and "deref_object s obj = Inr ob"
  shows "dynamic_cast_ifaces n s (ob_interfaces ob) tn = Inr None"
proof -
  from assms(1) obtain m where n: "n = Suc m" by (cases n) auto
  from assms n have "object_is_type_ifaces m s (ob_interfaces ob) tn = Inr False"
    by (auto split: sum.splits bool.splits if_splits)
  from dynamic_cast_ifaces_None [OF this] n show ?thesis by simp
qed

lemma INTERFACE_same:
  assumes "INTERFACE n s obj = Inr r"
  shows "r = obj"
proof -
  from assms obtain m where n: "n = Suc m"
    by (cases n) (auto simp: INTERFACE_def)
  from assms n obtain x where c: "object_dynamic_cast m s obj (Some TYPE_INTERFACE) = Inr (Some x)"
    and r: "r = Some x"
    by (auto simp: INTERFACE_def split: sum.splits option.splits)
  from c obtain k where m: "m = Suc k" by (cases m) auto
  from c m obtain b where b: "object_is_type k s obj (Some TYPE_INTERFACE) = Inr b"
    by (auto split: sum.splits)
  show ?thesis
  proof (cases b)
    case True
    with c m b r show ?thesis by simp
  next
    case False
    from b False obtain ob where ob: "deref_object s obj = Inr ob"
      by (cases k) (auto split: sum.splits)
    from object_dynamic_cast_no_interface [OF _ ob] b False
    have "dynamic_cast_ifaces k s (ob_interfaces ob) (Some TYPE_INTERFACE) = Inr None" by simp
    with c m b False ob show ?thesis by simp
  qed
qed

lemma others_kept_refl [simp]: "others_kept obj s s"
  by (simp add: others_kept_def)

lemma others_kept_trans:
  "others_kept obj s s1 \<Longrightarrow> others_kept obj s1 s2 \<Longrightarrow> others_kept obj s s2"
  by (auto simp: others_kept_def)

lemma types_kept_refl [simp]: "types_kept s s"
  by (simp add: types_kept_def)

lemma types_kept_trans:
  assumes "types_kept s s1" and "types_kept s1 s2"
  shows "types_kept s s2"
proof -
  from assms(1) have "length (class_heap s) \<le> length (class_heap s1)"
    by (simp add: types_kept_def types_grow_def)
  from types_grow_mono [OF assms(2) [unfolded types_kept_def] this subset_refl] assms(1)
  show ?thesis
    unfolding types_kept_def by (rule types_grow_trans [rotated])
qed

lemma types_kept_same:
  "type_heap s' = type_heap s \<Longrightarrow> class_heap s' = class_heap s \<Longrightarrow>
   type_table s' = type_table s \<Longrightarrow> anon_count s' = anon_count s \<Longrightarrow> types_kept s s'"
  by (simp add: types_kept_def types_grow_def)

lemma types_kept_built:
  "types_kept s s' \<Longrightarrow> t < length (type_heap s) \<Longrightarrow> ti_class (type_heap s ! t) = Some c \<Longrightarrow>
     t < length (type_heap s') \<and> type_heap s' ! t = type_heap s ! t"
  by (auto simp: types_kept_def types_grow_def)

lemma type_class_init_kept:
  assumes "type_class_init n s p = Inr s'"
  shows "types_kept s s' \<and> object_heap s' = object_heap s"
  using type_class_init_grows [OF assms, of "{}"]
  by (simp add: types_kept_def grows_def)

lemma update_object_Inr:
  "update_object s a f = Inr s' \<longleftrightarrow>
     (\<exists>ob. a < length (object_heap s) \<and> object_heap s ! a = Some ob \<and>
           s' = s\<lparr>object_heap := (object_heap s)[a := Some (f ob)]\<rparr>)"
  by (auto simp: update_object_def bind_err_Inr_iff deref_object_Inr_iff)

lemma interface_install_Inr:
  assumes "interface_install s obj (Some x) = Inr s'" and "x \<noteq> obj"
  shows "\<exists>X ob. x < length (object_heap s) \<and> object_heap s ! x = Some X \<and>
           obj < length (object_heap s) \<and> object_heap s ! obj = Some ob \<and>
           sizeof_Interface \<le> ob_size X \<and> sizeof_Object \<le> ob_size ob \<and>
           s' = s\<lparr>object_heap := (object_heap s)
                  [x := Some (X\<lparr>ob_obj := Some obj\<rparr>),
                   obj := Some (ob\<lparr>ob_interfaces := x # ob_interfaces ob\<rparr>)]\<rparr>"
  using assms
  by (auto simp: interface_install_def bind_err_Inr_iff deref_object_Inr_iff update_object_Inr
      split: if_splits)

lemma object_clear_Inr:
  assumes "object_clear s obj isz cls = Inr s'"
  shows "\<exists>ob. obj < length (object_heap s) \<and> object_heap s ! obj = Some ob \<and>
           isz \<le> ob_size ob \<and>
           s' = s\<lparr>object_heap := (object_heap s)
                  [obj := Some (ob\<lparr>ob_class := cls,
                      ob_interfaces := (if sizeof_Object \<le> isz then [] else ob_interfaces ob),
                      ob_obj := (if sizeof_Interface \<le> isz then None else ob_obj ob)\<rparr>)]\<rparr>"
  using assms
  by (auto simp: object_clear_def bind_err_Inr_iff deref_object_Inr_iff update_object_Inr
      split: if_splits)

lemma call_instance_init_frame:
  "object_heap (call_instance_init s ti obj) = object_heap s \<and>
   type_heap (call_instance_init s ti obj) = type_heap s \<and>
   class_heap (call_instance_init s ti obj) = class_heap s \<and>
   type_table (call_instance_init s ti obj) = type_table s \<and>
   anon_count (call_instance_init s ti obj) = anon_count s"
  by (simp add: call_instance_init_def log_event_def split: option.splits)

lemma installed_Nil [simp]: "installed obj s s' []"
  by (simp add: installed_def)

lemma installed_length:
  "installed obj s s' new \<Longrightarrow> length (object_heap r) = length (object_heap s) \<Longrightarrow>
     installed obj r s' new"
  by (simp add: installed_def)

lemma installed_append:
  assumes "installed obj s s1 old" and "installed obj s1 s2 new"
    and "others_kept obj s s1" and "others_kept obj s1 s2" and "obj < length (object_heap s)"
  shows "installed obj s s2 (new @ old)"
proof -
  have d: "distinct (new @ old)"
    using assms(1,2) by (fastforce simp: installed_def)
  have o: "\<forall>x \<in> set old. length (object_heap s) \<le> x \<and> x < length (object_heap s2) \<and>
        (\<exists>X. object_heap s2 ! x = Some X \<and> ob_obj X = Some obj)"
  proof
    fix x assume "x \<in> set old"
    with assms(1) obtain X where x: "length (object_heap s) \<le> x" "x < length (object_heap s1)"
      "object_heap s1 ! x = Some X" "ob_obj X = Some obj"
      by (auto simp: installed_def)
    from x(1) assms(5) have "x \<noteq> obj" by simp
    with assms(4) x(2) have "object_heap s2 ! x = object_heap s1 ! x"
      and "x < length (object_heap s2)"
      by (auto simp: others_kept_def)
    with x show "length (object_heap s) \<le> x \<and> x < length (object_heap s2) \<and>
        (\<exists>X. object_heap s2 ! x = Some X \<and> ob_obj X = Some obj)"
      by simp
  qed
  have n: "\<forall>x \<in> set new. length (object_heap s) \<le> x \<and> x < length (object_heap s2) \<and>
        (\<exists>X. object_heap s2 ! x = Some X \<and> ob_obj X = Some obj)"
    using assms(2,3) by (fastforce simp: installed_def others_kept_def)
  from d o n show ?thesis
    by (auto simp: installed_def)
qed

lemma type_get_by_name_table:
  "type_table s' = type_table s \<Longrightarrow> type_get_by_name s' tn = type_get_by_name s tn"
  by (simp add: type_get_by_name_def type_table_lookup_def split: option.splits)

lemma step_new:
  assumes "initialize_ok n"
  shows "new_ok (Suc n)"
  unfolding new_ok_def
proof (intro allI impI)
  fix s tn s' x
  assume a: "object_new (Suc n) s tn = Inr (s', x)"
  define s1 where "s1 = fst (g_malloc_object s (ti_instance_size (type_heap s ! the (type_get_by_name s tn))))"
  from a obtain t where t: "type_get_by_name s tn = Some t" "t < length (type_heap s)"
    and i: "object_initialize n s1 (length (object_heap s)) tn = Inr s'"
    and x: "x = length (object_heap s)"
    by (auto simp: bind_err_Inr_iff deref_type_Inr_iff g_malloc_object_def s1_def)
  have s1: "object_heap s1 = object_heap s @
      [Some \<lparr>ob_size = ti_instance_size (type_heap s ! t), ob_class = None, ob_interfaces = [], ob_obj = None\<rparr>]"
    "type_heap s1 = type_heap s" "class_heap s1 = class_heap s" "type_table s1 = type_table s"
    "anon_count s1 = anon_count s"
    by (simp_all add: s1_def g_malloc_object_def t)
  from assms i obtain ob ob' t' c new where
    k: "others_kept x s1 s'" "types_kept s1 s'"
    and o: "object_heap s1 ! x = Some ob" "object_heap s' ! x = Some ob'" "ob_size ob' = ob_size ob"
      "type_get_by_name s1 tn = Some t'" "ob_class ob' = Some c" "ti_class (type_heap s' ! t') = Some c"
      "ob_interfaces ob' = new @ (if sizeof_Object \<le> ti_instance_size (type_heap s1 ! t') then []
                    else ob_interfaces ob)" "installed x s1 s' new"
    unfolding initialize_ok_def x by blast
  have tt: "t' = t"
    using o(4) t(1) type_get_by_name_table [OF s1(4), of tn] by simp
  have ob: "ob = \<lparr>ob_size = ti_instance_size (type_heap s ! t), ob_class = None, ob_interfaces = [], ob_obj = None\<rparr>"
    using o(1) by (simp add: s1(1) x)
  have ifs: "ob_interfaces ob' = new"
    using o(7) by (simp add: ob)
  have k1: "others_kept x s s'"
    using k(1) by (auto simp: others_kept_def s1(1) nth_append)
  have k2: "types_kept s s'"
    by (rule types_kept_trans [OF types_kept_same k(2)]) (simp_all add: s1)
  have lt: "x < length (object_heap s')"
    using k(1) by (simp add: others_kept_def s1(1) x)
  have sz: "ob_size ob' = ti_instance_size (type_heap s ! t)"
    using o(3) by (simp add: ob)
  have d: "distinct (ob_interfaces ob')"
    using o(8) by (simp add: ifs installed_def)
  have b: "\<forall>y \<in> set (ob_interfaces ob'). x < y \<and> y < length (object_heap s') \<and>
              (\<exists>Y. object_heap s' ! y = Some Y \<and> ob_obj Y = Some x)"
    using o(8) by (auto simp: ifs installed_def s1(1) x)
  show "x = length (object_heap s) \<and> others_kept x s s' \<and> types_kept s s' \<and>
        (\<exists>X t c. x < length (object_heap s') \<and> object_heap s' ! x = Some X \<and>
           type_get_by_name s tn = Some t \<and> t < length (type_heap s) \<and>
           ob_size X = ti_instance_size (type_heap s ! t) \<and>
           ob_class X = Some c \<and> ti_class (type_heap s' ! t) = Some c \<and>
           distinct (ob_interfaces X) \<and>
           (\<forall>y \<in> set (ob_interfaces X). x < y \<and> y < length (object_heap s') \<and>
              (\<exists>Y. object_heap s' ! y = Some Y \<and> ob_obj Y = Some x)))"
    using o(6) unfolding tt
    by (intro conjI exI [of _ ob'] exI [of _ t] exI [of _ c]) (rule x k1 k2 lt o(2) t sz o(5) d b | assumption)+
qed

lemma step_initialize:
  assumes "init_ok n"
  shows "initialize_ok (Suc n)"
  unfolding initialize_ok_def
proof (intro allI impI)
  fix s obj tn s'
  assume a: "object_initialize (Suc n) s obj tn = Inr s'"
  then obtain ti s1 ti1 s2 where
    ti: "deref_type s (type_get_by_name s tn) = Inr ti"
    and c: "type_class_init n s (type_get_by_name s tn) = Inr s1"
    and ti1: "deref_type s1 (type_get_by_name s tn) = Inr ti1"
    and cl: "object_clear s1 obj (ti_instance_size ti1) (ti_class ti1) = Inr s2"
    and i: "object_init n s2 obj tn = Inr s'"
    by (auto simp: bind_err_Inr_iff split: if_splits)
  from ti obtain t where t: "type_get_by_name s tn = Some t" "t < length (type_heap s)"
    "ti = type_heap s ! t"
    by (auto simp: deref_type_Inr_iff)
  from ti1 t have t1: "t < length (type_heap s1)" "ti1 = type_heap s1 ! t"
    by (auto simp: deref_type_Inr_iff)
  note k = type_class_init_kept [OF c]
  from type_class_init_built [OF c] t(1) t1 obtain c where c: "ti_class ti1 = Some c"
    by auto
  from k t(2) have "same_static (type_heap s ! t) (type_heap s1 ! t)"
    by (simp add: types_kept_def types_grow_def)
  then have sz: "ti_instance_size ti1 = ti_instance_size (type_heap s ! t)"
    by (simp add: same_static_def t1)
  define isz where "isz = ti_instance_size (type_heap s ! t)"
  from object_clear_Inr [OF cl] obtain ob where
    ob: "obj < length (object_heap s)" "object_heap s ! obj = Some ob" "isz \<le> ob_size ob"
    and s2: "s2 = s1\<lparr>object_heap := (object_heap s1)
                  [obj := Some (ob\<lparr>ob_class := Some c,
                      ob_interfaces := (if sizeof_Object \<le> isz then [] else ob_interfaces ob),
                      ob_obj := (if sizeof_Interface \<le> isz then None else ob_obj ob)\<rparr>)]\<rparr>"
    unfolding sz c isz_def conjunct2 [OF k] by blast
  define ob2 where "ob2 = ob\<lparr>ob_class := Some c,
                      ob_interfaces := (if sizeof_Object \<le> isz then [] else ob_interfaces ob),
                      ob_obj := (if sizeof_Interface \<le> isz then None else ob_obj ob)\<rparr>"
  have h2: "object_heap s2 = (object_heap s)[obj := Some ob2]"
    "type_heap s2 = type_heap s1" "class_heap s2 = class_heap s1" "type_table s2 = type_table s1"
    "anon_count s2 = anon_count s1"
    by (simp_all add: s2 ob2_def conjunct2 [OF k])
  have v2: "obj < length (object_heap s2)" "object_heap s2 ! obj = Some ob2"
    using ob(1) by (simp_all add: h2(1))
  from assms i v2 obtain new where
    k2: "others_kept obj s2 s'" "types_kept s2 s'"
    and o': "object_heap s' ! obj = Some (ob2\<lparr>ob_interfaces := new @ ob_interfaces ob2\<rparr>)"
    and inst: "installed obj s2 s' new"
    unfolding init_ok_def by blast
  have r1: "others_kept obj s s'"
    using k2(1) by (auto simp: others_kept_def h2(1))
  have k12: "types_kept s1 s'"
    by (rule types_kept_trans [OF types_kept_same k2(2)]) (simp_all add: h2)
  have r2: "types_kept s s'"
    by (rule types_kept_trans [OF conjunct1 [OF k] k12])
  have r3: "ti_class (type_heap s' ! t) = Some c"
    using types_kept_built [OF k12 t1(1)] c by (simp add: t1(2))
  have r4: "installed obj s s' new"
    by (rule installed_length [OF inst]) (simp add: h2(1))
  define ob' where "ob' = ob2\<lparr>ob_interfaces := new @ ob_interfaces ob2\<rparr>"
  have p: "ob_size ob' = ob_size ob" "ob_class ob' = Some c"
    "ob_interfaces ob' = new @ (if sizeof_Object \<le> ti_instance_size (type_heap s ! t) then []
                    else ob_interfaces ob)"
    by (simp_all add: ob'_def ob2_def isz_def)
  have q: "object_heap s' ! obj = Some ob'"
    by (simp add: o' ob'_def)
  have b: "ti_instance_size (type_heap s ! t) \<le> ob_size ob"
    using ob(3) by (simp add: isz_def)
  show "others_kept obj s s' \<and> types_kept s s' \<and>
        (\<exists>ob ob' t c new. obj < length (object_heap s) \<and> object_heap s ! obj = Some ob \<and>
           object_heap s' ! obj = Some ob' \<and> ob_size ob' = ob_size ob \<and>
           type_get_by_name s tn = Some t \<and> t < length (type_heap s) \<and>
           ti_instance_size (type_heap s ! t) \<le> ob_size ob \<and>
           ob_class ob' = Some c \<and> ti_class (type_heap s' ! t) = Some c \<and>
           ob_interfaces ob' =
             new @ (if sizeof_Object \<le> ti_instance_size (type_heap s ! t) then []
                    else ob_interfaces ob) \<and>
           installed obj s s' new)"
    by (intro conjI exI [of _ ob] exI [of _ ob'] exI [of _ t] exI [of _ c] exI [of _ new])
      (rule r1 r2 ob(1,2) q p t(1,2) b r3 r4)+
qed

lemma step_interface_init:
  assumes "new_ok n"
  shows "interface_init_ok (Suc n)"
  unfolding interface_init_ok_def
proof (intro allI impI, elim conjE)
  fix s obj a i s'
  assume a: "object_interface_init (Suc n) s obj a i = Inr s'"
    and v: "obj < length (object_heap s)"
  then obtain name s1 x io where
    nm: "interface_type_name s a i = Inr name"
    and nw: "object_new n s (Some name) = Inr (s1, x)"
    and c: "INTERFACE n s1 (Some x) = Inr io"
    and ins: "interface_install s1 obj io = Inr s'"
    by (auto simp: bind_err_Inr_iff)
  from INTERFACE_same [OF c] have io: "io = Some x" .
  from assms nw obtain X t c where
    x: "x = length (object_heap s)" and k: "others_kept x s s1" "types_kept s s1"
    and X: "x < length (object_heap s1)" "object_heap s1 ! x = Some X"
      "type_get_by_name s (Some name) = Some t" "ob_class X = Some c"
      "ti_class (type_heap s1 ! t) = Some c" "t < length (type_heap s)"
    unfolding new_ok_def by blast
  from v x have ne: "x \<noteq> obj" by simp
  from k(1) v ne have o1: "object_heap s1 ! obj = object_heap s ! obj"
    by (simp add: others_kept_def)
  from interface_install_Inr [OF ins [unfolded io] ne] X(2) obtain ob where
    ob: "object_heap s1 ! obj = Some ob"
    and s': "s' = s1\<lparr>object_heap := (object_heap s1)
                  [x := Some (X\<lparr>ob_obj := Some obj\<rparr>),
                   obj := Some (ob\<lparr>ob_interfaces := x # ob_interfaces ob\<rparr>)]\<rparr>"
    by auto
  have h: "object_heap s' = (object_heap s1)
                  [x := Some (X\<lparr>ob_obj := Some obj\<rparr>),
                   obj := Some (ob\<lparr>ob_interfaces := x # ob_interfaces ob\<rparr>)]"
    "type_heap s' = type_heap s1" "class_heap s' = class_heap s1" "type_table s' = type_table s1"
    "anon_count s' = anon_count s1"
    by (simp_all add: s')
  have l: "length (object_heap s) \<le> length (object_heap s1)"
    using k(1) by (simp add: others_kept_def)
  have r1: "others_kept obj s s'"
    using k(1) by (auto simp: others_kept_def h(1) x)
  have r2: "types_kept s s'"
    by (rule types_kept_trans [OF k(2) types_kept_same]) (simp_all add: h)
  have r3: "object_heap s ! obj = Some ob"
    using ob o1 by simp
  have r4: "object_heap s' ! obj = Some (ob\<lparr>ob_interfaces := length (object_heap s) # ob_interfaces ob\<rparr>)"
    using v l by (simp add: h(1) x)
  have r5: "length (object_heap s) < length (object_heap s')"
    using X(1) by (simp add: h(1) x)
  have r6: "object_heap s' ! length (object_heap s) = Some (X\<lparr>ob_obj := Some obj\<rparr>)"
    using X(1) ne by (simp add: h(1) x)
  have r7: "ob_obj (X\<lparr>ob_obj := Some obj\<rparr>) = Some obj" "ob_class (X\<lparr>ob_obj := Some obj\<rparr>) = Some c"
    by (simp_all add: X(4))
  have r8: "ti_class (type_heap s' ! t) = Some c"
    by (simp add: h(2) X(5))
  show "others_kept obj s s' \<and> types_kept s s' \<and>
        (\<exists>ob X name t c. object_heap s ! obj = Some ob \<and>
           object_heap s' ! obj = Some (ob\<lparr>ob_interfaces := length (object_heap s) # ob_interfaces ob\<rparr>) \<and>
           length (object_heap s) < length (object_heap s') \<and>
           object_heap s' ! length (object_heap s) = Some X \<and> ob_obj X = Some obj \<and>
           interface_type_name s a i = Inr name \<and> type_get_by_name s (Some name) = Some t \<and>
           t < length (type_heap s) \<and>
           ob_class X = Some c \<and> ti_class (type_heap s' ! t) = Some c)"
    by (intro conjI exI [of _ ob] exI [of _ "X\<lparr>ob_obj := Some obj\<rparr>"] exI [of _ name]
          exI [of _ t] exI [of _ c])
      (rule r1 r2 r3 r4 r5 r6 r7 nm X(3) X(6) r8)+
qed

text \<open>
  The loop of \<^verbatim>\<open>object_init\<close> over the interface entries of one type: each entry puts one
  new interface object in front of the list of \<open>obj\<close>.
\<close>

lemma interface_loop_ok:
  assumes "interface_init_ok n"
    and "for_each (\<lambda>s' i. object_interface_init n s' obj a i) s xs = Inr s'"
    and "obj < length (object_heap s)" and "object_heap s ! obj = Some ob"
  shows "others_kept obj s s' \<and> types_kept s s' \<and>
     (\<exists>new. length new = length xs \<and>
        object_heap s' ! obj = Some (ob\<lparr>ob_interfaces := new @ ob_interfaces ob\<rparr>) \<and>
        installed obj s s' new)"
  using assms(2-)
proof (induction xs arbitrary: s ob)
  case Nil
  then show ?case by simp
next
  case (Cons i xs)
  from Cons.prems(1) obtain sm where
    st: "object_interface_init n s obj a i = Inr sm"
    and rest: "for_each (\<lambda>s' i. object_interface_init n s' obj a i) sm xs = Inr s'"
    by (auto split: sum.splits)
  define x where "x = length (object_heap s)"
  from assms(1) st Cons.prems(2,3) obtain X where
    k: "others_kept obj s sm" "types_kept s sm"
    and m: "object_heap sm ! obj = Some (ob\<lparr>ob_interfaces := x # ob_interfaces ob\<rparr>)"
      "x < length (object_heap sm)" "object_heap sm ! x = Some X" "ob_obj X = Some obj"
    unfolding interface_init_ok_def x_def by fastforce
  from Cons.prems(2) m(2) have vm: "obj < length (object_heap sm)"
    by (simp add: x_def)
  from Cons.IH [OF rest vm m(1)] obtain new where
    k': "others_kept obj sm s'" "types_kept sm s'"
    and n: "length new = length xs"
      "object_heap s' ! obj = Some (ob\<lparr>ob_interfaces := new @ x # ob_interfaces ob\<rparr>)"
      "installed obj sm s' new"
    by auto
  have one: "installed obj s sm [x]"
    using m by (simp add: installed_def x_def)
  have r1: "others_kept obj s s'"
    by (rule others_kept_trans [OF k(1) k'(1)])
  have r2: "types_kept s s'"
    by (rule types_kept_trans [OF k(2) k'(2)])
  have r3: "installed obj s s' (new @ [x])"
    by (rule installed_append [OF one n(3) k(1) k'(1) Cons.prems(2)])
  have r4: "length (new @ [x]) = length (i # xs)"
    by (simp add: n(1))
  have r5: "object_heap s' ! obj = Some (ob\<lparr>ob_interfaces := (new @ [x]) @ ob_interfaces ob\<rparr>)"
    by (simp add: n(2))
  show ?case
    by (intro conjI exI [of _ "new @ [x]"]) (rule r1 r2 r3 r4 r5)+
qed

lemma step_init:
  assumes "init_ok n" and "interface_init_ok n"
  shows "init_ok (Suc n)"
  unfolding init_ok_def
proof (intro allI impI, elim conjE)
  fix s obj tn s' ob
  assume a: "object_init (Suc n) s obj tn = Inr s'"
    and v: "obj < length (object_heap s)" "object_heap s ! obj = Some ob"
  from a obtain t ti s1 s2 where
    t: "type_get_by_name s tn = Some t" "deref_type s (Some t) = Inr ti"
    and p: "(if ti_parent ti \<noteq> None then object_init n s obj (ti_parent ti) else Inr s) = Inr s1"
    and l: "for_each (\<lambda>s' i. object_interface_init n s' obj t i) s1 [0..<num_interfaces ti] = Inr s2"
    and s': "s' = call_instance_init s2 ti obj"
    by (auto simp: bind_err_Inr_iff split: option.splits)
  have "others_kept obj s s1 \<and> types_kept s s1 \<and>
        (\<exists>old. object_heap s1 ! obj = Some (ob\<lparr>ob_interfaces := old @ ob_interfaces ob\<rparr>) \<and>
               installed obj s s1 old)"
  proof (cases "ti_parent ti = None")
    case True
    with p v show ?thesis
      by (intro conjI exI [of _ "[]"]) simp_all
  next
    case False
    with p have "object_init n s obj (ti_parent ti) = Inr s1" by simp
    with assms(1) v show ?thesis
      unfolding init_ok_def by blast
  qed
  then obtain old where
    k: "others_kept obj s s1" "types_kept s s1"
    and o: "object_heap s1 ! obj = Some (ob\<lparr>ob_interfaces := old @ ob_interfaces ob\<rparr>)"
      "installed obj s s1 old"
    by auto
  from k(1) v(1) have v1: "obj < length (object_heap s1)"
    by (simp add: others_kept_def)
  from interface_loop_ok [OF assms(2) l v1 o(1)] obtain new where
    k': "others_kept obj s1 s2" "types_kept s1 s2"
    and n: "object_heap s2 ! obj = Some (ob\<lparr>ob_interfaces := new @ old @ ob_interfaces ob\<rparr>)"
      "installed obj s1 s2 new"
    by auto
  note f = call_instance_init_frame [of s2 ti obj, folded s']
  have k'': "others_kept obj s2 s'" "types_kept s2 s'"
    using f by (simp_all add: others_kept_def types_kept_same)
  have r1: "others_kept obj s s'"
    by (rule others_kept_trans [OF others_kept_trans [OF k(1) k'(1)] k''(1)])
  have r2: "types_kept s s'"
    by (rule types_kept_trans [OF types_kept_trans [OF k(2) k'(2)] k''(2)])
  have r3: "object_heap s' ! obj = Some (ob\<lparr>ob_interfaces := (new @ old) @ ob_interfaces ob\<rparr>)"
    using f n(1) by simp
  have "installed obj s s2 (new @ old)"
    by (rule installed_append [OF o(2) n(2) k(1) k'(1) v(1)])
  then have r4: "installed obj s s' (new @ old)"
    using f by (simp add: installed_def)
  show "others_kept obj s s' \<and> types_kept s s' \<and>
        (\<exists>new. object_heap s' ! obj = Some (ob\<lparr>ob_interfaces := new @ ob_interfaces ob\<rparr>) \<and>
               installed obj s s' new)"
    by (intro conjI exI [of _ "new @ old"]) (rule r1 r2 r3 r4)+
qed

lemma lifecycle_ok: "interface_init_ok n \<and> init_ok n \<and> initialize_ok n \<and> new_ok n"
proof (induction n)
  case 0
  show ?case
    by (simp add: interface_init_ok_def init_ok_def initialize_ok_def new_ok_def)
next
  case (Suc n)
  then show ?case
    by (intro conjI step_interface_init step_init step_initialize step_new) simp_all
qed




text \<open>
  What \<^verbatim>\<open>object_new\<close> returns: the new object, and in its interface list only objects
  allocated after it, each once, with the new object as back-pointer.
\<close>

lemma object_new_trampolines:
  assumes "object_new n s tn = Inr (s', x)"
  shows "x = length (object_heap s) \<and>
     (\<exists>X. object_heap s' ! x = Some X \<and> distinct (ob_interfaces X) \<and>
        (\<forall>y \<in> set (ob_interfaces X). x < y \<and>
           (\<exists>Y. object_heap s' ! y = Some Y \<and> ob_obj Y = Some x)))"
proof -
  from lifecycle_ok [of n] have "new_ok n" by simp
  with assms show ?thesis
    unfolding new_ok_def by fast
qed

text \<open>
  The loop of the class build over the interface entries of a type succeeds and registers
  one anonymous type for each entry, in order: the descriptor of entry \<open>i\<close> is new, its
  name is the next anonymous name, its parent is the interface named in the entry, its
  instance size is the size of the interface object record, its class size is the size of
  the interface class record, its \<^verbatim>\<open>class_init\<close> is the \<^verbatim>\<open>interface_init\<close> of the
  entry, and its \<^verbatim>\<open>abstract\<close> is false; the entry then points to it.
\<close>

lemma class_interfaces_registers:
  assumes "a < length (type_heap s)"
  shows "\<exists>s'. class_interfaces s a = Inr s' \<and>
           length (type_heap s') = length (type_heap s) + num_interfaces (type_heap s ! a) \<and>
           (\<forall>i < num_interfaces (type_heap s ! a).
              type_heap s' ! (length (type_heap s) + i) =
                \<lparr>ti_name = anonymous_name (anon_count s + i),
                 ti_class_size = sizeof_InterfaceClass,
                 ti_instance_size = sizeof_Interface,
                 ti_base_init = None, ti_base_finalize = None,
                 ti_class_init = if_interface_initfn (ti_interfaces (type_heap s ! a) ! i),
                 ti_class_finalize = None, ti_class_data = 0,
                 ti_instance_init = None, ti_instance_finalize = None,
                 ti_abstract = False,
                 ti_parent = Some (if_parent (ti_interfaces (type_heap s ! a) ! i)),
                 ti_class = None, ti_interfaces = []\<rparr> \<and>
              ti_interfaces (type_heap s' ! a) ! i =
                (ti_interfaces (type_heap s ! a) ! i)\<lparr>if_type := Some (length (type_heap s) + i)\<rparr>)"
proof -
  from class_interfaces_loop [OF assms order_refl] obtain s' ifs where
    l: "for_each (\<lambda>s' i. type_class_interface_init s' a i) s
          [0..<length (ti_interfaces (type_heap s ! a))] = Inr s'" and
    len: "length (type_heap s') = length (type_heap s) + length (ti_interfaces (type_heap s ! a))" and
    new: "\<forall>i < length (ti_interfaces (type_heap s ! a)).
            type_heap s' ! (length (type_heap s) + i) =
              anonymous_type (anon_count s + i) (ti_interfaces (type_heap s ! a) ! i)" and
    ta: "type_heap s' ! a = (type_heap s ! a)\<lparr>ti_interfaces := ifs\<rparr>" and
    li: "length ifs = length (ti_interfaces (type_heap s ! a))" and
    ifs: "\<forall>i < length ifs. ifs ! i =
            (if i < length (ti_interfaces (type_heap s ! a))
             then (ti_interfaces (type_heap s ! a) ! i)\<lparr>if_type := Some (length (type_heap s) + i)\<rparr>
             else ti_interfaces (type_heap s ! a) ! i)"
    by blast
  have run: "class_interfaces s a = Inr s'"
    using assms l by (simp add: class_interfaces_def deref_type_def num_interfaces_def)
  show ?thesis
    using run len new ta li ifs
    by (intro exI [of _ s']) (simp add: num_interfaces_def anonymous_type_def)
qed

text \<open>
  \<^verbatim>\<open>object_new\<close> forces the class build of its type: the new instance has the class
  of the descriptor, and the call leaves every descriptor that already had its class,
  and every class object that existed, as they were. So two instances of a type have
  the same class object.
\<close>

lemma object_new_class:
  assumes "object_new n s tn = Inr (s', x)"
  shows "\<exists>t c X. type_get_by_name s tn = Some t \<and> ti_class (type_heap s' ! t) = Some c \<and>
           object_heap s' ! x = Some X \<and> ob_class X = Some c \<and>
           (\<forall>b < length (type_heap s). \<forall>c. ti_class (type_heap s ! b) = Some c \<longrightarrow>
              type_heap s' ! b = type_heap s ! b) \<and>
           (\<forall>c < length (class_heap s). class_heap s' ! c = class_heap s ! c)"
proof -
  from lifecycle_ok [of n] have "new_ok n" by simp
  with assms obtain X t c where
    k: "types_kept s s'"
    and f: "object_heap s' ! x = Some X" "type_get_by_name s tn = Some t"
      "ob_class X = Some c" "ti_class (type_heap s' ! t) = Some c"
    unfolding new_ok_def by blast
  from k have g: "(\<forall>b < length (type_heap s). \<forall>c. ti_class (type_heap s ! b) = Some c \<longrightarrow>
              type_heap s' ! b = type_heap s ! b)"
    "(\<forall>c < length (class_heap s). class_heap s' ! c = class_heap s ! c)"
    by (auto simp: types_kept_def types_grow_def)
  show ?thesis
    by (intro exI [of _ t] exI [of _ c] exI [of _ X] conjI) (rule f g)+
qed


text \<open>
  Two calls of \<^verbatim>\<open>object_new\<close> for a name that leads to the same descriptor: the two
  instances are different objects with the same class object.
\<close>

lemma object_new_same_class:
  assumes "object_new n s tn = Inr (s1, x1)" and "object_new m s1 tn = Inr (s2, x2)"
    and "type_get_by_name s1 tn = type_get_by_name s tn"
  shows "x1 \<noteq> x2 \<and> (\<exists>c. object_get_class s2 x1 = Inr (Some c) \<and>
           object_get_class s2 x2 = Inr (Some c))"
proof -
  from lifecycle_ok [of n] have "new_ok n" by simp
  with assms(1) obtain X1 t c where
    a: "x1 = length (object_heap s)" "types_kept s s1"
      "x1 < length (object_heap s1)" "object_heap s1 ! x1 = Some X1"
      "type_get_by_name s tn = Some t" "t < length (type_heap s)"
      "ob_class X1 = Some c" "ti_class (type_heap s1 ! t) = Some c"
    unfolding new_ok_def by blast
  from lifecycle_ok [of m] have "new_ok m" by simp
  with assms(2) obtain X2 t' c' where
    b: "x2 = length (object_heap s1)" "others_kept x2 s1 s2" "types_kept s1 s2"
      "x2 < length (object_heap s2)" "object_heap s2 ! x2 = Some X2"
      "type_get_by_name s1 tn = Some t'"
      "ob_class X2 = Some c'" "ti_class (type_heap s2 ! t') = Some c'"
    unfolding new_ok_def by blast
  from a(5) b(6) assms(3) have tt: "t' = t"
    by simp
  from a(3) b(1) have ne: "x1 \<noteq> x2"
    by simp
  from a(2,6) have tl: "t < length (type_heap s1)"
    by (simp add: types_kept_def types_grow_def)
  from types_kept_built [OF b(3) tl a(8)] b(8) a(8) have cc: "c' = c"
    by (simp add: tt)
  from b(2) a(3) ne have k: "object_heap s2 ! x1 = Some X1" "x1 < length (object_heap s2)"
    by (simp_all add: others_kept_def a(4))
  have r1: "object_get_class s2 x1 = Inr (Some c)"
    using k a(7) by (simp add: object_get_class_def deref_object_def)
  have r2: "object_get_class s2 x2 = Inr (Some c)"
    using b(4,5,7) cc by (simp add: object_get_class_def deref_object_def)
  from ne r1 r2 show ?thesis
    by blast
qed

lemma hooks_kept_refl [simp]: "hooks_kept s s"
  by (simp add: hooks_kept_def)

lemma hooks_kept_same:
  "class_heap s' = class_heap s \<Longrightarrow> trace s' = trace s \<Longrightarrow> hooks_kept s s'"
  by (simp add: hooks_kept_def)

lemma hooks_kept_trans:
  assumes "hooks_kept s s1" and "hooks_kept s1 s2"
  shows "hooks_kept s s2"
proof -
  from assms(1) obtain evs where
    a: "length (class_heap s) \<le> length (class_heap s1)" "trace s1 = trace s @ evs"
      "\<forall>e \<in> set evs. \<forall>c. ev_class e = Some c \<longrightarrow> length (class_heap s) \<le> c"
    by (auto simp: hooks_kept_def)
  from assms(2) obtain evs' where
    b: "length (class_heap s1) \<le> length (class_heap s2)" "trace s2 = trace s1 @ evs'"
      "\<forall>e \<in> set evs'. \<forall>c. ev_class e = Some c \<longrightarrow> length (class_heap s1) \<le> c"
    by (auto simp: hooks_kept_def)
  have 1: "length (class_heap s) \<le> length (class_heap s2)"
    using a(1) b(1) by simp
  have 2: "trace s2 = trace s @ (evs @ evs')"
    by (simp add: a(2) b(2))
  have 3: "\<forall>e \<in> set (evs @ evs'). \<forall>c. ev_class e = Some c \<longrightarrow> length (class_heap s) \<le> c"
    using a(1,3) b(3) by fastforce
  from 1 2 3 show ?thesis
    unfolding hooks_kept_def by blast
qed

lemma type_class_init_hooks:
  assumes "type_class_init n s p = Inr s'"
  shows "hooks_kept s s'"
proof -
  note g = type_class_init_grows [OF assms, of "{}"]
  from g have 1: "length (class_heap s) \<le> length (class_heap s')"
    by (simp add: grows_def types_grow_def)
  from g obtain evs where 2: "trace s' = trace s @ evs"
    "\<forall>e \<in> set evs. \<exists>c. ev_class e = Some c \<and> length (class_heap s) \<le> c"
    unfolding grows_def class_events_def by blast
  from 2(2) have 3: "\<forall>e \<in> set evs. \<forall>c. ev_class e = Some c \<longrightarrow> length (class_heap s) \<le> c"
    by fastforce
  from 1 2(1) 3 show ?thesis
    unfolding hooks_kept_def by blast
qed

lemma call_instance_init_hooks: "hooks_kept s (call_instance_init s ti obj)"
  by (simp add: hooks_kept_def call_instance_init_def log_event_def split: option.splits)

lemma update_object_hooks:
  "update_object s a f = Inr s' \<Longrightarrow> hooks_kept s s'"
  by (auto simp: update_object_Inr hooks_kept_def)

lemma interface_install_hooks:
  assumes "interface_install s obj io = Inr s'"
  shows "hooks_kept s s'"
proof -
  from assms obtain x s1 where
    "update_object s x (\<lambda>ob. ob\<lparr>ob_obj := Some obj\<rparr>) = Inr s1"
    "update_object s1 obj (\<lambda>ob. ob\<lparr>ob_interfaces := x # ob_interfaces ob\<rparr>) = Inr s'"
    by (auto simp: interface_install_def bind_err_Inr_iff split: option.splits if_splits)
  then show ?thesis
    by (blast intro: hooks_kept_trans update_object_hooks)
qed

lemma object_clear_hooks:
  assumes "object_clear s obj isz cls = Inr s'"
  shows "hooks_kept s s'"
proof -
  from assms obtain f where "update_object s obj f = Inr s'"
    by (auto simp: object_clear_def bind_err_Inr_iff split: if_splits)
  then show ?thesis
    by (rule update_object_hooks)
qed

lemma hooks_step_interface_init:
  assumes "new_hooks n"
  shows "interface_init_hooks (Suc n)"
  unfolding interface_init_hooks_def
proof (intro allI impI)
  fix s obj a i s'
  assume "object_interface_init (Suc n) s obj a i = Inr s'"
  then obtain name s1 x io where
    nw: "object_new n s (Some name) = Inr (s1, x)"
    and ins: "interface_install s1 obj io = Inr s'"
    by (auto simp: bind_err_Inr_iff)
  from assms nw have "hooks_kept s s1"
    unfolding new_hooks_def by blast
  then show "hooks_kept s s'"
    by (rule hooks_kept_trans [OF _ interface_install_hooks [OF ins]])
qed

lemma hooks_loop:
  assumes "interface_init_hooks n"
    and "for_each (\<lambda>s' i. object_interface_init n s' obj a i) s xs = Inr s'"
  shows "hooks_kept s s'"
  using assms(2)
proof (induction xs arbitrary: s)
  case Nil
  then show ?case by simp
next
  case (Cons i xs)
  from Cons.prems obtain sm where
    st: "object_interface_init n s obj a i = Inr sm"
    and rest: "for_each (\<lambda>s' i. object_interface_init n s' obj a i) sm xs = Inr s'"
    by (auto split: sum.splits)
  from assms(1) st have "hooks_kept s sm"
    unfolding interface_init_hooks_def by blast
  then show ?case
    by (rule hooks_kept_trans [OF _ Cons.IH [OF rest]])
qed

lemma hooks_step_init:
  assumes "init_hooks n" and "interface_init_hooks n"
  shows "init_hooks (Suc n)"
  unfolding init_hooks_def
proof (intro allI impI)
  fix s obj tn s'
  assume "object_init (Suc n) s obj tn = Inr s'"
  then obtain t ti s1 s2 where
    p: "(if ti_parent ti \<noteq> None then object_init n s obj (ti_parent ti) else Inr s) = Inr s1"
    and l: "for_each (\<lambda>s' i. object_interface_init n s' obj t i) s1 [0..<num_interfaces ti] = Inr s2"
    and s': "s' = call_instance_init s2 ti obj"
    by (auto simp: bind_err_Inr_iff split: option.splits)
  have 1: "hooks_kept s s1"
  proof (cases "ti_parent ti = None")
    case True
    with p show ?thesis by simp
  next
    case False
    with p have "object_init n s obj (ti_parent ti) = Inr s1" by simp
    with assms(1) show ?thesis
      unfolding init_hooks_def by blast
  qed
  note 2 = hooks_loop [OF assms(2) l]
  have 3: "hooks_kept s2 s'"
    unfolding s' by (rule call_instance_init_hooks)
  show "hooks_kept s s'"
    by (rule hooks_kept_trans [OF hooks_kept_trans [OF 1 2] 3])
qed

lemma hooks_step_initialize:
  assumes "init_hooks n"
  shows "initialize_hooks (Suc n)"
  unfolding initialize_hooks_def
proof (intro allI impI)
  fix s obj tn s'
  assume "object_initialize (Suc n) s obj tn = Inr s'"
  then obtain ti s1 ti1 s2 where
    ti: "deref_type s (type_get_by_name s tn) = Inr ti"
    and c: "type_class_init n s (type_get_by_name s tn) = Inr s1"
    and ti1: "deref_type s1 (type_get_by_name s tn) = Inr ti1"
    and cl: "object_clear s1 obj (ti_instance_size ti1) (ti_class ti1) = Inr s2"
    and i: "object_init n s2 obj tn = Inr s'"
    by (auto simp: bind_err_Inr_iff split: if_splits)
  from assms i have 3: "hooks_kept s2 s'"
    unfolding init_hooks_def by blast
  show "hooks_kept s s'"
    by (rule hooks_kept_trans [OF hooks_kept_trans
          [OF type_class_init_hooks [OF c] object_clear_hooks [OF cl]] 3])
qed

lemma hooks_step_new:
  assumes "initialize_hooks n"
  shows "new_hooks (Suc n)"
  unfolding new_hooks_def
proof (intro allI impI)
  fix s tn s' x
  assume "object_new (Suc n) s tn = Inr (s', x)"
  then obtain sz where i: "object_initialize n (fst (g_malloc_object s sz)) (length (object_heap s)) tn = Inr s'"
    by (auto simp: bind_err_Inr_iff g_malloc_object_def)
  have 1: "hooks_kept s (fst (g_malloc_object s sz))"
    by (rule hooks_kept_same) (simp_all add: g_malloc_object_def)
  from assms i have 2: "hooks_kept (fst (g_malloc_object s sz)) s'"
    unfolding initialize_hooks_def by blast
  show "hooks_kept s s'"
    by (rule hooks_kept_trans [OF 1 2])
qed

lemma lifecycle_hooks:
  "interface_init_hooks n \<and> init_hooks n \<and> initialize_hooks n \<and> new_hooks n"
proof (induction n)
  case 0
  show ?case
    by (simp add: interface_init_hooks_def init_hooks_def initialize_hooks_def new_hooks_def)
next
  case (Suc n)
  then show ?case
    by (intro conjI hooks_step_interface_init hooks_step_init hooks_step_initialize
        hooks_step_new) simp_all
qed



lemma class_init_on_class: "class_init_on c e \<Longrightarrow> ev_class e = Some c"
  by (cases e) simp_all

lemma type_class_init_valid:
  "type_class_init n s p = Inr s' \<Longrightarrow> \<exists>a. p = Some a \<and> a < length (type_heap s)"
  by (cases n; cases p) (auto simp: bind_err_Inr_iff deref_type_Inr_iff)

text \<open>
  The first class build of a type: its class object is the first one that the build
  allocates; of the hooks that the build calls, one at most is a \<^verbatim>\<open>class_init\<close> on this
  class object.
\<close>

lemma type_class_init_own_hooks:
  assumes run: "type_class_init n s (Some a) = Inr s'"
    and a: "a < length (type_heap s)" and unbuilt: "ti_class (type_heap s ! a) = None"
  shows "ti_class (type_heap s' ! a) = Some (length (class_heap s)) \<and>
     length (class_heap s) < length (class_heap s') \<and>
     oc_type (class_heap s' ! length (class_heap s)) = a \<and>
     (\<exists>evs. trace s' = trace s @ evs \<and>
        length (filter (class_init_on (length (class_heap s))) evs) \<le> 1)"
proof -
  let ?c = "length (class_heap s)"
  from type_class_init_steps [OF run a unbuilt] obtain m s4 s5 s6 evs where
    tg: "types_grow ?c {a} s s4" and
    tr4: "trace s4 = trace s @ evs" and
    evs: "\<forall>e\<in>set evs. \<exists>c'. ev_class e = Some c' \<and> ?c < c'" and
    c4: "ti_class (type_heap s4 ! a) = Some ?c" and
    l4: "?c < length (class_heap s4)" "oc_type (class_heap s4 ! ?c) = a" and
    s5: "type_class_base_init m s4 a (ti_parent (type_heap s ! a)) = Inr s5" and
    s6: "class_interfaces s5 a = Inr s6" and
    s': "class_call_init s6 a = Inr s'"
    by (elim exE conjE) (rule that)
  from types_grow_static [OF tg a] have a4: "a < length (type_heap s4)"
    by simp
  from type_class_base_init_trace [OF s5 a4 c4] obtain ts where
    tr5: "trace s5 = trace s4 @ concat (map (\<lambda>t. base_init_event t ?c) (rev ts))" and
    f5: "type_heap s5 = type_heap s4"
    by auto
  from type_class_base_init_grows [OF s5 a4 c4 order_refl, of "{}"]
  have g5: "types_grow ?c {} s4 s5"
    by (simp add: grows_def)
  from g5 l4 have l5: "?c < length (class_heap s5)" "oc_type (class_heap s5 ! ?c) = a"
    by (simp_all add: types_grow_def)
  from class_interfaces_frame [OF s6] obtain ifs where
    tr6: "trace s6 = trace s5" and h6: "class_heap s6 = class_heap s5" and
    a6: "a < length (type_heap s6)" and
    t6: "type_heap s6 ! a = (type_heap s5 ! a)\<lparr>ti_interfaces := ifs\<rparr>"
    by auto
  have c6: "ti_class (type_heap s6 ! a) = Some ?c"
    using t6 f5 c4 by simp
  from class_call_init_trace [OF s' c6] have
    tr': "trace s' = trace s6 @ class_init_event (type_heap s6 ! a) ?c" and
    f': "type_heap s' = type_heap s6"
    by auto
  from class_call_init_grows [OF s' c6 order_refl, of "{}"]
  have g': "types_grow ?c {} s6 s'"
    by (simp add: grows_def)
  from g' l5 h6 have l': "?c < length (class_heap s')" "oc_type (class_heap s' ! ?c) = a"
    by (simp_all add: types_grow_def)
  have r1: "ti_class (type_heap s' ! a) = Some ?c"
    using f' c6 by simp
  let ?bs = "concat (map (\<lambda>t. base_init_event t ?c) (rev ts))"
  let ?ci = "class_init_event (type_heap s6 ! a) ?c"
  have tr: "trace s' = trace s @ (evs @ ?bs @ ?ci)"
    using tr' tr6 tr5 tr4 by simp
  have n1: "filter (class_init_on ?c) evs = []"
  proof -
    have "\<not> class_init_on ?c e" if "e \<in> set evs" for e
    proof
      assume "class_init_on ?c e"
      then have "ev_class e = Some ?c"
        by (rule class_init_on_class)
      moreover from evs that obtain c' where "ev_class e = Some c'" "?c < c'"
        by blast
      ultimately show False
        by simp
    qed
    then show ?thesis
      by (simp add: filter_empty_conv)
  qed
  have n2: "filter (class_init_on ?c) ?bs = []"
    by (auto simp: filter_empty_conv base_init_event_def split: option.splits)
  have n3: "length (filter (class_init_on ?c) ?ci) \<le> 1"
    by (simp add: class_init_event_def split: option.splits)
  have r2: "length (filter (class_init_on ?c) (evs @ ?bs @ ?ci)) \<le> 1"
    using n3 by (simp add: n1 n2)
  from tr r2 have r3: "\<exists>evs. trace s' = trace s @ evs \<and>
        length (filter (class_init_on ?c) evs) \<le> 1"
    by blast
  from r1 l' r3 show ?thesis
    by simp
qed

text \<open>
  \<^verbatim>\<open>object_initialize\<close> and \<^verbatim>\<open>object_new\<close> start with the class build of their type;
  what they do after it leaves the built descriptors and the class objects alone.
\<close>

lemma object_initialize_build:
  assumes "object_initialize n s obj tn = Inr s'"
  shows "\<exists>m t sa. n = Suc m \<and> type_get_by_name s tn = Some t \<and> t < length (type_heap s) \<and>
     type_class_init m s (Some t) = Inr sa \<and> object_heap sa = object_heap s \<and>
     types_kept sa s' \<and> hooks_kept sa s'"
proof (cases n)
  case 0
  with assms show ?thesis
    by simp
next
  case (Suc m)
  from assms have "\<exists>t sa isz cls sb. type_get_by_name s tn = Some t \<and>
      t < length (type_heap s) \<and> type_class_init m s (Some t) = Inr sa \<and>
      object_clear sa obj isz cls = Inr sb \<and> object_init m sb obj tn = Inr s'"
    unfolding Suc by (fastforce simp: bind_err_Inr_iff deref_type_Inr_iff split: if_splits)
  then obtain t sa isz cls sb where
    t: "type_get_by_name s tn = Some t" "t < length (type_heap s)" and
    c: "type_class_init m s (Some t) = Inr sa" and
    cl: "object_clear sa obj isz cls = Inr sb" and
    run: "object_init m sb obj tn = Inr s'"
    by blast
  from object_clear_Inr [OF cl] obtain ob ob' where
    o: "obj < length (object_heap sa)" and
    sb: "sb = sa\<lparr>object_heap := (object_heap sa)[obj := Some ob']\<rparr>"
    by blast
  from sb have k1: "types_kept sa sb"
    by (simp add: types_kept_same)
  note h1 = object_clear_hooks [OF cl]
  from o sb have o': "obj < length (object_heap sb)" "object_heap sb ! obj = Some ob'"
    by simp_all
  from lifecycle_ok [of m] have "init_ok m"
    by simp
  with run o' have k2: "types_kept sb s'"
    unfolding init_ok_def by blast
  from lifecycle_hooks [of m] have "init_hooks m"
    by simp
  with run have h2: "hooks_kept sb s'"
    unfolding init_hooks_def by blast
  note k = types_kept_trans [OF k1 k2]
  note h = hooks_kept_trans [OF h1 h2]
  note oh = conjunct2 [OF type_class_init_kept [OF c]]
  show ?thesis
    by (rule exI [of _ m], rule exI [of _ t], rule exI [of _ sa], intro conjI)
      (rule Suc t c oh k h)+
qed

lemma object_new_build:
  assumes "object_new n s tn = Inr (s', x)"
  shows "\<exists>m t s0 sa. n = Suc (Suc m) \<and> type_get_by_name s tn = Some t \<and>
     t < length (type_heap s) \<and>
     type_heap s0 = type_heap s \<and> class_heap s0 = class_heap s \<and> trace s0 = trace s \<and>
     type_class_init m s0 (Some t) = Inr sa \<and> types_kept sa s' \<and> hooks_kept sa s'"
proof (cases n)
  case 0
  with assms show ?thesis
    by simp
next
  case (Suc k)
  define s0 where
    "s0 = fst (g_malloc_object s (ti_instance_size (type_heap s ! the (type_get_by_name s tn))))"
  from assms obtain t where t: "type_get_by_name s tn = Some t" "t < length (type_heap s)"
    and i: "object_initialize k s0 x tn = Inr s'"
    unfolding Suc
    by (auto simp: bind_err_Inr_iff deref_type_Inr_iff g_malloc_object_def s0_def
        simp del: object_initialize.simps)
  have h0: "type_heap s0 = type_heap s" "class_heap s0 = class_heap s" "trace s0 = trace s"
    "type_table s0 = type_table s"
    by (simp_all add: s0_def g_malloc_object_def)
  have tt: "type_get_by_name s0 tn = Some t"
    using type_get_by_name_table [OF h0(4), of tn] t(1) by simp
  from object_initialize_build [OF i] tt obtain m sa where
    b: "k = Suc m" "type_class_init m s0 (Some t) = Inr sa" "types_kept sa s'" "hooks_kept sa s'"
    by auto
  have n: "n = Suc (Suc m)"
    using Suc b(1) by simp
  show ?thesis
    by (rule exI [of _ m], rule exI [of _ t], rule exI [of _ s0], rule exI [of _ sa], intro conjI)
      (rule n t h0(1-3) b(2-))+
qed

lemma first_build:
  assumes run: "type_class_init m s0 (Some t) = Inr sa"
    and same: "type_heap s0 = type_heap s" "class_heap s0 = class_heap s" "trace s0 = trace s"
    and t: "t < length (type_heap s)" and unbuilt: "ti_class (type_heap s ! t) = None"
    and k: "types_kept sa s'" and h: "hooks_kept sa s'"
  shows "t < length (type_heap s') \<and>
     ti_class (type_heap s' ! t) = Some (length (class_heap s)) \<and>
     length (class_heap s) < length (class_heap s') \<and>
     oc_type (class_heap s' ! length (class_heap s)) = t \<and>
     (\<exists>evs. trace s' = trace s @ evs \<and>
        length (filter (class_init_on (length (class_heap s))) evs) \<le> 1)"
proof -
  let ?c = "length (class_heap s)"
  have t0: "t < length (type_heap s0)" "ti_class (type_heap s0 ! t) = None"
    using t unbuilt same(1) by simp_all
  from type_class_init_own_hooks [OF run t0] same obtain evs where
    a: "?c < length (class_heap sa)" "oc_type (class_heap sa ! ?c) = t"
      "trace sa = trace s @ evs" "length (filter (class_init_on ?c) evs) \<le> 1"
    and ca: "ti_class (type_heap sa ! t) = Some ?c"
    by auto
  from type_class_init_built [OF run] have ta: "t < length (type_heap sa)"
    by simp
  from types_kept_built [OF k ta ca] ca
  have r0: "t < length (type_heap s')" "ti_class (type_heap s' ! t) = Some ?c"
    by simp_all
  from k a(1,2) have r1: "?c < length (class_heap s')" "oc_type (class_heap s' ! ?c) = t"
    by (auto simp: types_kept_def types_grow_def)
  from h obtain evs' where
    b: "trace s' = trace sa @ evs'"
      "\<forall>e \<in> set evs'. \<forall>c. ev_class e = Some c \<longrightarrow> length (class_heap sa) \<le> c"
    by (auto simp: hooks_kept_def)
  have n: "\<not> class_init_on ?c e" if "e \<in> set evs'" for e
  proof
    assume "class_init_on ?c e"
    then have "ev_class e = Some ?c"
      by (rule class_init_on_class)
    with b(2) that have "length (class_heap sa) \<le> ?c"
      by blast
    with a(1) show False
      by simp
  qed
  then have "filter (class_init_on ?c) evs' = []"
    by (simp add: filter_empty_conv)
  with a(4) have "length (filter (class_init_on ?c) (evs @ evs')) \<le> 1"
    by simp
  moreover have "trace s' = trace s @ (evs @ evs')"
    using b(1) a(3) by simp
  ultimately have "\<exists>evs. trace s' = trace s @ evs \<and>
        length (filter (class_init_on ?c) evs) \<le> 1"
    by blast
  with r0 r1 show ?thesis
    by simp
qed

text \<open>
  An operation that forces the class build of a type whose class is not built yet: the
  class object is the first one that the operation allocates, and of the hooks that the
  operation calls one at most is a \<^verbatim>\<open>class_init\<close> on it.
\<close>

lemma force_first:
  assumes run: "force n s f = Inr (s', x)"
    and t: "forced_type s f = Some t" and unbuilt: "ti_class (type_heap s ! t) = None"
  shows "t < length (type_heap s') \<and>
     ti_class (type_heap s' ! t) = Some (length (class_heap s)) \<and>
     length (class_heap s) < length (class_heap s') \<and>
     oc_type (class_heap s' ! length (class_heap s)) = t \<and>
     (\<exists>evs. trace s' = trace s @ evs \<and>
        length (filter (class_init_on (length (class_heap s))) evs) \<le> 1)"
proof (cases f)
  case (Class_build p)
  with run t have r: "type_class_init n s (Some t) = Inr s'"
    by (auto simp: bind_err_Inr_iff)
  from type_class_init_valid [OF r] have "t < length (type_heap s)"
    by simp
  from first_build [OF r refl refl refl this unbuilt types_kept_refl hooks_kept_refl]
  show ?thesis .
next
  case (Initialize obj tn)
  with run have r: "object_initialize n s obj tn = Inr s'"
    by (auto simp: bind_err_Inr_iff)
  from object_initialize_build [OF r] t Initialize obtain m sa where
    b: "t < length (type_heap s)" "type_class_init m s (Some t) = Inr sa"
      "types_kept sa s'" "hooks_kept sa s'"
    by auto
  from first_build [OF b(2) refl refl refl b(1) unbuilt b(3,4)]
  show ?thesis .
next
  case (New tn)
  with run obtain y where r: "object_new n s tn = Inr (s', y)"
    by (auto simp: bind_err_Inr_iff)
  from object_new_build [OF r] t New obtain m s0 sa where
    b: "t < length (type_heap s)" "type_heap s0 = type_heap s" "class_heap s0 = class_heap s"
      "trace s0 = trace s" "type_class_init m s0 (Some t) = Inr sa"
      "types_kept sa s'" "hooks_kept sa s'"
    by auto
  from first_build [OF b(5) b(2-4) b(1) unbuilt b(6,7)]
  show ?thesis .
qed

text \<open>
  Every operation that forces a class build leaves the type with a class, which is the
  class of the instance that it has initialised; the built descriptors and the class
  objects that exist stay as they are, and the hooks go to new class objects.
\<close>

lemma force_kept:
  assumes "force n s f = Inr (s', x)"
  shows "types_kept s s' \<and> hooks_kept s s' \<and>
     (\<exists>t c. forced_type s f = Some t \<and> t < length (type_heap s') \<and>
        ti_class (type_heap s' ! t) = Some c \<and>
        (\<forall>obj. x = Some obj \<longrightarrow> object_get_class s' obj = Inr (Some c)))"
proof (cases f)
  case (Class_build p)
  with assms have r: "type_class_init n s p = Inr s'" and x: "x = None"
    by (auto simp: bind_err_Inr_iff)
  from type_class_init_built [OF r] type_class_init_kept [OF r] type_class_init_hooks [OF r]
  show ?thesis
    by (simp add: Class_build x)
next
  case (Initialize obj tn)
  with assms have r: "object_initialize n s obj tn = Inr s'" and x: "x = Some obj"
    by (auto simp: bind_err_Inr_iff)
  from lifecycle_ok [of n] have "initialize_ok n" by simp
  with r obtain t c ob' where k: "types_kept s s'"
    and t: "type_get_by_name s tn = Some t" "t < length (type_heap s)"
      "ti_class (type_heap s' ! t) = Some c"
    and o: "others_kept obj s s'" "obj < length (object_heap s)"
      "object_heap s' ! obj = Some ob'" "ob_class ob' = Some c"
    unfolding initialize_ok_def by blast
  from lifecycle_hooks [of n] have "initialize_hooks n" by simp
  with r have h: "hooks_kept s s'"
    unfolding initialize_hooks_def by blast
  from k t(2) have t': "t < length (type_heap s')"
    by (simp add: types_kept_def types_grow_def)
  from o(1,2) have "obj < length (object_heap s')"
    by (simp add: others_kept_def)
  with o(3,4) have g: "object_get_class s' obj = Inr (Some c)"
    by (simp add: object_get_class_def deref_object_def)
  from k h t t' g show ?thesis
    by (simp add: Initialize x)
next
  case (New tn)
  with assms obtain y where r: "object_new n s tn = Inr (s', y)" and x: "x = Some y"
    by (auto simp: bind_err_Inr_iff)
  from lifecycle_ok [of n] have "new_ok n" by simp
  with r obtain t c X where k: "types_kept s s'"
    and t: "type_get_by_name s tn = Some t" "t < length (type_heap s)"
      "ti_class (type_heap s' ! t) = Some c"
    and o: "y < length (object_heap s')" "object_heap s' ! y = Some X" "ob_class X = Some c"
    unfolding new_ok_def by blast
  from lifecycle_hooks [of n] have "new_hooks n" by simp
  with r have h: "hooks_kept s s'"
    unfolding new_hooks_def by blast
  from k t(2) have t': "t < length (type_heap s')"
    by (simp add: types_kept_def types_grow_def)
  from o have g: "object_get_class s' y = Inr (Some c)"
    by (simp add: object_get_class_def deref_object_def)
  from k h t t' g show ?thesis
    by (simp add: New x)
qed

lemma force_all_kept:
  "force_all s gs = Inr s' \<Longrightarrow> types_kept s s' \<and> hooks_kept s s'"
proof (induction gs arbitrary: s)
  case Nil
  then show ?case
    by (simp add: force_all_def)
next
  case (Cons g gs)
  obtain m f where g: "g = (m, f)"
    by (cases g)
  from Cons.prems obtain s1 x where
    1: "force m s f = Inr (s1, x)" and 2: "force_all s1 gs = Inr s'"
    by (auto simp: force_all_def g bind_err_Inr_iff split: sum.splits prod.splits)
  from force_kept [OF 1] Cons.IH [OF 2] show ?case
    by (auto intro: types_kept_trans hooks_kept_trans)
qed

section \<open>The claims\<close>

subsection \<open>C1: the order of the finalizers\<close>

text \<open>
  Claim C1 says that \<^verbatim>\<open>delete\<close> calls \<^verbatim>\<open>instance_finalize\<close> for Leaf, Mid and Root,
  in this order, and no \<^verbatim>\<open>instance_init\<close>. The code does not: \<^verbatim>\<open>object_deinit\<close>
  calls the finalizer of the most derived type only, and then, at line 321,
  \<^verbatim>\<open>object_init\<close> on the parent, where a recursive \<^verbatim>\<open>object_deinit\<close> was meant. On
  the chain Root, Mid, Leaf, \<^verbatim>\<open>new\<close> followed by \<^verbatim>\<open>delete\<close> calls the instance hooks in
  the order below: after the finalizer of Leaf, the initializers of Root and Mid run
  again, and the finalizers of Mid and Root never run.
\<close>

theorem object_delete_runs_parent_init:
  "map_sum id (\<lambda>s. filter (\<lambda>e. ev_class e = None) (trace s)) (new_then_delete 6 chain_state ''Leaf'') =
     Inr [Ev_instance_init ''Root'' 0, Ev_instance_init ''Mid'' 0, Ev_instance_init ''Leaf'' 0,
          Ev_instance_finalize ''Leaf'' 0,
          Ev_instance_init ''Root'' 0, Ev_instance_init ''Mid'' 0]"
  by code_simp

subsection \<open>C5: a class is built once\<close>

text \<open>
  Claim C5 says that class construction is idempotent, and that the \<^verbatim>\<open>base_init\<close> and
  \<^verbatim>\<open>class_init\<close> hooks of a type run at most once per process. For \<^verbatim>\<open>base_init\<close>
  this is not so: the class build of every descendant of a type walks up to the type and
  calls its \<^verbatim>\<open>base_init\<close>, on the class object of the descendant
  (\<^verbatim>\<open>type_class_base_init\<close>, lines 174 to 189). In the chain Root, Mid, Leaf below an
  instance of Root is made, then an instance of Leaf. The class of Root is object 0; the
  second \<^verbatim>\<open>object_new\<close> builds the class of Leaf, object 1, and in it the class of
  Mid, object 2. The \<^verbatim>\<open>base_init\<close> of Root has then run twice, on the class of Mid and
  on the class of Leaf.
\<close>

theorem base_init_runs_per_descendant_counterexample:
  "map_sum id (\<lambda>(s2, x). (filter (base_init_of ''Root'') (trace s2), map ti_class (type_heap s2)))
     (bind_err (object_new 6 chain_state (Some ''Root''))
        (\<lambda>(s1, x). object_new 6 s1 (Some ''Leaf''))) =
   Inr ([Ev_base_init ''Root'' 2, Ev_base_init ''Root'' 1], [None, Some 0, Some 2, Some 1])"
  by code_simp

text \<open>
  Claim C5 as amended: class construction is idempotent, and no hook runs again on a
  class that is built; the \<^verbatim>\<open>base_init\<close> of a type runs again in the class build of
  each descendant, on the class object of the descendant.

  Take an operation \<open>f\<close> that forces the class build of the type \<open>t\<close>, then any operations
  \<open>gs\<close> that force class builds, then one more, \<open>g\<close>; all return. After \<open>f\<close>, \<open>t\<close> has
  its class object \<open>c\<close>, the instance that \<open>f\<close> has initialised, if any, has the class
  \<open>c\<close>, and a class build of \<open>t\<close> (with any fuel but none) returns at once with the state
  unchanged. After \<open>gs\<close>, and after \<open>g\<close>, the descriptor of \<open>t\<close> is as it was after
  \<open>f\<close>, with the same class pointer; if \<open>g\<close> forces the class build of \<open>t\<close> too, the
  instance that \<open>g\<close> has initialised, if any, has the same class \<open>c\<close> as that of \<open>f\<close>.
  Every descriptor that had its class after \<open>f\<close>, and every class object that existed
  then, is as it was; and every class hook that \<open>gs\<close> and \<open>g\<close> have run was run on a
  class object allocated after \<open>f\<close>.

  When \<open>t\<close> had no class before \<open>f\<close>, so that \<open>f\<close> is the operation that has built it:
  \<open>c\<close> is the first class object that \<open>f\<close> has allocated, its type is \<open>t\<close>, \<open>f\<close> has
  called a \<^verbatim>\<open>class_init\<close> on \<open>c\<close> once at most, and \<open>gs\<close> and \<open>g\<close> have called no hook
  on \<open>c\<close>.
\<close>

theorem class_build_idempotent:
  assumes f: "force n s f = Inr (s1, o1)" and t: "forced_type s f = Some t"
    and gs: "force_all s1 gs = Inr s2"
    and g: "force m s2 g = Inr (s3, o3)"
  shows "\<exists>c. t < length (type_heap s1) \<and> ti_class (type_heap s1 ! t) = Some c \<and>
     (\<forall>x. o1 = Some x \<longrightarrow> object_get_class s1 x = Inr (Some c)) \<and>
     type_class_init (Suc k) s1 (Some t) = Inr s1 \<and>
     type_heap s2 ! t = type_heap s1 ! t \<and> type_heap s3 ! t = type_heap s1 ! t \<and>
     (forced_type s2 g = Some t \<longrightarrow>
        (\<forall>x. o3 = Some x \<longrightarrow> object_get_class s3 x = Inr (Some c))) \<and>
     (\<forall>b < length (type_heap s1). \<forall>c'. ti_class (type_heap s1 ! b) = Some c' \<longrightarrow>
        type_heap s3 ! b = type_heap s1 ! b) \<and>
     (\<forall>c' < length (class_heap s1). class_heap s3 ! c' = class_heap s1 ! c') \<and>
     (\<exists>evs. trace s3 = trace s1 @ evs \<and>
        (\<forall>e \<in> set evs. \<forall>c'. ev_class e = Some c' \<longrightarrow> length (class_heap s1) \<le> c')) \<and>
     (ti_class (type_heap s ! t) = None \<longrightarrow>
        c = length (class_heap s) \<and> c < length (class_heap s1) \<and>
        oc_type (class_heap s1 ! c) = t \<and> class_heap s3 ! c = class_heap s1 ! c \<and>
        (\<exists>evs1 evs. trace s1 = trace s @ evs1 \<and> trace s3 = trace s1 @ evs \<and>
           length (filter (class_init_on c) evs1) \<le> 1 \<and>
           (\<forall>e \<in> set evs. ev_class e \<noteq> Some c)))"
proof -
  from force_kept [OF f] t obtain c where
    c: "t < length (type_heap s1)" "ti_class (type_heap s1 ! t) = Some c"
      "\<forall>x. o1 = Some x \<longrightarrow> object_get_class s1 x = Inr (Some c)"
    by auto
  note k12 = conjunct1 [OF force_all_kept [OF gs]]
  note h12 = conjunct2 [OF force_all_kept [OF gs]]
  note k23 = conjunct1 [OF force_kept [OF g]]
  note h23 = conjunct1 [OF conjunct2 [OF force_kept [OF g]]]
  note k = types_kept_trans [OF k12 k23]
  note h = hooks_kept_trans [OF h12 h23]
  have 1: "type_class_init (Suc k) s1 (Some t) = Inr s1"
    using c(1,2) by (simp add: deref_type_def)
  note 2 = conjunct2 [OF types_kept_built [OF k12 c(1,2)]]
  note 3 = conjunct2 [OF types_kept_built [OF k c(1,2)]]
  have 4: "forced_type s2 g = Some t \<longrightarrow>
        (\<forall>x. o3 = Some x \<longrightarrow> object_get_class s3 x = Inr (Some c))"
  proof
    assume a: "forced_type s2 g = Some t"
    from force_kept [OF g] a obtain c' where
      b: "ti_class (type_heap s3 ! t) = Some c'"
        "\<forall>x. o3 = Some x \<longrightarrow> object_get_class s3 x = Inr (Some c')"
      by auto
    from b(1) 3 c(2) have "c' = c"
      by simp
    with b(2) show "\<forall>x. o3 = Some x \<longrightarrow> object_get_class s3 x = Inr (Some c)"
      by simp
  qed
  from k have 5: "\<forall>b < length (type_heap s1). \<forall>c'. ti_class (type_heap s1 ! b) = Some c' \<longrightarrow>
        type_heap s3 ! b = type_heap s1 ! b"
    and 6: "\<forall>c' < length (class_heap s1). class_heap s3 ! c' = class_heap s1 ! c'"
    by (auto simp: types_kept_def types_grow_def)
  from h obtain evs where ev: "trace s3 = trace s1 @ evs"
    "\<forall>e \<in> set evs. \<forall>c'. ev_class e = Some c' \<longrightarrow> length (class_heap s1) \<le> c'"
    by (auto simp: hooks_kept_def)
  then have 7: "\<exists>evs. trace s3 = trace s1 @ evs \<and>
        (\<forall>e \<in> set evs. \<forall>c'. ev_class e = Some c' \<longrightarrow> length (class_heap s1) \<le> c')"
    by blast
  have 8: "ti_class (type_heap s ! t) = None \<longrightarrow>
        c = length (class_heap s) \<and> c < length (class_heap s1) \<and>
        oc_type (class_heap s1 ! c) = t \<and> class_heap s3 ! c = class_heap s1 ! c \<and>
        (\<exists>evs1 evs. trace s1 = trace s @ evs1 \<and> trace s3 = trace s1 @ evs \<and>
           length (filter (class_init_on c) evs1) \<le> 1 \<and>
           (\<forall>e \<in> set evs. ev_class e \<noteq> Some c))"
  proof
    assume unbuilt: "ti_class (type_heap s ! t) = None"
    from force_first [OF f t unbuilt] obtain evs1 where
      a: "ti_class (type_heap s1 ! t) = Some (length (class_heap s))"
        "length (class_heap s) < length (class_heap s1)"
        "oc_type (class_heap s1 ! length (class_heap s)) = t"
        "trace s1 = trace s @ evs1"
        "length (filter (class_init_on (length (class_heap s))) evs1) \<le> 1"
      by auto
    from a(1) c(2) have e: "c = length (class_heap s)"
      by simp
    have l: "c < length (class_heap s1)"
      using a(2) e by simp
    from ev(2) l have n: "\<forall>e \<in> set evs. ev_class e \<noteq> Some c"
      by auto
    have "\<exists>evs1 evs. trace s1 = trace s @ evs1 \<and> trace s3 = trace s1 @ evs \<and>
           length (filter (class_init_on c) evs1) \<le> 1 \<and>
           (\<forall>e \<in> set evs. ev_class e \<noteq> Some c)"
      using a(4,5) ev(1) n unfolding e by blast
    with e l a(3) 6 show "c = length (class_heap s) \<and> c < length (class_heap s1) \<and>
        oc_type (class_heap s1 ! c) = t \<and> class_heap s3 ! c = class_heap s1 ! c \<and>
        (\<exists>evs1 evs. trace s1 = trace s @ evs1 \<and> trace s3 = trace s1 @ evs \<and>
           length (filter (class_init_on c) evs1) \<le> 1 \<and>
           (\<forall>e \<in> set evs. ev_class e \<noteq> Some c))"
      by simp
  qed
  show ?thesis
    by (rule exI [of _ c], intro conjI) (rule c 1 2 3 4 5 6 7 8)+
qed

theorem class_build_idempotent_witness:
  "\<exists>s1 s2 s3. force 6 chain_state (New (Some ''Leaf'')) = Inr (s1, Some 0) \<and>
      force_all s1 [(4, Class_build (Some 3)), (6, New (Some ''Mid''))] = Inr s2 \<and>
      force 6 s2 (New (Some ''Leaf'')) = Inr (s3, Some 2) \<and>
      ti_class (type_heap s1 ! 3) = Some 0 \<and> oc_type (class_heap s1 ! 0) = 3 \<and>
      type_heap s2 ! 3 = type_heap s1 ! 3 \<and> type_heap s3 ! 3 = type_heap s1 ! 3 \<and>
      class_heap s3 ! 0 = class_heap s1 ! 0 \<and>
      object_get_class s1 0 = Inr (Some 0) \<and> object_get_class s3 2 = Inr (Some 0) \<and>
      type_class_init (Suc 0) s1 (Some 3) = Inr s1 \<and>
      (\<exists>evs1 evs. trace s1 = trace chain_state @ evs1 \<and> trace s3 = trace s1 @ evs \<and>
         length (filter (class_init_on 0) evs1) \<le> 1 \<and>
         (\<forall>e \<in> set evs. ev_class e \<noteq> Some 0))"
proof -
  define F1 where "F1 = force 6 chain_state (New (Some ''Leaf''))"
  define F2 where "F2 = (\<lambda>s1. force_all s1 [(4, Class_build (Some 3)), (6, New (Some ''Mid''))])"
  define F3 where "F3 = (\<lambda>s2. force 6 s2 (New (Some ''Leaf'')))"
  define T3 where "T3 = (\<lambda>s2. forced_type s2 (New (Some ''Leaf'')))"
  have "case F1 of Inl e \<Rightarrow> False
        | Inr p1 \<Rightarrow> snd p1 = Some 0 \<and>
           (case F2 (fst p1) of Inl e \<Rightarrow> False
            | Inr s2 \<Rightarrow> T3 s2 = Some 3 \<and>
               (case F3 s2 of Inl e \<Rightarrow> False | Inr p3 \<Rightarrow> snd p3 = Some 2))"
    unfolding F1_def F2_def F3_def T3_def by code_simp
  then obtain p1 s2 p3 where p: "F1 = Inr p1" "snd p1 = Some 0" "F2 (fst p1) = Inr s2"
    "T3 s2 = Some 3" "F3 s2 = Inr p3" "snd p3 = Some 2"
    by (auto split: sum.splits)
  define s1 where "s1 = fst p1"
  define s3 where "s3 = fst p3"
  have q: "p1 = (s1, Some 0)" "p3 = (s3, Some 2)"
    using p(2,6) by (simp_all add: s1_def s3_def prod_eq_iff)
  from p(1,3,5,4) have r: "force 6 chain_state (New (Some ''Leaf'')) = Inr (s1, Some 0)"
    "force_all s1 [(4, Class_build (Some 3)), (6, New (Some ''Mid''))] = Inr s2"
    "force 6 s2 (New (Some ''Leaf'')) = Inr (s3, Some 2)"
    and T2: "forced_type s2 (New (Some ''Leaf'')) = Some 3"
    unfolding F1_def F2_def F3_def T3_def q fst_conv .
  have T: "forced_type chain_state (New (Some ''Leaf'')) = Some 3"
    by code_simp
  have U: "ti_class (type_heap chain_state ! 3) = None" "length (class_heap chain_state) = 0"
    by code_simp+
  from class_build_idempotent [OF r(1) T r(2,3), of 0] obtain c evs where
    h: "3 < length (type_heap s1)" "ti_class (type_heap s1 ! 3) = Some c"
      "\<forall>x. Some 0 = Some x \<longrightarrow> object_get_class s1 x = Inr (Some c)"
      "type_class_init (Suc 0) s1 (Some 3) = Inr s1"
      "type_heap s2 ! 3 = type_heap s1 ! 3" "type_heap s3 ! 3 = type_heap s1 ! 3"
      "forced_type s2 (New (Some ''Leaf'')) = Some 3 \<longrightarrow>
        (\<forall>x. Some 2 = Some x \<longrightarrow> object_get_class s3 x = Inr (Some c))"
      "\<forall>b < length (type_heap s1). \<forall>c'. ti_class (type_heap s1 ! b) = Some c' \<longrightarrow>
        type_heap s3 ! b = type_heap s1 ! b"
      "\<forall>c' < length (class_heap s1). class_heap s3 ! c' = class_heap s1 ! c'"
      "trace s3 = trace s1 @ evs"
      "\<forall>e \<in> set evs. \<forall>c'. ev_class e = Some c' \<longrightarrow> length (class_heap s1) \<le> c'"
      "ti_class (type_heap chain_state ! 3) = None \<longrightarrow>
        c = length (class_heap chain_state) \<and> c < length (class_heap s1) \<and>
        oc_type (class_heap s1 ! c) = 3 \<and> class_heap s3 ! c = class_heap s1 ! c \<and>
        (\<exists>evs1 evs. trace s1 = trace chain_state @ evs1 \<and> trace s3 = trace s1 @ evs \<and>
           length (filter (class_init_on c) evs1) \<le> 1 \<and>
           (\<forall>e \<in> set evs. ev_class e \<noteq> Some c))"
    by (elim exE conjE) (rule that)
  note hh = mp [OF h(12) U(1)]
  from hh U(2) have c: "c = 0"
    by simp
  from hh have
    j: "oc_type (class_heap s1 ! c) = 3" "class_heap s3 ! c = class_heap s1 ! c"
      "\<exists>evs1 evs. trace s1 = trace chain_state @ evs1 \<and> trace s3 = trace s1 @ evs \<and>
           length (filter (class_init_on c) evs1) \<le> 1 \<and>
           (\<forall>e \<in> set evs. ev_class e \<noteq> Some c)"
    by blast+
  from h(3) have o1: "object_get_class s1 0 = Inr (Some c)"
    by simp
  from h(7) T2 have o3: "object_get_class s3 2 = Inr (Some c)"
    by simp
  show ?thesis
    by (rule exI [of _ s1], rule exI [of _ s2], rule exI [of _ s3], intro conjI)
      (rule r h(2,4,5,6) [unfolded c] j [unfolded c] o1 [unfolded c] o3 [unfolded c])+
qed

subsection \<open>C7: a name registered twice\<close>

text \<open>
  Claim C7 says that the registration of a second type under a name that is already in
  the registry is a fatal error. It is not: \<^verbatim>\<open>type_table_add\<close> is a plain
  \<^verbatim>\<open>g_hash_table_insert\<close>, and nothing looks the name up first. Here the two
  registrations of the name \<^verbatim>\<open>dup\<close> both succeed, two descriptors are allocated, and
  the name then leads to the second one.
\<close>

theorem type_register_static_duplicate_counterexample:
  "map_sum id (\<lambda>s. (map ti_name (type_heap s), map ti_instance_size (type_heap s),
                    type_table_lookup s ''dup''))
     (register_all qom_empty [dup_info, dup_info2]) =
   Inr ([''dup'', ''dup''], [16, 24], Some 1)"
  by code_simp

text \<open>
  Claim C7 as amended: the registration of a type whose \<^verbatim>\<open>TypeInfo\<close> has a name (and at
  most \<open>MAX_INTERFACES\<close> interfaces) succeeds in every registry, also when the name is
  already there; it allocates a new descriptor and makes the name lead to it, in place of
  any earlier descriptor of that name; the entries of the other names and the
  descriptors allocated before stay as they were. The registry is a map, so that it holds
  a single descriptor for each registered name.
\<close>

theorem type_register_static_replaces:
  assumes "info_name info = Some nm"
    and "length (info_interface_list info) \<le> MAX_INTERFACES"
  shows "\<exists>s'. type_register_static s info = Inr (s', length (type_heap s)) \<and>
           type_table_lookup s' nm = Some (length (type_heap s)) \<and>
           (\<forall>nm'. nm' \<noteq> nm \<longrightarrow> type_table_lookup s' nm' = type_table_lookup s nm') \<and>
           type_heap s' = type_heap s @ [type_heap s' ! length (type_heap s)] \<and>
           ti_name (type_heap s' ! length (type_heap s)) = nm"
  using assms
  by (simp add: type_register_static_def copy_interfaces_eq g_malloc0_type_def Let_def
      type_table_add_def type_table_lookup_def info_interface_list_def)

theorem type_register_static_replaces_witness:
  "type_table_lookup (registered [dup_info]) ''dup'' = Some 0 \<and>
   (\<exists>s'. type_register_static (registered [dup_info]) dup_info2 = Inr (s', 1) \<and>
         type_table_lookup s' ''dup'' = Some 1 \<and>
         map ti_name (type_heap s') = [''dup'', ''dup''])"
proof -
  have n: "info_name dup_info2 = Some ''dup''"
    by (simp add: dup_info2_def)
  have l: "length (info_interface_list dup_info2) \<le> MAX_INTERFACES"
    by (simp add: dup_info2_def info_interface_list_def TypeInfo_zero_def)
  have h: "type_heap (registered [dup_info]) =
             [\<lparr>ti_name = ''dup'', ti_class_size = 0, ti_instance_size = 16, ti_base_init = None,
               ti_base_finalize = None, ti_class_init = None, ti_class_finalize = None,
               ti_class_data = 0, ti_instance_init = None, ti_instance_finalize = None,
               ti_abstract = False, ti_parent = None, ti_class = None, ti_interfaces = []\<rparr>]"
    by (simp add: registered_def register_all_def type_register_static_def dup_info_def
        TypeInfo_zero_def g_malloc0_type_def type_table_add_def qom_empty_def)
  have t: "type_table_lookup (registered [dup_info]) ''dup'' = Some 0"
    by (simp add: registered_def register_all_def type_register_static_def dup_info_def
        TypeInfo_zero_def g_malloc0_type_def type_table_add_def qom_empty_def
        type_table_lookup_def)
  from type_register_static_replaces [OF n l, of "registered [dup_info]"] obtain s' where
    s': "type_register_static (registered [dup_info]) dup_info2 = Inr (s', 1)"
      "type_table_lookup s' ''dup'' = Some 1"
      "type_heap s' = type_heap (registered [dup_info]) @ [type_heap s' ! 1]"
      "ti_name (type_heap s' ! 1) = ''dup''"
    by (auto simp: h)
  have m: "map ti_name (type_heap s') = [''dup'', ''dup'']"
    using arg_cong [OF s'(3), of "map ti_name"] s'(4) by (simp add: h)
  show ?thesis
    by (intro conjI exI [of _ s']) (rule t s'(1) s'(2) m)+
qed

subsection \<open>C9: more than 32 interfaces\<close>

text \<open>
  Claim C9 says that the registration of a type with more than 32 interfaces is a fatal
  error. The array \<^verbatim>\<open>interfaces\<close> of the descriptor has \<open>MAX_INTERFACES\<close> entries,
  but the loops of lines 113 and 153 copy every entry of the \<^verbatim>\<open>TypeInfo\<close> with no
  check: entry number 32 is written past the end of the array, which is the end of the
  allocation. With 33 interfaces the registration does not fail an assertion; it writes
  out of bounds.
\<close>

theorem type_register_static_too_many:
  "type_register_static qom_empty too_many_info = Inl Out_of_bounds"
  by (simp add: type_register_static_def too_many_info_def TypeInfo_zero_def copy_interfaces_eq
      MAX_INTERFACES_def)

subsection \<open>C10: the lower bound on the instance size\<close>

text \<open>
  Claim C10 says that \<^verbatim>\<open>initialize\<close> succeeds only for types whose instances are at
  least as large as the instance header \<^verbatim>\<open>Object\<close> (the class pointer and the interface
  list). The assertion of line 293 compares the instance size with
  \<^verbatim>\<open>sizeof(ObjectClass)\<close>, the size of the class header (one pointer), where
  \<^verbatim>\<open>sizeof(Object)\<close> (two pointers) is the bound that the claim states. For a type with
  an instance size of 8, \<^verbatim>\<open>new\<close> succeeds and returns an instance of 8 bytes, in which
  the field \<^verbatim>\<open>interfaces\<close> does not fit: \<^verbatim>\<open>object_is_type\<close> and
  \<^verbatim>\<open>object_delete\<close> then read it out of bounds.
\<close>

theorem object_new_undersized:
  "sizeof_ObjectClass \<le> 8 \<and> 8 < sizeof_Object \<and>
   map_sum id (\<lambda>(s, obj). (obj, object_heap s, object_is_type 10 s (Some obj) (Some ''other''),
                            map_sum id object_heap (object_delete 10 s obj)))
     (object_new 10 (registered [small_info]) (Some ''small'')) =
   Inr (0, [Some \<lparr>ob_size = 8, ob_class = Some 0, ob_interfaces = [], ob_obj = None\<rparr>],
        Inl Out_of_bounds, Inl Out_of_bounds)"
  by code_simp

subsection \<open>C4: the cast to an interface\<close>

text \<open>
  Claim C4 says that the cast of an instance to an interface that its type declares yields
  the interface object, not the instance. In the code, \<^verbatim>\<open>object_is_type\<close> also looks
  through the interface list (lines 366 to 372), so that the first test of
  \<^verbatim>\<open>object_dynamic_cast\<close> (line 382, whose comment says that it looks for a direct
  ancestor) already holds, and the instance itself is returned; the loop of lines 387 to
  393, which returns the interface object, is never reached with a match. Here the
  instance of \<^verbatim>\<open>impl\<close> is object 0, its interface object is object 1, and the cast of
  object 0 to \<^verbatim>\<open>iface_a\<close> is object 0. (The cast of the interface object back to
  \<^verbatim>\<open>impl\<close> gives object 0, as the claim says.)
\<close>

theorem object_dynamic_cast_returns_instance:
  "map_sum id (\<lambda>(s, obj). (obj, object_heap s,
       object_dynamic_cast 10 s (Some obj) (Some ''iface_a''),
       object_dynamic_cast 10 s (Some 1) (Some ''impl'')))
     (object_new 10 iface_state (Some ''impl'')) =
   Inr (0, [Some \<lparr>ob_size = 16, ob_class = Some 0, ob_interfaces = [1], ob_obj = None\<rparr>,
            Some \<lparr>ob_size = 24, ob_class = Some 1, ob_interfaces = [], ob_obj = Some 0\<rparr>],
        Inr (Some 0), Inr (Some 0))"
  by code_simp

subsection \<open>C6: the anonymous type of an interface entry\<close>

text \<open>
  Claim C6 says that the descriptor of the anonymous type has \<^verbatim>\<open>abstract = true\<close>. The
  \<^verbatim>\<open>TypeInfo\<close> of lines 206 to 212 has \<^verbatim>\<open>.abstract = true\<close>, and
  \<^verbatim>\<open>type_register_static\<close> copies the field (line 108), but
  \<^verbatim>\<open>type_register_anonymous\<close> does not, and the descriptor keeps the zero of its
  allocation. After the class build of \<^verbatim>\<open>impl\<close>, the descriptor of its anonymous
  type is there, with the entry of \<^verbatim>\<open>impl\<close> pointing to it, and it is not abstract.
\<close>

theorem anonymous_type_not_abstract:
  "map_sum id (\<lambda>s. map (\<lambda>ti. (ti_name ti, ti_abstract ti, map if_type (ti_interfaces ti))) (type_heap s))
     (type_class_init 2 iface_state (Some 2)) =
   Inr [(''interface'', True, []), (''iface_a'', True, []), (''impl'', False, [Some 3]),
        (''<anonymous-0>'', False, [])]"
  by code_simp

subsection \<open>C2: the order of the class hooks\<close>

text \<open>
  Claim C2 says that the class build of Leaf calls the \<^verbatim>\<open>base_init\<close> of Root, Mid and
  Leaf on the class of Leaf. The code starts the walk at the parent:
  \<^verbatim>\<open>type_class_base_init(ti, ti->parent)\<close>, line 248. In the chain below every type has
  a \<^verbatim>\<open>base_init\<close>, and each class hook writes a byte of its own (Root 1 and 2, Mid 3
  and 4, Leaf 5 and 6, \<^verbatim>\<open>base_init\<close> first). The class build of Leaf, the first build
  in this registry, runs the hooks in the order below; class object 0 is the class of
  Leaf, 1 that of Mid, 2 that of Root. The \<^verbatim>\<open>base_init\<close> of Leaf is not called: its
  byte 5 is missing from the class of Leaf. (The builds of the classes of Root and Mid,
  which are part of this build, call the \<^verbatim>\<open>class_init\<close> of Root and of Mid, each on
  its own class.)
\<close>

theorem type_class_init_skips_own_base_init_counterexample:
  "map_sum id (\<lambda>s. (trace s, map oc_tail (class_heap s))) (type_class_init 4 chain_state (Some 3)) =
     Inr ([Ev_class_init ''Root'' 2 0,
           Ev_base_init ''Root'' 1, Ev_class_init ''Mid'' 1 0,
           Ev_base_init ''Root'' 0, Ev_base_init ''Mid'' 0, Ev_class_init ''Leaf'' 0 77],
          [[1, 2, 3, 4, 0, 6, 0, 0, 0, 0, 0, 0, 0, 0, 0, 0],
           [1, 2, 0, 4, 0, 0, 0, 0],
           [0, 2, 0, 0, 0, 0, 0, 0]])"
  by code_simp

text \<open>
  Claim C2 as amended: for every registered chain Root, Mid, Leaf, a class build of Leaf
  that finds no class of Leaf, and returns, has run in these steps. It has allocated the
  class object of Leaf and built the classes of Mid and Root; the hooks of these builds
  (\<open>evs\<close>) are on class objects allocated after that of Leaf. This leaves the state
  \<open>s4\<close>. From \<open>s4\<close> the walk \<^verbatim>\<open>type_class_base_init\<close>, started at the parent, has
  called on the class object of Leaf the \<^verbatim>\<open>base_init\<close> of the proper ancestors only,
  where present, top-down in the order Root, Mid, and not the \<^verbatim>\<open>base_init\<close> of Leaf
  itself. This leaves the state \<open>s5\<close>. From \<open>s5\<close> the synthesis of the interface types
  (\<^verbatim>\<open>class_interfaces\<close>, the loop of lines 250 to 252) has registered one new type for
  every interface entry of Leaf, with the declared interface as its parent, and has
  stored it in the entry; it calls no hook. This leaves the state \<open>s6\<close>. From \<open>s6\<close>,
  last, the \<^verbatim>\<open>class_init\<close> of Leaf is called with the class and the \<^verbatim>\<open>class_data\<close>
  of Leaf, where present. The calls of the walk and this one are the only calls on the
  class of Leaf. The names of Mid and Root are not anonymous names still to be issued,
  which the synthesis of the interface types of Mid and Root could register anew.
\<close>

theorem type_class_init_base_init_order:
  assumes L: "al < length (type_heap s)" "ti_class (type_heap s ! al) = None"
             "ti_parent (type_heap s ! al) = Some M"
    and M: "type_table s M = Some am" "am < length (type_heap s)"
           "ti_parent (type_heap s ! am) = Some R"
    and R: "type_table s R = Some ar" "ar < length (type_heap s)"
           "ti_parent (type_heap s ! ar) = None"
    and anon: "\<forall>j \<ge> anon_count s. M \<noteq> anonymous_name j"
              "\<forall>j \<ge> anon_count s. R \<noteq> anonymous_name j"
    and run: "type_class_init n s (Some al) = Inr s'"
  shows "\<exists>m s4 s5 s6 evs.
           n = Suc m \<and>
           ti_class (type_heap s4 ! al) = Some (length (class_heap s)) \<and>
           trace s4 = trace s @ evs \<and>
           (\<forall>e\<in>set evs. \<exists>c'. ev_class e = Some c' \<and> length (class_heap s) < c') \<and>
           type_class_base_init m s4 al (Some M) = Inr s5 \<and>
           trace s5 = trace s4 @
             base_init_event (type_heap s ! ar) (length (class_heap s)) @
             base_init_event (type_heap s ! am) (length (class_heap s)) \<and>
           type_heap s5 = type_heap s4 \<and>
           class_interfaces s5 al = Inr s6 \<and>
           trace s6 = trace s5 \<and>
           length (type_heap s6) = length (type_heap s5) + num_interfaces (type_heap s ! al) \<and>
           (\<forall>i < num_interfaces (type_heap s ! al).
              if_type (ti_interfaces (type_heap s6 ! al) ! i) = Some (length (type_heap s5) + i) \<and>
              ti_parent (type_heap s6 ! (length (type_heap s5) + i)) =
                Some (if_parent (ti_interfaces (type_heap s ! al) ! i))) \<and>
           class_call_init s6 al = Inr s' \<and>
           trace s' = trace s6 @ class_init_event (type_heap s ! al) (length (class_heap s)) \<and>
           ti_class (type_heap s' ! al) = Some (length (class_heap s)) \<and>
           trace s' = trace s @ evs @
             base_init_event (type_heap s ! ar) (length (class_heap s)) @
             base_init_event (type_heap s ! am) (length (class_heap s)) @
             class_init_event (type_heap s ! al) (length (class_heap s))"
proof -
  let ?c = "length (class_heap s)"
  from type_class_init_steps [OF run L(1,2)] obtain m s4 s5 s6 evs where
    n: "n = Suc m" and
    tg: "types_grow ?c {al} s s4" and
    tr4: "trace s4 = trace s @ evs" and
    evs: "\<forall>e\<in>set evs. \<exists>c'. ev_class e = Some c' \<and> ?c < c'" and
    c4: "ti_class (type_heap s4 ! al) = Some ?c" and
    s5: "type_class_base_init m s4 al (Some M) = Inr s5" and
    s6: "class_interfaces s5 al = Inr s6" and
    s': "class_call_init s6 al = Inr s'"
    using L(3) by auto
  note stL = types_grow_static [OF tg L(1)]
  note stM = types_grow_static [OF tg M(2)]
  note stR = types_grow_static [OF tg R(2)]
  from tg anon(1) M(1) have tabM: "type_table s4 M = Some am"
    by (simp add: types_grow_def)
  from tg anon(2) R(1) have tabR: "type_table s4 R = Some ar"
    by (simp add: types_grow_def)
  have pM: "ti_parent (type_heap s4 ! am) = Some R" using stM M(3) by (simp add: same_static_def)
  have pR: "ti_parent (type_heap s4 ! ar) = None" using stR R(3) by (simp add: same_static_def)
  from type_class_base_init_trace [OF s5 _ c4] stL obtain ts where
    ts: "parent_chain m s4 (Some M) = Inr ts" and
    tr5: "trace s5 = trace s4 @ concat (map (\<lambda>t. base_init_event t ?c) (rev ts))" and
    f5: "type_heap s5 = type_heap s4"
    by auto
  have "ts = [type_heap s4 ! am, type_heap s4 ! ar]"
    using parent_chain_two [OF ts tabM _ pM tabR _ pR] stM stR by simp
  then have tr5': "trace s5 = trace s4 @ base_init_event (type_heap s ! ar) ?c @
                     base_init_event (type_heap s ! am) ?c"
    using tr5 base_init_event_static [OF conjunct2 [OF stM]]
      base_init_event_static [OF conjunct2 [OF stR]] by simp
  from class_interfaces_frame [OF s6] obtain ifs0 where
    tr6: "trace s6 = trace s5" and
    t6: "type_heap s6 ! al = (type_heap s5 ! al)\<lparr>ti_interfaces := ifs0\<rparr>"
    by auto
  have a5: "al < length (type_heap s5)"
    using stL f5 by simp
  have mp: "map if_parent (ti_interfaces (type_heap s5 ! al)) =
      map if_parent (ti_interfaces (type_heap s ! al))"
    using stL f5 by (simp add: same_static_def)
  have k5: "length (ti_interfaces (type_heap s5 ! al)) = num_interfaces (type_heap s ! al)"
    using arg_cong [OF mp, of length] by (simp add: num_interfaces_def)
  from s6 a5 have run6: "for_each (\<lambda>s' i. type_class_interface_init s' al i) s5
      [0..<length (ti_interfaces (type_heap s5 ! al))] = Inr s6"
    by (simp add: class_interfaces_def deref_type_def num_interfaces_def)
  from class_interfaces_loop [OF a5 order_refl] run6 obtain ifs where
    len6: "length (type_heap s6) = length (type_heap s5) + length (ti_interfaces (type_heap s5 ! al))" and
    new6: "\<forall>i < length (ti_interfaces (type_heap s5 ! al)).
            type_heap s6 ! (length (type_heap s5) + i) =
              anonymous_type (anon_count s5 + i) (ti_interfaces (type_heap s5 ! al) ! i)" and
    ta6: "type_heap s6 ! al = (type_heap s5 ! al)\<lparr>ti_interfaces := ifs\<rparr>" and
    li6: "length ifs = length (ti_interfaces (type_heap s5 ! al))" and
    ifs6: "\<forall>i < length ifs. ifs ! i =
            (if i < length (ti_interfaces (type_heap s5 ! al))
             then (ti_interfaces (type_heap s5 ! al) ! i)\<lparr>if_type := Some (length (type_heap s5) + i)\<rparr>
             else ti_interfaces (type_heap s5 ! al) ! i)"
    by auto
  have r_len: "length (type_heap s6) = length (type_heap s5) + num_interfaces (type_heap s ! al)"
    using len6 k5 by simp
  have r_ifs: "\<forall>i < num_interfaces (type_heap s ! al).
      if_type (ti_interfaces (type_heap s6 ! al) ! i) = Some (length (type_heap s5) + i) \<and>
      ti_parent (type_heap s6 ! (length (type_heap s5) + i)) =
        Some (if_parent (ti_interfaces (type_heap s ! al) ! i))"
  proof (intro allI impI)
    fix i assume i: "i < num_interfaces (type_heap s ! al)"
    with k5 have i5: "i < length (ti_interfaces (type_heap s5 ! al))"
      by simp
    from i5 ifs6 li6 have 1: "if_type (ti_interfaces (type_heap s6 ! al) ! i) =
        Some (length (type_heap s5) + i)"
      by (simp add: ta6)
    from i5 have "if_parent (ti_interfaces (type_heap s5 ! al) ! i) =
        map if_parent (ti_interfaces (type_heap s5 ! al)) ! i"
      by simp
    also have "\<dots> = map if_parent (ti_interfaces (type_heap s ! al)) ! i"
      by (simp only: mp)
    also from i have "\<dots> = if_parent (ti_interfaces (type_heap s ! al) ! i)"
      by (simp add: num_interfaces_def)
    finally have 2: "if_parent (ti_interfaces (type_heap s5 ! al) ! i) =
        if_parent (ti_interfaces (type_heap s ! al) ! i)" .
    from i5 new6 have 3: "ti_parent (type_heap s6 ! (length (type_heap s5) + i)) =
        Some (if_parent (ti_interfaces (type_heap s ! al) ! i))"
      by (simp add: anonymous_type_def 2)
    from 1 3 show "if_type (ti_interfaces (type_heap s6 ! al) ! i) = Some (length (type_heap s5) + i) \<and>
      ti_parent (type_heap s6 ! (length (type_heap s5) + i)) =
        Some (if_parent (ti_interfaces (type_heap s ! al) ! i))"
      by simp
  qed
  have c6: "ti_class (type_heap s6 ! al) = Some ?c" using t6 f5 c4 by simp
  have e6: "class_init_event (type_heap s6 ! al) ?c = class_init_event (type_heap s ! al) ?c"
    using t6 f5 stL by (auto simp: class_init_event_def same_static_def split: option.splits)
  from class_call_init_trace [OF s' c6] have
    tr': "trace s' = trace s6 @ class_init_event (type_heap s ! al) ?c" and
    f': "type_heap s' = type_heap s6"
    using e6 by auto
  have c': "ti_class (type_heap s' ! al) = Some ?c" using f' c6 by simp
  have all: "trace s' = trace s @ evs @ base_init_event (type_heap s ! ar) ?c @
             base_init_event (type_heap s ! am) ?c @ class_init_event (type_heap s ! al) ?c"
    using tr' tr6 tr5' tr4 by simp
  show ?thesis
    by (rule exI [of _ m], rule exI [of _ s4], rule exI [of _ s5], rule exI [of _ s6],
        rule exI [of _ evs], intro conjI)
      (rule n c4 tr4 evs s5 tr5' f5 s6 tr6 r_len r_ifs s' tr' c' all)+
qed

theorem type_class_init_base_init_order_witness:
  "\<exists>s' s5 s6 evs. type_class_init 4 chain_iface_state (Some 4) = Inr s' \<and>
      ti_class (type_heap s' ! 4) = Some 0 \<and>
      (\<forall>e\<in>set evs. \<exists>c'. ev_class e = Some c' \<and> 0 < c') \<and>
      trace s5 = evs @ [Ev_base_init ''Root'' 0, Ev_base_init ''Mid'' 0] \<and>
      class_interfaces s5 4 = Inr s6 \<and>
      trace s6 = trace s5 \<and>
      length (type_heap s6) = Suc (length (type_heap s5)) \<and>
      if_type (ti_interfaces (type_heap s6 ! 4) ! 0) = Some (length (type_heap s5)) \<and>
      ti_parent (type_heap s6 ! length (type_heap s5)) = Some ''iface_a'' \<and>
      class_call_init s6 4 = Inr s' \<and>
      trace s' = trace s6 @ [Ev_class_init ''Leaf'' 0 77]"
proof -
  let ?s = chain_iface_state
  let ?c = "length (class_heap ?s)"
  have L: "4 < length (type_heap ?s)" "ti_class (type_heap ?s ! 4) = None"
    "ti_parent (type_heap ?s ! 4) = Some ''Mid''"
    by code_simp+
  have M: "type_table ?s ''Mid'' = Some 3" "3 < length (type_heap ?s)"
    "ti_parent (type_heap ?s ! 3) = Some ''Root''"
    by code_simp+
  have R: "type_table ?s ''Root'' = Some 2" "2 < length (type_heap ?s)"
    "ti_parent (type_heap ?s ! 2) = None"
    by code_simp+
  have anon: "\<forall>j \<ge> anon_count ?s. ''Mid'' \<noteq> anonymous_name j"
    "\<forall>j \<ge> anon_count ?s. ''Root'' \<noteq> anonymous_name j"
    by (simp_all add: not_anonymous_name)
  have "case type_class_init 4 ?s (Some 4) of Inl e \<Rightarrow> False | Inr s' \<Rightarrow> True"
    by code_simp
  then obtain s' where run: "type_class_init 4 ?s (Some 4) = Inr s'"
    by (auto split: sum.splits)
  have c: "?c = 0" "trace ?s = []"
    by code_simp+
  have e: "base_init_event (type_heap ?s ! 2) 0 = [Ev_base_init ''Root'' 0]"
    "base_init_event (type_heap ?s ! 3) 0 = [Ev_base_init ''Mid'' 0]"
    "class_init_event (type_heap ?s ! 4) 0 = [Ev_class_init ''Leaf'' 0 77]"
    by code_simp+
  have k: "num_interfaces (type_heap ?s ! 4) = Suc 0"
    "if_parent (ti_interfaces (type_heap ?s ! 4) ! 0) = ''iface_a''"
    by code_simp+
  from type_class_init_base_init_order [OF L M R anon run] obtain m s4 s5 s6 evs where
    h: "4 = Suc m"
      "ti_class (type_heap s4 ! 4) = Some ?c"
      "trace s4 = trace ?s @ evs"
      "\<forall>e\<in>set evs. \<exists>c'. ev_class e = Some c' \<and> ?c < c'"
      "type_class_base_init m s4 4 (Some ''Mid'') = Inr s5"
      "trace s5 = trace s4 @ base_init_event (type_heap ?s ! 2) ?c @
         base_init_event (type_heap ?s ! 3) ?c"
      "type_heap s5 = type_heap s4"
      "class_interfaces s5 4 = Inr s6"
      "trace s6 = trace s5"
      "length (type_heap s6) = length (type_heap s5) + num_interfaces (type_heap ?s ! 4)"
      "\<forall>i < num_interfaces (type_heap ?s ! 4).
         if_type (ti_interfaces (type_heap s6 ! 4) ! i) = Some (length (type_heap s5) + i) \<and>
         ti_parent (type_heap s6 ! (length (type_heap s5) + i)) =
           Some (if_parent (ti_interfaces (type_heap ?s ! 4) ! i))"
      "class_call_init s6 4 = Inr s'"
      "trace s' = trace s6 @ class_init_event (type_heap ?s ! 4) ?c"
      "ti_class (type_heap s' ! 4) = Some ?c"
    by (elim exE conjE) (rule that)
  have g: "ti_class (type_heap s' ! 4) = Some 0"
      "\<forall>e\<in>set evs. \<exists>c'. ev_class e = Some c' \<and> 0 < c'"
      "trace s5 = evs @ [Ev_base_init ''Root'' 0, Ev_base_init ''Mid'' 0]"
      "trace s' = trace s6 @ [Ev_class_init ''Leaf'' 0 77]"
      "length (type_heap s6) = Suc (length (type_heap s5))"
    using h(14,4,6,13,10) unfolding c e k h(3) by simp_all
  from h(11) [rule_format, of 0] have i:
      "if_type (ti_interfaces (type_heap s6 ! 4) ! 0) = Some (length (type_heap s5))"
      "ti_parent (type_heap s6 ! length (type_heap s5)) = Some ''iface_a''"
    by (simp_all add: k)
  show ?thesis
    by (rule exI [of _ s'], rule exI [of _ s5], rule exI [of _ s6], rule exI [of _ evs],
        intro conjI) (rule run g h(8,9,12) i)+
qed

subsection \<open>C3: the class of a type with a parent\<close>



subsection \<open>C8: the interface objects of an instance\<close>



end
